theory Spec2Isabelle
  imports Complex_Main "HOL-Library.Word"
begin

section \<open>Immersed finite element method: data model\<close>

text \<open>
  The program of \<^verbatim>\<open>source/immersed_fem.cc\<close> is embedded with \<^verbatim>\<open>double\<close> read as
  \<^typ>\<open>real\<close>.  A \<^verbatim>\<open>Vector<double>\<close> is a function from the (global or local) index to
  its entry, a matrix a function of row and column.  The finite element library supplies
  tables (shape values, gradients, weights, dof indices) that the code only reads; they
  are fields of the records below and are arbitrary in every theorem.
\<close>

type_synonym vec = "nat \<Rightarrow> real"
type_synonym mat = "nat \<Rightarrow> nat \<Rightarrow> real"
type_synonym tensor1 = "nat \<Rightarrow> real"
type_synonym tensor2 = "nat \<Rightarrow> nat \<Rightarrow> real"

record BlockVector =
  block0 :: vec
  block1 :: vec

text \<open>\<^verbatim>\<open>BlockSparseMatrix<double>\<close>: the sizes of the two diagonal blocks and the entries of
  block \<open>(r, c)\<close>.  It is empty when every block has dimension zero.\<close>

record BlockSparseMatrix =
  bsize0 :: nat
  bsize1 :: nat
  blk :: "nat \<Rightarrow> nat \<Rightarrow> mat"

record BlockSparsityPattern =
  sp_size0 :: nat
  sp_size1 :: nat
  pattern :: "nat \<Rightarrow> nat \<Rightarrow> (nat \<times> nat) set"

text \<open>\<^verbatim>\<open>FullMatrix<double>\<close>: \<open>m\<close> rows, \<open>n\<close> columns.\<close>

record FullMatrix =
  fm_m :: nat
  fm_n :: nat
  el :: mat

datatype material_model = INH_0 | INH_1 | CircumferentialFiberModel

text \<open>\<^verbatim>\<open>IFEMParameters<dim>\<close>.  \<open>force t p c\<close> is component \<open>c\<close> of the body force at
  point \<open>p\<close> after \<^verbatim>\<open>set_time(t)\<close>.  \<open>boundary_values\<close> is the \<^verbatim>\<open>std::map\<close> from dof
  index to prescribed value, kept as a list of pairs in increasing key order.\<close>

record IFEMParameters =
  rho :: real
  eta :: real
  mu :: real
  Phi_B :: real
  dt :: real
  T_final :: real
  degree :: nat
  material_model :: material_model
  semi_implicit :: bool
  use_spread :: bool
  all_DBC :: bool
  fix_pressure :: bool
  update_jacobian_continuously :: bool
  update_jacobian_at_step_beginning :: bool
  ring_center :: tensor1
  force :: "real \<Rightarrow> tensor1 \<Rightarrow> nat \<Rightarrow> real"
  boundary_values :: "(nat \<times> real) list"

text \<open>\<^verbatim>\<open>FESystem\<close>: \<open>component i\<close> and \<open>base_index i\<close> are the two halves of
  \<^verbatim>\<open>system_to_component_index(i)\<close>.\<close>

record FiniteElement =
  dofs_per_cell :: nat
  component :: "nat \<Rightarrow> nat"
  base_index :: "nat \<Rightarrow> nat"

text \<open>What an \<^verbatim>\<open>FEValues\<close> object holds after \<^verbatim>\<open>reinit(cell)\<close>, with the cell's dof
  indices and diameter.\<close>

record cell_values =
  dof_indices :: "nat list"
  shape_value :: "nat \<Rightarrow> nat \<Rightarrow> real"
  shape_grad :: "nat \<Rightarrow> nat \<Rightarrow> tensor1"
  shape_hessian :: "nat \<Rightarrow> nat \<Rightarrow> tensor2"
  JxW :: "nat \<Rightarrow> real"
  quadrature_point :: "nat \<Rightarrow> tensor1"
  diameter :: real

text \<open>\<^verbatim>\<open>MappingQEulerian\<close>: the polynomial degree and the displacement vector it was
  built from.\<close>

record MappingQEulerian =
  map_degree :: nat
  euler_vector :: vec

text \<open>One entry of the answer of \<^verbatim>\<open>compute_point_locations\<close>: a fluid cell with the
  \<^verbatim>\<open>FEValues\<close> of the fluid element at the located points (\<open>local_fe_f_v\<close>), and
  \<open>fluid_maps[c]\<close>, the indices of the solid quadrature points that fell into it.\<close>

record located =
  local_fe_f_v :: cell_values
  fluid_map :: "nat list"

text \<open>The discretisation fixed by the constructor: dimension, the two elements, the
  cells of the two meshes with their \<^verbatim>\<open>FEValues\<close>, the number of quadrature points, the
  number of dofs, the point location service (\<open>compute_point_locations m c\<close> answers for
  the quadrature points of the solid cell \<open>c\<close> mapped by \<open>m\<close>), the boundary interpolation service
  (\<open>interpolate_boundary_values t\<close> lists the pairs that
  \<^verbatim>\<open>VectorTools::interpolate_boundary_values\<close> stores at time \<open>t\<close>), the inverse of the
  mass matrix of the solid, applied by \<^verbatim>\<open>M_gamma3_inv.solve\<close>, and the direct solver
  (\<open>umfpack_solve A b\<close> is what \<^verbatim>\<open>solve\<close> leaves in the vector \<open>b\<close> after
  \<^verbatim>\<open>initialize(A)\<close>).\<close>

record discretisation =
  dim :: nat
  fe_f :: FiniteElement
  fe_s :: FiniteElement
  dh_f :: "cell_values list"
  dh_s :: "cell_values list"
  nqpf :: nat
  nqps :: nat
  n_dofs_up :: nat
  n_dofs_W :: nat
  dgp_for_p :: bool
  compute_point_locations :: "MappingQEulerian \<Rightarrow> cell_values \<Rightarrow> located list"
  interpolate_boundary_values :: "real \<Rightarrow> (nat \<times> real) list"
  M_gamma3_inv :: mat
  umfpack_solve :: "BlockSparseMatrix \<Rightarrow> BlockVector \<Rightarrow> BlockVector"

text \<open>A reference to one of the two Jacobian members of the class, as \<^verbatim>\<open>run\<close> passes
  them to \<^verbatim>\<open>residual_and_or_Jacobian\<close>.\<close>

datatype jacobian_ref = Ref_JF | Ref_dummy_JF

text \<open>The mutable members of \<^verbatim>\<open>ImmersedFEM<dim>\<close>.  \<open>mapping\<close> is the raw pointer
  (\<open>None\<close> for \<^verbatim>\<open>NULL\<close>) into \<open>heap\<close>, the store of the mapping objects alive;
  \<open>next_addr\<close> is the next address \<^verbatim>\<open>new\<close> hands out.\<close>

record ImmersedFEM =
  par :: IFEMParameters
  mapping :: "nat option"
  heap :: "nat \<Rightarrow> MappingQEulerian option"
  next_addr :: nat
  scaling :: real
  area :: real
  constraining_dof :: nat
  sparsity :: BlockSparsityPattern
  JF :: BlockSparseMatrix
  dummy_JF :: BlockSparseMatrix
  JF_inv :: BlockSparseMatrix
  A_gamma :: vec
  M_gamma3_inv_A_gamma :: vec
  current_xi :: BlockVector
  previous_xi :: BlockVector
  current_xit :: BlockVector
  current_res :: BlockVector
  newton_update :: BlockVector

section \<open>Boundary values\<close>

text \<open>\<^verbatim>\<open>boundary_values[k] = v\<close> on the ordered map.\<close>

fun map_assign :: "nat \<Rightarrow> real \<Rightarrow> (nat \<times> real) list \<Rightarrow> (nat \<times> real) list" where
  "map_assign k v [] = [(k, v)]"
| "map_assign k v ((k', v') # xs) =
     (if k < k' then (k, v) # (k', v') # xs
      else if k = k' then (k, v) # xs
      else (k', v') # map_assign k v xs)"

text \<open>\<^verbatim>\<open>compute_current_bc\<close>: the library stores the interpolated boundary values of time
  \<open>t\<close> into the map; with \<open>fix_pressure\<close> the constraining dof is prescribed to zero.\<close>

definition compute_current_bc :: "discretisation \<Rightarrow> real \<Rightarrow> ImmersedFEM \<Rightarrow> ImmersedFEM" where
  "compute_current_bc E t s =
     (let bv = fold (\<lambda>(k, v). map_assign k v) (interpolate_boundary_values E t)
                 (boundary_values (par s));
          bv' = (if fix_pressure (par s) then map_assign (constraining_dof s) 0 bv else bv)
      in s\<lparr>par := (par s)\<lparr>boundary_values := bv'\<rparr>\<rparr>)"

text \<open>The loop of \<^verbatim>\<open>apply_current_bc\<close> over the entries of the map.\<close>

fun assign_entries :: "(nat \<times> real) list \<Rightarrow> vec \<Rightarrow> vec" where
  "assign_entries [] v = v"
| "assign_entries ((k, x) # es) v = assign_entries es (v(k := x))"

definition apply_current_bc ::
  "discretisation \<Rightarrow> BlockVector \<Rightarrow> real \<Rightarrow> ImmersedFEM \<Rightarrow> BlockVector \<times> ImmersedFEM" where
  "apply_current_bc E vec t s =
     (let s' = compute_current_bc E t s
      in (vec\<lparr>block0 := assign_entries (boundary_values (par s')) (block0 vec)\<rparr>, s'))"

section \<open>Evaluation of finite element fields\<close>

text \<open>\<^verbatim>\<open>cell->get_dof_indices(dofs)\<close> into a vector of \<open>dofs_per_cell\<close> entries.\<close>

definition get_dof_indices :: "FiniteElement \<Rightarrow> cell_values \<Rightarrow> nat list" where
  "get_dof_indices fe c = map (\<lambda>i. dof_indices c ! i) [0..<dofs_per_cell fe]"

text \<open>\<^verbatim>\<open>FEValues::get_function_values\<close> and \<^verbatim>\<open>get_function_gradients\<close> of the library:
  component \<open>c\<close> of the field of the dof vector \<open>u\<close> at quadrature point \<open>q\<close> is the
  combination of the shape functions of that component with the cell's dof values.\<close>

definition get_function_values ::
  "FiniteElement \<Rightarrow> cell_values \<Rightarrow> vec \<Rightarrow> nat \<Rightarrow> nat \<Rightarrow> real" where
  "get_function_values fe fv u q c =
     (\<Sum>j<dofs_per_cell fe.
        if component fe j = c then u (get_dof_indices fe fv ! j) * shape_value fv j q else 0)"

definition get_function_gradients ::
  "FiniteElement \<Rightarrow> cell_values \<Rightarrow> vec \<Rightarrow> nat \<Rightarrow> nat \<Rightarrow> tensor1" where
  "get_function_gradients fe fv u q c d =
     (\<Sum>j<dofs_per_cell fe.
        if component fe j = c then u (get_dof_indices fe fv ! j) * shape_grad fv j q d else 0)"

section \<open>Fluid cell: local residual and Jacobian\<close>

text \<open>The body of the loop over \<open>i\<close> and \<open>q\<close> of \<^verbatim>\<open>residual_and_or_Jacobian\<close> on one
  fluid cell.  Every \<^verbatim>\<open>+=\<close> into one entry is a sum over the loop indices.  \<open>xit\<close> and
  \<open>xi\<close> are block 0 of the time derivative and of the state.\<close>

definition fluid_local_res ::
  "discretisation \<Rightarrow> IFEMParameters \<Rightarrow> real \<Rightarrow> cell_values \<Rightarrow> vec \<Rightarrow> vec \<Rightarrow> vec" where
  "fluid_local_res E P t fv xit xi i =
     (let local_upt = get_function_values (fe_f E) fv xit;
          local_up = get_function_values (fe_f E) fv xi;
          local_grad_up = get_function_gradients (fe_f E) fv xi;
          local_force = (\<lambda>q. force P t (quadrature_point fv q));
          comp_i = component (fe_f E) i
      in if i < dofs_per_cell (fe_f E) then
           (\<Sum>q<nqpf E.
              if comp_i < dim E then
                rho P * (local_upt q comp_i - local_force q comp_i)
                  * shape_value fv i q * JxW fv q
                - local_up q (dim E) * shape_grad fv i q comp_i * JxW fv q
                + (\<Sum>d<dim E.
                     eta P * (local_grad_up q comp_i d + local_grad_up q d comp_i)
                       * shape_grad fv i q d * JxW fv q
                     + rho P * local_grad_up q comp_i d * local_up q d
                       * shape_value fv i q * JxW fv q)
              else
                - (\<Sum>d<dim E. local_grad_up q d d * shape_value fv i q * JxW fv q))
         else 0)"

definition fluid_local_jacobian ::
  "discretisation \<Rightarrow> IFEMParameters \<Rightarrow> real \<Rightarrow> cell_values \<Rightarrow> vec \<Rightarrow> mat" where
  "fluid_local_jacobian E P alpha fv xi i j =
     (let local_up = get_function_values (fe_f E) fv xi;
          local_grad_up = get_function_gradients (fe_f E) fv xi;
          comp_i = component (fe_f E) i;
          comp_j = component (fe_f E) j
      in if i < dofs_per_cell (fe_f E) \<and> j < dofs_per_cell (fe_f E) then
           (\<Sum>q<nqpf E.
              if comp_i < dim E then
                (if comp_i = comp_j
                 then rho P * alpha * shape_value fv i q * shape_value fv j q * JxW fv q
                 else 0)
                - (if comp_j = dim E
                   then shape_grad fv i q comp_i * shape_value fv j q * JxW fv q
                   else 0)
                + (if comp_j = comp_i
                   then (\<Sum>d<dim E.
                           eta P * shape_grad fv i q d * shape_grad fv j q d * JxW fv q
                           + rho P * shape_value fv i q * local_up q d
                             * shape_grad fv j q d * JxW fv q)
                   else 0)
                + (if comp_j < dim E
                   then eta P * shape_grad fv i q comp_j * shape_grad fv j q comp_i * JxW fv q
                        + rho P * local_grad_up q comp_i comp_j
                          * shape_value fv i q * shape_value fv j q * JxW fv q
                   else 0)
              else
                - (if comp_j < dim E
                   then shape_value fv i q * shape_grad fv j q comp_j * JxW fv q
                   else 0))
         else 0)"

text \<open>The pressure dofs that enter the average: all of them, or with a discontinuous
  pressure element only the first shape function of the pressure.\<close>

definition in_pressure_average :: "discretisation \<Rightarrow> nat \<Rightarrow> bool" where
  "in_pressure_average E i \<longleftrightarrow>
     \<not> component (fe_f E) i < dim E \<and>
     (\<not> dgp_for_p E \<or> (dgp_for_p E \<and> base_index (fe_f E) i = 0))"

definition local_average_pressure ::
  "discretisation \<Rightarrow> IFEMParameters \<Rightarrow> cell_values \<Rightarrow> vec \<Rightarrow> real" where
  "local_average_pressure E P fv xi =
     (\<Sum>i<dofs_per_cell (fe_f E). \<Sum>q<nqpf E.
        if all_DBC P \<and> \<not> fix_pressure P \<and> in_pressure_average E i
        then xi (get_dof_indices (fe_f E) fv ! i) * shape_value fv i q * JxW fv q
        else 0)"

definition local_pressure_coefficient ::
  "discretisation \<Rightarrow> IFEMParameters \<Rightarrow> bool \<Rightarrow> cell_values \<Rightarrow> vec" where
  "local_pressure_coefficient E P update_jacobian fv i =
     (if i < dofs_per_cell (fe_f E) then
        (\<Sum>q<nqpf E.
           if all_DBC P \<and> \<not> fix_pressure P \<and> in_pressure_average E i \<and> update_jacobian
           then shape_value fv i q * JxW fv q
           else 0)
      else 0)"

section \<open>Constraints and scatter into the global system\<close>

definition fm_empty :: "FullMatrix \<Rightarrow> bool" where
  "fm_empty A \<longleftrightarrow> fm_m A = 0 \<or> fm_n A = 0"

definition fm_reinit :: "nat \<Rightarrow> nat \<Rightarrow> FullMatrix" where
  "fm_reinit m n = \<lparr>fm_m = m, fm_n = n, el = (\<lambda>_ _. 0)\<rparr>"

definition fm_set :: "FullMatrix \<Rightarrow> nat \<Rightarrow> nat \<Rightarrow> real \<Rightarrow> FullMatrix" where
  "fm_set A i j x = A\<lparr>el := (el A)(i := (el A i)(j := x))\<rparr>"

text \<open>\<^verbatim>\<open>for (j = 0; j < local_jacobian.n(); ++j) local_jacobian(i,j) = 0\<close>.\<close>

definition fm_zero_row :: "FullMatrix \<Rightarrow> nat \<Rightarrow> FullMatrix" where
  "fm_zero_row A i = A\<lparr>el := (\<lambda>r c. if r = i \<and> c < fm_n A then 0 else el A r c)\<rparr>"

text \<open>\<^verbatim>\<open>add_row(i, s, j)\<close> of the library: row \<open>i\<close> gets \<open>s\<close> times row \<open>j\<close> added.\<close>

definition add_row :: "FullMatrix \<Rightarrow> nat \<Rightarrow> real \<Rightarrow> nat \<Rightarrow> FullMatrix" where
  "add_row A i s j =
     A\<lparr>el := (\<lambda>r c. if r = i \<and> c < fm_n A then el A i c + s * el A j c else el A r c)\<rparr>"

text \<open>One pass of the loop of \<^verbatim>\<open>apply_constraints\<close>, for local dof \<open>i\<close>.  The members
  \<open>par\<close>, \<open>scaling\<close> and \<open>constraining_dof\<close> that the function reads are arguments.\<close>

definition constrain_dof ::
  "IFEMParameters \<Rightarrow> real \<Rightarrow> nat \<Rightarrow> vec \<Rightarrow> nat list \<Rightarrow> nat \<Rightarrow>
   vec \<times> FullMatrix \<Rightarrow> vec \<times> FullMatrix" where
  "constrain_dof P scal cdof value_of_dofs dofs i lr =
     (let (local_res, local_jacobian) = lr;
          (local_res, local_jacobian) =
            (case map_of (boundary_values P) (dofs ! i) of
               None \<Rightarrow> (local_res, local_jacobian)
             | Some v \<Rightarrow>
                 (local_res(i := scal * (value_of_dofs (dofs ! i) - v)),
                  if \<not> fm_empty local_jacobian
                  then fm_set (fm_zero_row local_jacobian i) i i scal
                  else local_jacobian))
      in if all_DBC P \<and> \<not> fix_pressure P
         then (if dofs ! i = cdof
               then (local_res(i := 0),
                     if \<not> fm_empty local_jacobian then add_row local_jacobian i (- 1) i
                     else local_jacobian)
               else (local_res, local_jacobian))
         else (local_res, local_jacobian))"

definition apply_constraints ::
  "IFEMParameters \<Rightarrow> real \<Rightarrow> nat \<Rightarrow> vec \<Rightarrow> FullMatrix \<Rightarrow> vec \<Rightarrow> nat list \<Rightarrow>
   vec \<times> FullMatrix" where
  "apply_constraints P scal cdof local_res local_jacobian value_of_dofs dofs =
     fold (constrain_dof P scal cdof value_of_dofs dofs) [0..<length dofs]
       (local_res, local_jacobian)"

definition distribute_residual :: "vec \<Rightarrow> vec \<Rightarrow> nat list \<Rightarrow> nat \<Rightarrow> vec" where
  "distribute_residual residual local_res dofs_1 offset_1 =
     fold (\<lambda>i r. r(dofs_1 ! i := r (dofs_1 ! i) + local_res (offset_1 + i)))
       [0..<length dofs_1] residual"

text \<open>\<^verbatim>\<open>Jacobian.add(r, c, x)\<close>.\<close>

definition mat_add :: "mat \<Rightarrow> nat \<Rightarrow> nat \<Rightarrow> real \<Rightarrow> mat" where
  "mat_add A r c x = A(r := (A r)(c := A r c + x))"

definition distribute_jacobian ::
  "mat \<Rightarrow> FullMatrix \<Rightarrow> nat list \<Rightarrow> nat list \<Rightarrow> nat \<Rightarrow> nat \<Rightarrow> mat" where
  "distribute_jacobian Jacobian local_Jac dofs_1 dofs_2 offset_1 offset_2 =
     fold (\<lambda>i. fold (\<lambda>j A. mat_add A (dofs_1 ! i) (dofs_2 ! j)
                              (el local_Jac (offset_1 + i) (offset_2 + j)))
                 [0..<length dofs_2])
       [0..<length dofs_1] Jacobian"

text \<open>The two overloads of \<^verbatim>\<open>distribute_constraint_on_pressure\<close>.\<close>

definition distribute_constraint_on_pressure_res ::
  "real \<Rightarrow> real \<Rightarrow> nat \<Rightarrow> vec \<Rightarrow> real \<Rightarrow> vec" where
  "distribute_constraint_on_pressure_res scal ar cdof residual average_pressure =
     residual(cdof := residual cdof + average_pressure * scal / ar)"

definition distribute_constraint_on_pressure_jac ::
  "real \<Rightarrow> real \<Rightarrow> nat \<Rightarrow> mat \<Rightarrow> vec \<Rightarrow> nat list \<Rightarrow> nat \<Rightarrow> mat" where
  "distribute_constraint_on_pressure_jac scal ar cdof jacobian pressure_coefficient dofs offset =
     fold (\<lambda>i A. mat_add A cdof (dofs ! i) (pressure_coefficient (offset + i) * scal / ar))
       [0..<length dofs] jacobian"

section \<open>Constitutive module\<close>

text \<open>Operations of the tensor library on \<^verbatim>\<open>Tensor<1,dim>\<close> and \<^verbatim>\<open>Tensor<2,dim>\<close>: the
  scalar product, \<^verbatim>\<open>contract<1,1>\<close>, \<^verbatim>\<open>contract<1,0>\<close>, a vector times a matrix,
  \<^verbatim>\<open>outer_product\<close>, \<^verbatim>\<open>transpose\<close>, the Euclidean norm, and \<^verbatim>\<open>invert\<close>, which the library
  computes from the cofactors divided by the determinant in two and three dimensions
  (the dimensions the class is instantiated for).\<close>

definition dot :: "nat \<Rightarrow> tensor1 \<Rightarrow> tensor1 \<Rightarrow> real" where
  "dot n a b = (\<Sum>k<n. a k * b k)"

definition contract11 :: "nat \<Rightarrow> tensor2 \<Rightarrow> tensor2 \<Rightarrow> tensor2" where
  "contract11 n A B i j = (\<Sum>k<n. A i k * B j k)"

definition contract10 :: "nat \<Rightarrow> tensor2 \<Rightarrow> tensor2 \<Rightarrow> tensor2" where
  "contract10 n A B i j = (\<Sum>k<n. A i k * B k j)"

definition vec_times :: "nat \<Rightarrow> tensor1 \<Rightarrow> tensor2 \<Rightarrow> tensor1" where
  "vec_times n a B j = (\<Sum>k<n. a k * B k j)"

definition outer_product :: "tensor1 \<Rightarrow> tensor1 \<Rightarrow> tensor2" where
  "outer_product a b i j = a i * b j"

definition transpose_t :: "tensor2 \<Rightarrow> tensor2" where
  "transpose_t A i j = A j i"

definition norm_t :: "nat \<Rightarrow> tensor1 \<Rightarrow> real" where
  "norm_t n p = sqrt (\<Sum>k<n. p k * p k)"

definition determinant :: "nat \<Rightarrow> tensor2 \<Rightarrow> real" where
  "determinant n t =
     (if n = 2 then t 0 0 * t 1 1 - t 1 0 * t 0 1
      else if n = 3 then
        t 0 0 * t 1 1 * t 2 2 - t 0 0 * t 1 2 * t 2 1 - t 0 1 * t 1 0 * t 2 2
        + t 0 2 * t 1 0 * t 2 1 + t 0 1 * t 2 0 * t 1 2 - t 0 2 * t 2 0 * t 1 1
      else 0)"

definition cofactors :: "nat \<Rightarrow> tensor2 \<Rightarrow> tensor2" where
  "cofactors n t =
     (if n = 2 then
        (\<lambda>i j. if i = 0 \<and> j = 0 then t 1 1
                else if i = 0 \<and> j = 1 then - t 0 1
                else if i = 1 \<and> j = 0 then - t 1 0
                else if i = 1 \<and> j = 1 then t 0 0
                else 0)
      else if n = 3 then
        (\<lambda>i j. if i = 0 \<and> j = 0 then t 1 1 * t 2 2 - t 1 2 * t 2 1
                else if i = 0 \<and> j = 1 then - (t 0 1 * t 2 2 - t 0 2 * t 2 1)
                else if i = 0 \<and> j = 2 then - (- t 0 1 * t 1 2 + t 0 2 * t 1 1)
                else if i = 1 \<and> j = 0 then - (t 1 0 * t 2 2 - t 1 2 * t 2 0)
                else if i = 1 \<and> j = 1 then t 0 0 * t 2 2 - t 0 2 * t 2 0
                else if i = 1 \<and> j = 2 then - (t 0 0 * t 1 2 - t 0 2 * t 1 0)
                else if i = 2 \<and> j = 0 then - (- t 1 0 * t 2 1 + t 1 1 * t 2 0)
                else if i = 2 \<and> j = 1 then - (t 0 0 * t 2 1 - t 0 1 * t 2 0)
                else if i = 2 \<and> j = 2 then t 0 0 * t 1 1 - t 0 1 * t 1 0
                else 0)
      else (\<lambda>i j. 0))"

definition invert :: "nat \<Rightarrow> tensor2 \<Rightarrow> tensor2" where
  "invert n t i j = cofactors n t i j * (1 / determinant n t)"

text \<open>The deformation gradient computed at the head of the loop of
  \<^verbatim>\<open>get_Pe_F_and_DPeFT_dxi_values\<close>: \<open>F[i] = H[qs][i]; F[i][i] += 1\<close>, with \<open>H\<close> the
  gradient of the displacement \<open>xi\<close> on the solid cell.\<close>

definition deformation_gradient ::
  "discretisation \<Rightarrow> cell_values \<Rightarrow> vec \<Rightarrow> nat \<Rightarrow> tensor2" where
  "deformation_gradient E fe_v_s xi qs i j =
     get_function_gradients (fe_s E) fe_v_s xi qs i j + (if i = j then 1 else 0)"

text \<open>The unit vector along the tangential direction, from \<open>p\<close>, the quadrature point
  relative to the centre of the ring; only its first two components are assigned.\<close>

definition etheta :: "discretisation \<Rightarrow> tensor1 \<Rightarrow> tensor1" where
  "etheta E p d =
     (if d = 0 then - p 1 / norm_t (dim E) p
      else if d = 1 then p 0 / norm_t (dim E) p
      else 0)"

definition etheta_at :: "discretisation \<Rightarrow> IFEMParameters \<Rightarrow> cell_values \<Rightarrow> nat \<Rightarrow> tensor1" where
  "etheta_at E P fe_v_s qs =
     etheta E (\<lambda>d. quadrature_point fe_v_s qs d - ring_center P d)"

text \<open>The three outputs of \<^verbatim>\<open>get_Pe_F_and_DPeFT_dxi_values\<close> at quadrature point \<open>qs\<close>:
  \<open>Pe[qs]\<close>, \<open>vec_F[qs]\<close> (the deformation gradient above) and \<open>DPeFT_dxi[qs][k]\<close>.\<close>

definition get_Pe ::
  "discretisation \<Rightarrow> IFEMParameters \<Rightarrow> cell_values \<Rightarrow> vec \<Rightarrow> nat \<Rightarrow> tensor2" where
  "get_Pe E P fe_v_s xi qs =
     (let F = deformation_gradient E fe_v_s xi qs
      in case material_model P of
           INH_0 \<Rightarrow> (\<lambda>i j. mu P * (F i j - transpose_t (invert (dim E) F) i j))
         | INH_1 \<Rightarrow> (\<lambda>i j. mu P * F i j)
         | CircumferentialFiberModel \<Rightarrow>
             (let e = etheta_at E P fe_v_s qs;
                  etheta_op_etheta = outer_product e e
              in (\<lambda>i j. contract10 (dim E) F etheta_op_etheta i j * mu P)))"

definition get_DPeFT_dxi ::
  "discretisation \<Rightarrow> IFEMParameters \<Rightarrow> cell_values \<Rightarrow> vec \<Rightarrow> nat \<Rightarrow> nat \<Rightarrow> tensor2" where
  "get_DPeFT_dxi E P fe_v_s xi qs k i j =
     (let F = deformation_gradient E fe_v_s xi qs;
          comp_k = component (fe_s E) k
      in case material_model P of
           INH_0 \<Rightarrow>
             ((if i = comp_k then dot (dim E) (shape_grad fe_v_s k qs) (F j) else 0)
              + (if j = comp_k then dot (dim E) (shape_grad fe_v_s k qs) (F i) else 0)) * mu P
         | INH_1 \<Rightarrow>
             ((if i = comp_k then dot (dim E) (shape_grad fe_v_s k qs) (F j) else 0)
              + (if j = comp_k then dot (dim E) (shape_grad fe_v_s k qs) (F i) else 0)) * mu P
         | CircumferentialFiberModel \<Rightarrow>
             (let e = etheta_at E P fe_v_s qs;
                  etheta_op_etheta = outer_product e e;
                  g = vec_times (dim E) (shape_grad fe_v_s k qs) etheta_op_etheta
              in ((if i = comp_k then dot (dim E) g (F j) else 0)
                  + (if j = comp_k then dot (dim E) g (F i) else 0)) * mu P))"

text \<open>\<^verbatim>\<open>get_Agamma_values\<close>: entry \<open>k\<close> of \<open>local_A_gamma\<close>.\<close>

definition get_Agamma_values ::
  "discretisation \<Rightarrow> IFEMParameters \<Rightarrow> cell_values \<Rightarrow> nat list \<Rightarrow> vec \<Rightarrow> vec" where
  "get_Agamma_values E P fe_v_s dofs xi k =
     (if k < length dofs then
        (\<Sum>qs<nqps E.
           dot (dim E) (get_Pe E P fe_v_s xi qs (component (fe_s E) k)) (shape_grad fe_v_s k qs)
             * JxW fe_v_s qs)
      else 0)"

text \<open>\<^verbatim>\<open>localize\<close>.\<close>

definition localize :: "vec \<Rightarrow> nat list \<Rightarrow> vec" where
  "localize global_values dofs i =
     (if i < length dofs then global_values (dofs ! i) else 0)"

section \<open>Solid cell: coupling with one fluid cell\<close>

text \<open>\<open>PeFT\<close> as the loop over the fluid dofs sees it: assigned from \<open>Pe\<close> and \<open>F\<close> unless
  the scheme is semi-implicit with the spread operator, where it keeps its initial zero.\<close>

definition PeFT_at ::
  "discretisation \<Rightarrow> IFEMParameters \<Rightarrow> cell_values \<Rightarrow> vec \<Rightarrow> nat \<Rightarrow> tensor2" where
  "PeFT_at E P fe_v_s xi qs =
     (if \<not> semi_implicit P \<or> \<not> use_spread P
      then contract11 (dim E) (get_Pe E P fe_v_s xi qs) (deformation_gradient E fe_v_s xi qs)
      else (\<lambda>i j. 0))"

text \<open>Equation in \<open>V'\<close>: the local residual and Jacobian on the pair of the solid cell
  \<open>fe_v_s\<close> and the fluid cell \<open>lc\<close>.  \<open>xi_s\<close> is block 1 of the state, \<open>local_M\<close> the
  localized \<open>M_gamma3_inv_A_gamma\<close>.\<close>

definition coupling_V_local_res ::
  "discretisation \<Rightarrow> IFEMParameters \<Rightarrow> cell_values \<Rightarrow> located \<Rightarrow> vec \<Rightarrow> vec \<Rightarrow> vec" where
  "coupling_V_local_res E P fe_v_s lc xi_s local_M i =
     (let lv = local_fe_f_v lc;
          comp_i = component (fe_f E) i
      in if i < dofs_per_cell (fe_f E) \<and> comp_i < dim E then
           (\<Sum>q<length (fluid_map lc).
              let qs = fluid_map lc ! q
              in if \<not> use_spread P then
                   dot (dim E) (PeFT_at E P fe_v_s xi_s qs comp_i) (shape_grad lv i q)
                     * JxW fe_v_s qs
                 else
                   (\<Sum>j<dofs_per_cell (fe_s E).
                      if comp_i = component (fe_s E) j
                      then Phi_B P * shape_value lv i q * shape_value fe_v_s j qs
                           * local_M j * JxW fe_v_s qs
                      else 0))
         else 0)"

definition coupling_V_local_jacobian ::
  "discretisation \<Rightarrow> IFEMParameters \<Rightarrow> cell_values \<Rightarrow> located \<Rightarrow> vec \<Rightarrow> mat" where
  "coupling_V_local_jacobian E P fe_v_s lc xi_s i wj =
     (let lv = local_fe_f_v lc;
          comp_i = component (fe_f E) i;
          j = wj - dofs_per_cell (fe_f E);
          comp_j = component (fe_s E) j
      in if i < dofs_per_cell (fe_f E) \<and> comp_i < dim E
            \<and> dofs_per_cell (fe_f E) \<le> wj \<and> j < dofs_per_cell (fe_s E) then
           (\<Sum>q<length (fluid_map lc).
              let qs = fluid_map lc ! q
              in dot (dim E) (get_DPeFT_dxi E P fe_v_s xi_s qs j comp_i) (shape_grad lv i q)
                   * JxW fe_v_s qs
                 + (if \<not> semi_implicit P
                    then dot (dim E) (PeFT_at E P fe_v_s xi_s qs comp_i)
                           (shape_hessian lv i q comp_j)
                         * shape_value fe_v_s j qs * JxW fe_v_s qs
                    else 0))
         else 0)"

text \<open>Equation in \<open>Y'\<close>: the terms that involve the fluid velocity.  \<open>xi_f\<close> is block 0 of
  the state.\<close>

definition coupling_Y_local_res ::
  "discretisation \<Rightarrow> IFEMParameters \<Rightarrow> cell_values \<Rightarrow> located \<Rightarrow> vec \<Rightarrow> vec" where
  "coupling_Y_local_res E P fe_v_s lc xi_f wi =
     (let lv = local_fe_f_v lc;
          local_up = get_function_values (fe_f E) lv xi_f;
          i = wi - dofs_per_cell (fe_f E);
          comp_i = component (fe_s E) i
      in if dofs_per_cell (fe_f E) \<le> wi \<and> i < dofs_per_cell (fe_s E) then
           - (\<Sum>q<length (fluid_map lc).
                let qs = fluid_map lc ! q
                in Phi_B P * local_up q comp_i * shape_value fe_v_s i qs * JxW fe_v_s qs)
         else 0)"

definition coupling_Y_local_jacobian ::
  "discretisation \<Rightarrow> IFEMParameters \<Rightarrow> cell_values \<Rightarrow> located \<Rightarrow> vec \<Rightarrow> mat" where
  "coupling_Y_local_jacobian E P fe_v_s lc xi_f wi c =
     (let lv = local_fe_f_v lc;
          dofs_f = get_dof_indices (fe_f E) lv;
          nf = dofs_per_cell (fe_f E);
          i = wi - nf;
          comp_i = component (fe_s E) i
      in if nf \<le> wi \<and> i < dofs_per_cell (fe_s E) then
           (if c < nf then
              (if comp_i = component (fe_f E) c
               then - (\<Sum>q<length (fluid_map lc).
                         let qs = fluid_map lc ! q
                         in Phi_B P * shape_value fe_v_s i qs * shape_value lv c q
                            * JxW fe_v_s qs)
               else 0)
            else if c - nf < dofs_per_cell (fe_s E) \<and> \<not> semi_implicit P then
              - (\<Sum>q<length (fluid_map lc). \<Sum>j<nf.
                   let qs = fluid_map lc ! q;
                       k = c - nf
                   in if comp_i = component (fe_f E) j
                      then Phi_B P * shape_value fe_v_s i qs * shape_value fe_v_s k qs
                           * shape_grad lv j q (component (fe_s E) k)
                           * xi_f (dofs_f ! j) * JxW fe_v_s qs
                      else 0)
            else 0)
         else 0)"

text \<open>The term of the equation in \<open>Y'\<close> with the time derivative \<open>xit_s\<close> of the
  displacement, which involves no fluid cell.\<close>

definition inertia_local_res ::
  "discretisation \<Rightarrow> IFEMParameters \<Rightarrow> cell_values \<Rightarrow> vec \<Rightarrow> vec" where
  "inertia_local_res E P fe_v_s xit_s wi =
     (let local_Wt = get_function_values (fe_s E) fe_v_s xit_s;
          i = wi - dofs_per_cell (fe_f E);
          comp_i = component (fe_s E) i
      in if dofs_per_cell (fe_f E) \<le> wi \<and> i < dofs_per_cell (fe_s E) then
           (\<Sum>qs<nqps E.
              Phi_B P * local_Wt qs comp_i * shape_value fe_v_s i qs * JxW fe_v_s qs)
         else 0)"

definition inertia_local_jacobian ::
  "discretisation \<Rightarrow> IFEMParameters \<Rightarrow> real \<Rightarrow> cell_values \<Rightarrow> mat" where
  "inertia_local_jacobian E P alpha fe_v_s wi wj =
     (let nf = dofs_per_cell (fe_f E);
          i = wi - nf;
          j = wj - nf
      in if nf \<le> wi \<and> i < dofs_per_cell (fe_s E) \<and> nf \<le> wj \<and> j < dofs_per_cell (fe_s E) then
           (\<Sum>qs<nqps E.
              if component (fe_s E) i = component (fe_s E) j
              then Phi_B P * alpha * shape_value fe_v_s i qs * shape_value fe_v_s j qs
                   * JxW fe_v_s qs
              else 0)
         else 0)"

section \<open>Assembly of the global residual and Jacobian\<close>

text \<open>What the assembly loops write: the residual and the two Jacobian members, one of
  which the argument \<open>jacobian\<close> of \<^verbatim>\<open>residual_and_or_Jacobian\<close> refers to.\<close>

record assembly =
  a_residual :: BlockVector
  a_JF :: BlockSparseMatrix
  a_dummy_JF :: BlockSparseMatrix

definition bsm_empty :: "BlockSparseMatrix \<Rightarrow> bool" where
  "bsm_empty A \<longleftrightarrow> bsize0 A = 0 \<and> bsize1 A = 0"

definition bsm_clear :: BlockSparseMatrix where
  "bsm_clear = \<lparr>bsize0 = 0, bsize1 = 0, blk = (\<lambda>_ _ _ _. 0)\<rparr>"

definition bsm_reinit :: "BlockSparsityPattern \<Rightarrow> BlockSparseMatrix" where
  "bsm_reinit sp = \<lparr>bsize0 = sp_size0 sp, bsize1 = sp_size1 sp, blk = (\<lambda>_ _ _ _. 0)\<rparr>"

definition set_block :: "BlockSparseMatrix \<Rightarrow> nat \<Rightarrow> nat \<Rightarrow> mat \<Rightarrow> BlockSparseMatrix" where
  "set_block A r c B = A\<lparr>blk := (blk A)(r := (blk A r)(c := B))\<rparr>"

definition on_JF :: "(BlockSparseMatrix \<Rightarrow> BlockSparseMatrix) \<Rightarrow> assembly \<Rightarrow> assembly" where
  "on_JF f a = a\<lparr>a_JF := f (a_JF a)\<rparr>"

definition on_jacobian ::
  "jacobian_ref \<Rightarrow> (BlockSparseMatrix \<Rightarrow> BlockSparseMatrix) \<Rightarrow> assembly \<Rightarrow> assembly" where
  "on_jacobian r f a =
     (case r of Ref_JF \<Rightarrow> a\<lparr>a_JF := f (a_JF a)\<rparr>
              | Ref_dummy_JF \<Rightarrow> a\<lparr>a_dummy_JF := f (a_dummy_JF a)\<rparr>)"

definition on_residual :: "nat \<Rightarrow> (vec \<Rightarrow> vec) \<Rightarrow> assembly \<Rightarrow> assembly" where
  "on_residual b f a =
     (if b = 0 then a\<lparr>a_residual := (a_residual a)\<lparr>block0 := f (block0 (a_residual a))\<rparr>\<rparr>
      else a\<lparr>a_residual := (a_residual a)\<lparr>block1 := f (block1 (a_residual a))\<rparr>\<rparr>)"

text \<open>\<open>local_jacobian\<close>: sized \<open>n_local_dofs\<close> square when the Jacobian is updated, left
  empty otherwise; \<open>entries\<close> is what the loops accumulate after \<open>set_to_zero\<close>.\<close>

definition n_local_dofs :: "discretisation \<Rightarrow> nat" where
  "n_local_dofs E = dofs_per_cell (fe_f E) + dofs_per_cell (fe_s E)"

definition local_matrix :: "discretisation \<Rightarrow> bool \<Rightarrow> mat \<Rightarrow> FullMatrix" where
  "local_matrix E update_jacobian entries =
     (if update_jacobian
      then \<lparr>fm_m = n_local_dofs E, fm_n = n_local_dofs E, el = entries\<rparr>
      else \<lparr>fm_m = 0, fm_n = 0, el = (\<lambda>_ _. 0)\<rparr>)"

text \<open>The body of the loop over the fluid cells.\<close>

definition fluid_cell ::
  "discretisation \<Rightarrow> IFEMParameters \<Rightarrow> real \<Rightarrow> real \<Rightarrow> nat \<Rightarrow> jacobian_ref \<Rightarrow> bool \<Rightarrow>
   real \<Rightarrow> real \<Rightarrow> BlockVector \<Rightarrow> BlockVector \<Rightarrow> cell_values \<Rightarrow> assembly \<Rightarrow> assembly" where
  "fluid_cell E P scal ar cdof jacobian update_jacobian alpha t xit xi fe_f_v a =
     (let dofs_f = get_dof_indices (fe_f E) fe_f_v;
          (local_res, local_jacobian) =
            apply_constraints P scal cdof
              (fluid_local_res E P t fe_f_v (block0 xit) (block0 xi))
              (local_matrix E update_jacobian (fluid_local_jacobian E P alpha fe_f_v (block0 xi)))
              (block0 xi) dofs_f;
          a = on_residual 0 (\<lambda>r. distribute_residual r local_res dofs_f 0) a;
          a = (if update_jacobian
               then on_JF (\<lambda>A. set_block A 0 0
                          (distribute_jacobian (blk A 0 0) local_jacobian dofs_f dofs_f 0 0)) a
               else a)
      in if all_DBC P \<and> \<not> fix_pressure P then
           (let a = on_residual 0 (\<lambda>r. distribute_constraint_on_pressure_res scal ar cdof r
                                       (local_average_pressure E P fe_f_v (block0 xi))) a
            in if update_jacobian
               then on_jacobian jacobian (\<lambda>A. set_block A 0 0
                      (distribute_constraint_on_pressure_jac scal ar cdof (blk A 0 0)
                         (local_pressure_coefficient E P update_jacobian fe_f_v) dofs_f 0)) a
               else a)
         else a)"

text \<open>The body of the loop over the fluid cells that contain quadrature points of the
  solid cell \<open>fe_v_s\<close>: first the equation in \<open>V'\<close>, then the equation in \<open>Y'\<close>.\<close>

definition coupling_cell ::
  "discretisation \<Rightarrow> IFEMParameters \<Rightarrow> real \<Rightarrow> nat \<Rightarrow> bool \<Rightarrow> BlockVector \<Rightarrow>
   cell_values \<Rightarrow> vec \<Rightarrow> located \<Rightarrow> assembly \<Rightarrow> assembly" where
  "coupling_cell E P scal cdof update_jacobian xi fe_v_s local_M lc a =
     (let nf = dofs_per_cell (fe_f E);
          dofs_f = get_dof_indices (fe_f E) (local_fe_f_v lc);
          dofs_s = get_dof_indices (fe_s E) fe_v_s;
          (local_res, local_jacobian) =
            apply_constraints P scal cdof
              (coupling_V_local_res E P fe_v_s lc (block1 xi) local_M)
              (local_matrix E update_jacobian (coupling_V_local_jacobian E P fe_v_s lc (block1 xi)))
              (block0 xi) dofs_f;
          a = on_residual 0 (\<lambda>r. distribute_residual r local_res dofs_f 0) a;
          a = (if update_jacobian
               then on_JF (\<lambda>A. set_block A 0 1
                          (distribute_jacobian (blk A 0 1) local_jacobian dofs_f dofs_s 0 nf)) a
               else a);
          (local_res, local_jacobian) =
            apply_constraints P scal cdof
              (coupling_Y_local_res E P fe_v_s lc (block0 xi))
              (local_matrix E update_jacobian (coupling_Y_local_jacobian E P fe_v_s lc (block0 xi)))
              (block0 xi) dofs_f;
          a = on_residual 1 (\<lambda>r. distribute_residual r local_res dofs_s nf) a
      in if update_jacobian then
           (let a = on_JF (\<lambda>A. set_block A 1 0
                       (distribute_jacobian (blk A 1 0) local_jacobian dofs_s dofs_f nf 0)) a
            in if \<not> semi_implicit P
               then on_JF (\<lambda>A. set_block A 1 1
                       (distribute_jacobian (blk A 1 1) local_jacobian dofs_s dofs_s nf nf)) a
               else a)
         else a)"

text \<open>The body of the second loop over the solid cells; \<open>m\<close> is the mapping object
  \<^verbatim>\<open>*mapping\<close>, \<open>MA\<close> the vector \<open>M_gamma3_inv_A_gamma\<close>.\<close>

definition solid_cell ::
  "discretisation \<Rightarrow> IFEMParameters \<Rightarrow> real \<Rightarrow> nat \<Rightarrow> bool \<Rightarrow> real \<Rightarrow> BlockVector \<Rightarrow>
   BlockVector \<Rightarrow> MappingQEulerian \<Rightarrow> vec \<Rightarrow> cell_values \<Rightarrow> assembly \<Rightarrow> assembly" where
  "solid_cell E P scal cdof update_jacobian alpha xit xi m MA fe_v_s a =
     (let nf = dofs_per_cell (fe_f E);
          dofs_s = get_dof_indices (fe_s E) fe_v_s;
          local_M = localize MA dofs_s;
          a = fold (coupling_cell E P scal cdof update_jacobian xi fe_v_s local_M)
                (compute_point_locations E m fe_v_s) a;
          local_res = inertia_local_res E P fe_v_s (block1 xit);
          local_jacobian = local_matrix E update_jacobian (inertia_local_jacobian E P alpha fe_v_s);
          a = on_residual 1 (\<lambda>r. distribute_residual r local_res dofs_s nf) a
      in if update_jacobian
         then on_JF (\<lambda>A. set_block A 1 1
                 (distribute_jacobian (blk A 1 1) local_jacobian dofs_s dofs_s nf nf)) a
         else a)"

text \<open>The first loop over the solid cells, which assembles \<open>A_gamma\<close>, and the
  application of the inverse mass matrix.\<close>

definition assemble_A_gamma :: "discretisation \<Rightarrow> IFEMParameters \<Rightarrow> vec \<Rightarrow> vec" where
  "assemble_A_gamma E P xi_s =
     fold (\<lambda>fe_v_s A.
             distribute_residual A
               (get_Agamma_values E P fe_v_s (get_dof_indices (fe_s E) fe_v_s) xi_s)
               (get_dof_indices (fe_s E) fe_v_s) 0)
       (dh_s E) (\<lambda>_. 0)"

definition M_gamma3_inv_solve :: "discretisation \<Rightarrow> vec \<Rightarrow> vec" where
  "M_gamma3_inv_solve E v k = (\<Sum>l<n_dofs_W E. M_gamma3_inv E k l * v l)"

text \<open>\<^verbatim>\<open>assemble_sparsity\<close>: the two off-diagonal blocks of the pattern couple the dofs of
  every solid cell with the dofs of the fluid cells its mapped quadrature points lie in.\<close>

definition assemble_sparsity ::
  "discretisation \<Rightarrow> MappingQEulerian \<Rightarrow> BlockSparsityPattern \<Rightarrow> BlockSparsityPattern" where
  "assemble_sparsity E immersed_mapping sp =
     (let sp1 = set [(df, ds).
                       cell \<leftarrow> dh_s E,
                       lc \<leftarrow> compute_point_locations E immersed_mapping cell,
                       df \<leftarrow> get_dof_indices (fe_f E) (local_fe_f_v lc),
                       ds \<leftarrow> get_dof_indices (fe_s E) cell];
          sp2 = (\<lambda>(df, ds). (ds, df)) ` sp1
      in sp\<lparr>pattern := (\<lambda>r c. if r = 0 \<and> c = 1 then sp1
                              else if r = 1 \<and> c = 0 then sp2
                              else pattern sp r c)\<rparr>)"

text \<open>\<^verbatim>\<open>GridTools::minimal_cell_diameter\<close> over the cells of the fluid mesh (which is
  never empty).\<close>

definition minimal_cell_diameter :: "cell_values list \<Rightarrow> real" where
  "minimal_cell_diameter cells =
     (case cells of [] \<Rightarrow> 0
      | c # cs \<Rightarrow> fold (\<lambda>c' m. min m (diameter c')) cs (diameter c))"

definition deref :: "jacobian_ref \<Rightarrow> ImmersedFEM \<Rightarrow> BlockSparseMatrix" where
  "deref r s = (case r of Ref_JF \<Rightarrow> JF s | Ref_dummy_JF \<Rightarrow> dummy_JF s)"

definition assign_ref :: "jacobian_ref \<Rightarrow> BlockSparseMatrix \<Rightarrow> ImmersedFEM \<Rightarrow> ImmersedFEM" where
  "assign_ref r A s = (case r of Ref_JF \<Rightarrow> s\<lparr>JF := A\<rparr> | Ref_dummy_JF \<Rightarrow> s\<lparr>dummy_JF := A\<rparr>)"

text \<open>\<^verbatim>\<open>if (mapping != NULL) delete mapping;\<close> and \<^verbatim>\<open>mapping = new MappingQEulerian(...)\<close>
  on the store of mapping objects.\<close>

definition delete_mapping :: "ImmersedFEM \<Rightarrow> ImmersedFEM" where
  "delete_mapping s =
     (case mapping s of None \<Rightarrow> s | Some a \<Rightarrow> s\<lparr>heap := (heap s)(a := None)\<rparr>)"

definition new_mapping :: "MappingQEulerian \<Rightarrow> ImmersedFEM \<Rightarrow> ImmersedFEM" where
  "new_mapping m s =
     s\<lparr>mapping := Some (next_addr s),
       heap := (heap s)(next_addr s \<mapsto> m),
       next_addr := Suc (next_addr s)\<rparr>"

definition the_mapping :: "ImmersedFEM \<Rightarrow> MappingQEulerian" where
  "the_mapping s = the (heap s (the (mapping s)))"

definition zero_vector :: BlockVector where
  "zero_vector = \<lparr>block0 = (\<lambda>_. 0), block1 = (\<lambda>_. 0)\<rparr>"

text \<open>\<^verbatim>\<open>residual_and_or_Jacobian(residual, jacobian, xit, xi, alpha, t)\<close>.  The result is the
  residual and the object after the call.  The external force and the boundary values
  are taken at time \<open>t\<close>.\<close>

definition residual_and_or_Jacobian ::
  "discretisation \<Rightarrow> BlockVector \<Rightarrow> jacobian_ref \<Rightarrow> BlockVector \<Rightarrow> BlockVector \<Rightarrow>
   real \<Rightarrow> real \<Rightarrow> ImmersedFEM \<Rightarrow> BlockVector \<times> ImmersedFEM" where
  "residual_and_or_Jacobian E res jacobian xit xi alpha t s =
     (let update_jacobian = \<not> bsm_empty (deref jacobian s);
          s = delete_mapping s;
          s = new_mapping
                \<lparr>map_degree = degree (par s),
                 euler_vector = (if semi_implicit (par s) then block1 (previous_xi s)
                                 else block1 xi)\<rparr> s;
          s = s\<lparr>scaling := minimal_cell_diameter (dh_f E)\<rparr>;
          res = zero_vector;
          s = (if update_jacobian then
                 (let s = assign_ref jacobian bsm_clear s;
                      s = s\<lparr>sparsity := assemble_sparsity E (the_mapping s) (sparsity s)\<rparr>
                  in assign_ref jacobian (bsm_reinit (sparsity s)) s)
               else s);
          s = compute_current_bc E t s;
          a = fold (fluid_cell E (par s) (scaling s) (area s) (constraining_dof s) jacobian
                      update_jacobian alpha t xit xi)
                (dh_f E) \<lparr>a_residual = res, a_JF = JF s, a_dummy_JF = dummy_JF s\<rparr>;
          s = s\<lparr>A_gamma := assemble_A_gamma E (par s) (block1 xi)\<rparr>;
          s = s\<lparr>M_gamma3_inv_A_gamma := M_gamma3_inv_solve E (A_gamma s)\<rparr>;
          a = fold (solid_cell E (par s) (scaling s) (constraining_dof s) update_jacobian alpha
                      xit xi (the_mapping s) (M_gamma3_inv_A_gamma s))
                (dh_s E) a
      in (a_residual a, s\<lparr>JF := a_JF a, dummy_JF := a_dummy_JF a\<rparr>))"

text \<open>\<^verbatim>\<open>get_area_and_first_pressure_dof\<close>, run once by the constructor: the measure of the
  control volume, the set of pressure dofs (one per cell for a discontinuous pressure)
  and its first element.\<close>

definition pressure_dofs_of_cell :: "discretisation \<Rightarrow> cell_values \<Rightarrow> nat list" where
  "pressure_dofs_of_cell E c =
     (let ps = [get_dof_indices (fe_f E) c ! i.
                  i \<leftarrow> [0..<dofs_per_cell (fe_f E)], component (fe_f E) i = dim E]
      in if dgp_for_p E then take 1 ps else ps)"

definition get_area_and_first_pressure_dof :: "discretisation \<Rightarrow> ImmersedFEM \<Rightarrow> ImmersedFEM" where
  "get_area_and_first_pressure_dof E s =
     (let pressure_dofs = concat (map (pressure_dofs_of_cell E) (dh_f E))
      in s\<lparr>area := fold (\<lambda>c a. a + (\<Sum>q<nqpf E. JxW c q)) (dh_f E) 0,
            constraining_dof := (case pressure_dofs of [] \<Rightarrow> 0 | p # ps \<Rightarrow> fold min ps p)\<rparr>)"

section \<open>Newton iteration and time stepping\<close>

datatype error = ExcMessage string

text \<open>The locals of \<^verbatim>\<open>run\<close> that live across iterations of the nonlinear solver; the
  counters are \<^verbatim>\<open>unsigned int\<close>.\<close>

record newton_vars =
  nonlin_iter :: "32 word"
  outer_nonlin_iter :: "32 word"
  update_Jacobian :: bool

datatype outcome =
  Break newton_vars ImmersedFEM
  | Next newton_vars ImmersedFEM
  | Throw error

definition bv_minus :: "BlockVector \<Rightarrow> BlockVector \<Rightarrow> BlockVector" where
  "bv_minus x y = \<lparr>block0 = (\<lambda>k. block0 x k - block0 y k), block1 = (\<lambda>k. block1 x k - block1 y k)\<rparr>"

definition bv_plus :: "BlockVector \<Rightarrow> BlockVector \<Rightarrow> BlockVector" where
  "bv_plus x y = \<lparr>block0 = (\<lambda>k. block0 x k + block0 y k), block1 = (\<lambda>k. block1 x k + block1 y k)\<rparr>"

definition bv_scale :: "real \<Rightarrow> BlockVector \<Rightarrow> BlockVector" where
  "bv_scale c x = \<lparr>block0 = (\<lambda>k. c * block0 x k), block1 = (\<lambda>k. c * block1 x k)\<rparr>"

definition bv_divide :: "BlockVector \<Rightarrow> real \<Rightarrow> BlockVector" where
  "bv_divide x c = \<lparr>block0 = (\<lambda>k. block0 x k / c), block1 = (\<lambda>k. block1 x k / c)\<rparr>"

definition l2_norm :: "discretisation \<Rightarrow> BlockVector \<Rightarrow> real" where
  "l2_norm E x =
     sqrt ((\<Sum>k<n_dofs_up E. block0 x k * block0 x k) + (\<Sum>k<n_dofs_W E. block1 x k * block1 x k))"

text \<open>The first part of the body of \<^verbatim>\<open>while (true)\<close>: the time derivative and the
  evaluation of the residual, with or without the Jacobian.\<close>

definition evaluate :: "discretisation \<Rightarrow> real \<Rightarrow> newton_vars \<Rightarrow> ImmersedFEM \<Rightarrow> newton_vars \<times> ImmersedFEM" where
  "evaluate E t v s =
     (let s = s\<lparr>current_xit := bv_divide (bv_minus (current_xi s) (previous_xi s)) (dt (par s))\<rparr>
      in if update_Jacobian v = True then
           (let (r, s) = residual_and_or_Jacobian E (current_res s) Ref_JF
                           (current_xit s) (current_xi s) (1 / dt (par s)) t s;
                s = s\<lparr>current_res := r\<rparr>;
                s = s\<lparr>JF_inv := JF s\<rparr>
            in (v\<lparr>update_Jacobian := update_jacobian_continuously (par s)\<rparr>, s))
         else
           (let (r, s) = residual_and_or_Jacobian E (current_res s) Ref_dummy_JF
                           (current_xit s) (current_xi s) 0 t s
            in (v, s\<lparr>current_res := r\<rparr>)))"

text \<open>The update of the solution when the residual is not small enough.\<close>

definition update_solution :: "discretisation \<Rightarrow> real \<Rightarrow> newton_vars \<Rightarrow> ImmersedFEM \<Rightarrow> newton_vars \<times> ImmersedFEM" where
  "update_solution E res_norm v s =
     (let s = s\<lparr>current_res := bv_scale (- 1) (current_res s)\<rparr>;
          s = s\<lparr>newton_update := umfpack_solve E (JF_inv s) (current_res s)\<rparr>;
          s = s\<lparr>current_xi := bv_plus (current_xi s) (newton_update s)\<rparr>
      in (if res_norm > 1 / 10 ^ 2 then v\<lparr>update_Jacobian := True\<rparr> else v, s))"

text \<open>The count of the iterations at the end of the body, and the \<^verbatim>\<open>AssertThrow\<close>.\<close>

definition count_iteration :: "newton_vars \<Rightarrow> newton_vars" where
  "count_iteration v =
     (let v = v\<lparr>nonlin_iter := nonlin_iter v + 1\<rparr>
      in if nonlin_iter v = 15
         then v\<lparr>update_Jacobian := True, nonlin_iter := 0,
                outer_nonlin_iter := outer_nonlin_iter v + 1\<rparr>
         else v)"

definition newton_iteration :: "discretisation \<Rightarrow> real \<Rightarrow> newton_vars \<Rightarrow> ImmersedFEM \<Rightarrow> outcome" where
  "newton_iteration E t v s =
     (let (v, s) = evaluate E t v s;
          res_norm = l2_norm E (current_res s)
      in if res_norm < 1 / 10 ^ 10 then Break v s
         else
           (let (v, s) = update_solution E res_norm v s;
                v = count_iteration v
            in if outer_nonlin_iter v \<le> 3 then Next v s
               else Throw (ExcMessage ''No convergence in nonlinear solver.'')))"

text \<open>How far the counters are from the \<^verbatim>\<open>AssertThrow\<close>.\<close>

definition remaining :: "newton_vars \<Rightarrow> nat" where
  "remaining v =
     (if outer_nonlin_iter v \<le> 3 then 4 - unat (outer_nonlin_iter v) else 5) * 2 ^ 32
     + unat (14 - nonlin_iter v)"

function newton_loop :: "discretisation \<Rightarrow> real \<Rightarrow> newton_vars \<Rightarrow> ImmersedFEM \<Rightarrow> error + newton_vars \<times> ImmersedFEM" where
  "newton_loop E t v s =
     (case newton_iteration E t v s of
        Break v' s' \<Rightarrow> Inr (v', s')
      | Throw e \<Rightarrow> Inl e
      | Next v' s' \<Rightarrow> newton_loop E t v' s')"
  by pat_completeness auto

text \<open>The loop ends: each pass that does not leave it brings the counters closer to the
  \<^verbatim>\<open>AssertThrow\<close>.\<close>

lemma word_succ_le3: "(x :: 32 word) \<le> 3 \<Longrightarrow> unat (x + 1) = unat x + 1 \<and> unat x \<le> 3"
proof -
  assume "x \<le> 3"
  then have le: "unat x \<le> 3" by (simp add: word_le_nat_alt)
  then have "unat x + unat (1 :: 32 word) < 2 ^ LENGTH(32)" by simp
  then have "unat (x + 1) = unat x + unat (1 :: 32 word)" by (simp only: unat_add_lem)
  with le show ?thesis by simp
qed

lemma word_towards_14: "(x :: 32 word) + 1 \<noteq> 15 \<Longrightarrow> unat (14 - (x + 1)) < unat (14 - x)"
proof -
  assume a: "x + 1 \<noteq> 15"
  have "x \<noteq> 14"
  proof
    assume "x = 14"
    then have "x + 1 = 15" by simp
    with a show False by simp
  qed
  then have nz: "14 - x \<noteq> 0" by simp
  have "unat (14 - x - 1) = unat (14 - x) - 1" using nz by (rule unat_minus_one)
  moreover have "0 < unat (14 - x)" using nz unat_gt_0 by blast
  moreover have "14 - (x + 1) = 14 - x - 1" by simp
  ultimately show ?thesis by (simp only:)
qed

lemma count_iteration_remaining:
  "outer_nonlin_iter (count_iteration v) \<le> 3 \<Longrightarrow> remaining (count_iteration v) < remaining v"
proof (cases "nonlin_iter v + 1 = 15")
  case True
  assume le: "outer_nonlin_iter (count_iteration v) \<le> 3"
  from True have ci: "count_iteration v = v\<lparr>update_Jacobian := True, nonlin_iter := 0,
                outer_nonlin_iter := outer_nonlin_iter v + 1\<rparr>"
    by (simp add: count_iteration_def Let_def)
  have u: "unat (14 - nonlin_iter v) < 2 ^ 32" 
    using unsigned_less[of "14 - nonlin_iter v", where 'a=nat] by simp
  have u14: "unat (14 - 0 :: 32 word) = 14" by simp
  from le ci have le': "outer_nonlin_iter v + 1 \<le> 3" by simp
  then have le3: "unat (outer_nonlin_iter v + 1) \<le> 3" by (simp add: word_le_nat_alt)
  show ?thesis
  proof (cases "outer_nonlin_iter v \<le> 3")
    case True
    from word_succ_le3[OF True] le3 show ?thesis using True le' u u14 by (simp add: remaining_def ci)
  next
    case False
    then show ?thesis using le' le3 u u14 by (simp add: remaining_def ci) 
  qed
next
  case False
  assume le: "outer_nonlin_iter (count_iteration v) \<le> 3"
  from False have ci: "count_iteration v = v\<lparr>nonlin_iter := nonlin_iter v + 1\<rparr>"
    by (simp add: count_iteration_def Let_def)
  from word_towards_14[OF False] show ?thesis using le by (simp add: remaining_def ci)
qed

lemma remaining_cong:
  "nonlin_iter v = nonlin_iter w \<Longrightarrow> outer_nonlin_iter v = outer_nonlin_iter w \<Longrightarrow>
   remaining v = remaining w"
  by (simp add: remaining_def)

lemma count_iteration_cong:
  "nonlin_iter v = nonlin_iter w \<Longrightarrow> outer_nonlin_iter v = outer_nonlin_iter w \<Longrightarrow>
   nonlin_iter (count_iteration v) = nonlin_iter (count_iteration w) \<and>
   outer_nonlin_iter (count_iteration v) = outer_nonlin_iter (count_iteration w)"
  by (simp add: count_iteration_def Let_def)

lemma evaluate_counters:
  "nonlin_iter (fst (evaluate E t v s)) = nonlin_iter v \<and>
   outer_nonlin_iter (fst (evaluate E t v s)) = outer_nonlin_iter v"
  by (simp add: evaluate_def Let_def split: prod.splits)

lemma update_solution_counters:
  "nonlin_iter (fst (update_solution E r v s)) = nonlin_iter v \<and>
   outer_nonlin_iter (fst (update_solution E r v s)) = outer_nonlin_iter v"
  by (simp add: update_solution_def Let_def)

lemma newton_iteration_Next:
  assumes "newton_iteration E t v s = Next v' s'"
  shows "remaining v' < remaining v"
proof -
  obtain v1 s1 where e: "evaluate E t v s = (v1, s1)" by (cases "evaluate E t v s")
  obtain v2 s2 where u: "update_solution E (l2_norm E (current_res s1)) v1 s1 = (v2, s2)"
    by (cases "update_solution E (l2_norm E (current_res s1)) v1 s1")
  from assms e u have v': "v' = count_iteration v2" and le: "outer_nonlin_iter (count_iteration v2) \<le> 3"
    by (auto simp: newton_iteration_def Let_def split: if_splits)
  have c: "nonlin_iter v2 = nonlin_iter v" "outer_nonlin_iter v2 = outer_nonlin_iter v"
    using evaluate_counters[of E t v s] update_solution_counters[of E "l2_norm E (current_res s1)" v1 s1] e u
    by simp_all
  have "remaining (count_iteration v2) < remaining v2" using le by (rule count_iteration_remaining)
  also have "remaining v2 = remaining v" using c by (rule remaining_cong)
  finally show ?thesis using v' by simp
qed

termination newton_loop
  by (relation "measure (\<lambda>(E, t, v, s). remaining v)") (auto dest: newton_iteration_Next)

declare newton_loop.simps [simp del]


text \<open>One time step of \<^verbatim>\<open>run\<close>: the boundary values of time \<open>t\<close> are imposed on the
  state, the nonlinear solver runs, and the state is accepted.  \<^verbatim>\<open>output_step\<close> only
  writes files.  The result is the value of \<open>update_Jacobian\<close> for the next step and the
  object, or the exception.\<close>

definition time_step_body ::
  "discretisation \<Rightarrow> real \<Rightarrow> bool \<Rightarrow> ImmersedFEM \<Rightarrow> error + bool \<times> ImmersedFEM" where
  "time_step_body E t upd s =
     (let (xi, s) = apply_current_bc E (current_xi s) t s;
          s = s\<lparr>current_xi := xi\<rparr>
      in case newton_loop E t
                \<lparr>nonlin_iter = 0, outer_nonlin_iter = 0, update_Jacobian = upd\<rparr> s of
           Inl e \<Rightarrow> Inl e
         | Inr (v, s) \<Rightarrow>
             (let s = s\<lparr>previous_xi := current_xi s\<rparr>;
                  upd = update_jacobian_continuously (par s)
              in Inr (if update_jacobian_at_step_beginning (par s) then True else upd, s)))"

text \<open>The loop over time.  It need not end (a step size that is not positive), so not
  returning is the value \<open>None\<close>.\<close>

partial_function (option) time_loop ::
  "discretisation \<Rightarrow> real \<Rightarrow> 32 word \<Rightarrow> bool \<Rightarrow> ImmersedFEM \<Rightarrow> (error + ImmersedFEM) option" where
  "time_loop E t time_step upd s =
     (if t \<le> T_final (par s) then
        (case time_step_body E t upd s of
           Inl e \<Rightarrow> Some (Inl e)
         | Inr r \<Rightarrow> time_loop E (t + dt (par (snd r))) (time_step + 1) (fst r) (snd r))
      else Some (Inr s))"

definition run :: "discretisation \<Rightarrow> ImmersedFEM \<Rightarrow> (error + ImmersedFEM) option" where
  "run E s =
     (let s = s\<lparr>current_xi := previous_xi s\<rparr>
      in time_loop E (dt (par s)) 1 True s)"

section \<open>The constraint pass in closed form\<close>

text \<open>Entry \<open>i\<close> of the local residual and entry \<open>(i, j)\<close> of the local Jacobian as
  \<^verbatim>\<open>apply_constraints\<close> leaves them, for a local dof \<open>i\<close> of the cell.\<close>

definition constrained_res ::
  "IFEMParameters \<Rightarrow> real \<Rightarrow> nat \<Rightarrow> vec \<Rightarrow> vec \<Rightarrow> nat list \<Rightarrow> vec" where
  "constrained_res P scal cdof lres w dofs i =
     (if all_DBC P \<and> \<not> fix_pressure P \<and> dofs ! i = cdof then 0
      else case map_of (boundary_values P) (dofs ! i) of
             None \<Rightarrow> lres i
           | Some v \<Rightarrow> scal * (w (dofs ! i) - v))"

definition constrained_jac ::
  "IFEMParameters \<Rightarrow> real \<Rightarrow> nat \<Rightarrow> mat \<Rightarrow> nat list \<Rightarrow> mat" where
  "constrained_jac P scal cdof J dofs i j =
     (if all_DBC P \<and> \<not> fix_pressure P \<and> dofs ! i = cdof then 0
      else case map_of (boundary_values P) (dofs ! i) of
             None \<Rightarrow> J i j
           | Some v \<Rightarrow> if j = i then scal else 0)"

section \<open>Auxiliary notions for the evaluation\<close>


text \<open>The two halves of \<^verbatim>\<open>residual_and_or_Jacobian\<close>, named for the proofs: everything up
  to \<^verbatim>\<open>compute_current_bc\<close>, and the loops over the cells.\<close>

definition prepare ::
  "discretisation \<Rightarrow> jacobian_ref \<Rightarrow> BlockVector \<Rightarrow> real \<Rightarrow> ImmersedFEM \<Rightarrow> ImmersedFEM" where
  "prepare E jacobian xi t s =
     (let update_jacobian = \<not> bsm_empty (deref jacobian s);
          s = delete_mapping s;
          s = new_mapping
                \<lparr>map_degree = degree (par s),
                 euler_vector = (if semi_implicit (par s) then block1 (previous_xi s)
                                 else block1 xi)\<rparr> s;
          s = s\<lparr>scaling := minimal_cell_diameter (dh_f E)\<rparr>;
          s = (if update_jacobian then
                 (let s = assign_ref jacobian bsm_clear s;
                      s = s\<lparr>sparsity := assemble_sparsity E (the_mapping s) (sparsity s)\<rparr>
                  in assign_ref jacobian (bsm_reinit (sparsity s)) s)
               else s)
      in compute_current_bc E t s)"

definition loops ::
  "discretisation \<Rightarrow> IFEMParameters \<Rightarrow> real \<Rightarrow> real \<Rightarrow> nat \<Rightarrow> jacobian_ref \<Rightarrow> bool \<Rightarrow>
   real \<Rightarrow> real \<Rightarrow> BlockVector \<Rightarrow> BlockVector \<Rightarrow> MappingQEulerian \<Rightarrow> assembly \<Rightarrow> assembly" where
  "loops E P scal ar cdof jacobian update_jacobian alpha t xit xi m a =
     fold (solid_cell E P scal cdof update_jacobian alpha xit xi m
             (M_gamma3_inv_solve E (assemble_A_gamma E P (block1 xi))))
       (dh_s E)
       (fold (fluid_cell E P scal ar cdof jacobian update_jacobian alpha t xit xi) (dh_f E) a)"

text \<open>The map of boundary values is a well-formed \<^verbatim>\<open>std::map\<close>: its keys increase
  strictly.  \<open>assign_all\<close> is a sequence of assignments to it.\<close>

definition sorted_keys :: "(nat \<times> real) list \<Rightarrow> bool" where
  "sorted_keys xs \<longleftrightarrow> sorted_wrt (<) (map fst xs)"

definition assign_all :: "(nat \<times> real) list \<Rightarrow> (nat \<times> real) list \<Rightarrow> (nat \<times> real) list" where
  "assign_all as xs = fold (\<lambda>(k, v). map_assign k v) as xs"

text \<open>The sizes of the two Jacobian members, the members themselves, and the mapping object
  that an evaluation constructs.\<close>

definition sizes :: "assembly \<Rightarrow> (nat \<times> nat) \<times> (nat \<times> nat)" where
  "sizes a = ((bsize0 (a_JF a), bsize1 (a_JF a)), (bsize0 (a_dummy_JF a), bsize1 (a_dummy_JF a)))"

definition matrices :: "assembly \<Rightarrow> BlockSparseMatrix \<times> BlockSparseMatrix" where
  "matrices a = (a_JF a, a_dummy_JF a)"

definition new_object :: "BlockVector \<Rightarrow> ImmersedFEM \<Rightarrow> MappingQEulerian" where
  "new_object xi s =
     \<lparr>map_degree = degree (par s),
      euler_vector = (if semi_implicit (par s) then block1 (previous_xi s) else block1 xi)\<rparr>"

text \<open>The velocity degrees of freedom of the fluid cells that contain quadrature points of
  the solid under the mapping \<open>m\<close>: the rows to which the coupling term of the velocity equation
  is scattered.\<close>

definition coupled_velocity_dofs :: "discretisation \<Rightarrow> MappingQEulerian \<Rightarrow> nat set" where
  "coupled_velocity_dofs E m =
     {get_dof_indices (fe_f E) (local_fe_f_v lc) ! i | cell lc i.
        cell \<in> set (dh_s E) \<and> lc \<in> set (compute_point_locations E m cell) \<and>
        i < dofs_per_cell (fe_f E) \<and> component (fe_f E) i < dim E}"

text \<open>An accumulator of the assembly whose residual vanishes in the second block and, in the
  first block, outside the rows \<open>K\<close> and (when \<open>live\<close>) the rows \<open>C\<close>.\<close>

definition quiet :: "nat set \<Rightarrow> bool \<Rightarrow> nat set \<Rightarrow> assembly \<Rightarrow> bool" where
  "quiet K live C a \<longleftrightarrow>
     (\<forall>k. block1 (a_residual a) k = 0) \<and>
     (\<forall>k. block0 (a_residual a) k \<noteq> 0 \<longrightarrow> k \<in> K \<or> (live \<and> k \<in> C))"


section \<open>Auxiliary notions for the nonlinear solver\<close>

text \<open>The outcome of \<open>k\<close> passes through the body of \<^verbatim>\<open>while (true)\<close>, unless one of them
  leaves the loop before: \<open>Next\<close> when all \<open>k\<close> passes went on to the following one.\<close>

fun newton_iterations ::
  "nat \<Rightarrow> discretisation \<Rightarrow> real \<Rightarrow> newton_vars \<Rightarrow> ImmersedFEM \<Rightarrow> outcome" where
  "newton_iterations 0 E t v s = Next v s"
| "newton_iterations (Suc k) E t v s =
     (case newton_iteration E t v s of
        Next v' s' \<Rightarrow> newton_iterations k E t v' s'
      | Break v' s' \<Rightarrow> Break v' s'
      | Throw e \<Rightarrow> Throw e)"

text \<open>The state on which the nonlinear solver of a time step starts: \<^verbatim>\<open>run\<close> has imposed
  the boundary values of time \<open>t\<close> on \<open>current_xi\<close>.\<close>

definition impose_bc :: "discretisation \<Rightarrow> real \<Rightarrow> ImmersedFEM \<Rightarrow> ImmersedFEM" where
  "impose_bc E t s = (let (xi, s) = apply_current_bc E (current_xi s) t s in s\<lparr>current_xi := xi\<rparr>)"




section \<open>The constitutive laws in the words of the specification\<close>

text \<open>\<open>G\<close> is the inverse transpose of \<open>F\<close>: \<open>F * G\<^sup>T = 1\<close> and \<open>G\<^sup>T * F = 1\<close>.\<close>

definition is_inverse_transpose :: "nat \<Rightarrow> tensor2 \<Rightarrow> tensor2 \<Rightarrow> bool" where
  "is_inverse_transpose n F G \<longleftrightarrow>
     (\<forall>i<n. \<forall>j<n. (\<Sum>k<n. F i k * G j k) = (if i = j then 1 else 0) \<and>
                     (\<Sum>k<n. G k i * F k j) = (if i = j then 1 else 0))"

text \<open>Law A, Law B and Law C: \<open>Pe = mu (F - F\<^sup>-\<^sup>T)\<close>, \<open>Pe = mu F\<close>,
  \<open>Pe = mu F (e \<otimes> e)\<close>.\<close>

definition spec_Pe ::
  "material_model \<Rightarrow> real \<Rightarrow> nat \<Rightarrow> tensor2 \<Rightarrow> tensor2 \<Rightarrow> tensor1 \<Rightarrow> tensor2" where
  "spec_Pe law m n F G e i j =
     (case law of
        INH_0 \<Rightarrow> m * (F i j - G i j)
      | INH_1 \<Rightarrow> m * F i j
      | CircumferentialFiberModel \<Rightarrow> m * (\<Sum>k<n. F i k * (e k * e j)))"

section \<open>A small configuration\<close>

text \<open>Two dimensions, one fluid cell with two velocity dofs and one pressure dof, one
  solid cell with two displacement dofs whose single quadrature point lies in the fluid
  cell, one quadrature point on each cell.  The theorems below are applied to it.\<close>

definition ex_par :: IFEMParameters where
  "ex_par = \<lparr>rho = 1, eta = 1, mu = 1, Phi_B = 1, dt = 1, T_final = 1, degree = 1,
     material_model = INH_1, semi_implicit = False, use_spread = False,
     all_DBC = False, fix_pressure = False,
     update_jacobian_continuously = False, update_jacobian_at_step_beginning = False,
     ring_center = (\<lambda>_. 0), force = (\<lambda>_ _ _. 0), boundary_values = []\<rparr>"

definition ex_fe_f :: FiniteElement where
  "ex_fe_f = \<lparr>dofs_per_cell = 3, component = (\<lambda>i. i), base_index = (\<lambda>_. 0)\<rparr>"

definition ex_fe_s :: FiniteElement where
  "ex_fe_s = \<lparr>dofs_per_cell = 2, component = (\<lambda>i. i), base_index = (\<lambda>_. 0)\<rparr>"

definition ex_fluid_cell :: cell_values where
  "ex_fluid_cell = \<lparr>dof_indices = [0, 1, 2], shape_value = (\<lambda>_ _. 1),
     shape_grad = (\<lambda>_ _ _. 1), shape_hessian = (\<lambda>_ _ _ _. 0), JxW = (\<lambda>_. 1),
     quadrature_point = (\<lambda>_ _. 0), diameter = 1\<rparr>"

definition ex_solid_cell :: cell_values where
  "ex_solid_cell = \<lparr>dof_indices = [0, 1], shape_value = (\<lambda>_ _. 1),
     shape_grad = (\<lambda>_ _ _. 1), shape_hessian = (\<lambda>_ _ _ _. 0), JxW = (\<lambda>_. 1),
     quadrature_point = (\<lambda>_ d. if d = 0 then 1 else 0), diameter = 1\<rparr>"

definition ex_E :: discretisation where
  "ex_E = \<lparr>dim = 2, fe_f = ex_fe_f, fe_s = ex_fe_s,
     dh_f = [ex_fluid_cell], dh_s = [ex_solid_cell], nqpf = 1, nqps = 1,
     n_dofs_up = 3, n_dofs_W = 2, dgp_for_p = False,
     compute_point_locations = (\<lambda>_ _. [\<lparr>local_fe_f_v = ex_fluid_cell, fluid_map = [0]\<rparr>]),
     interpolate_boundary_values = (\<lambda>t. [(0, t)]),
     M_gamma3_inv = (\<lambda>k l. if k = l then 1 else 0),
     umfpack_solve = (\<lambda>_ b. b)\<rparr>"

definition ex_sparsity :: BlockSparsityPattern where
  "ex_sparsity = \<lparr>sp_size0 = 3, sp_size1 = 2, pattern = (\<lambda>_ _. {})\<rparr>"

definition ex_state :: ImmersedFEM where
  "ex_state = \<lparr>par = ex_par, mapping = None, heap = (\<lambda>_. None), next_addr = 0,
     scaling = 0, area = 1, constraining_dof = 2, sparsity = ex_sparsity,
     JF = bsm_reinit ex_sparsity, dummy_JF = bsm_clear, JF_inv = bsm_clear,
     A_gamma = (\<lambda>_. 0), M_gamma3_inv_A_gamma = (\<lambda>_. 0),
     current_xi = zero_vector, previous_xi = zero_vector, current_xit = zero_vector,
     current_res = zero_vector, newton_update = zero_vector\<rparr>"

text \<open>The same configuration with a direct solver that returns no update, and a unit
  matrix of the size of the system.\<close>

definition ex_stalled :: discretisation where
  "ex_stalled = ex_E\<lparr>umfpack_solve := (\<lambda>_ _. zero_vector)\<rparr>"


section \<open>Frame of the boundary-condition pass\<close>

lemma assign_entries_other: "k \<notin> fst ` set es \<Longrightarrow> assign_entries es v k = v k"
  by (induction es arbitrary: v) auto

lemma map_of_map_assign: "map_of (map_assign k v xs) = (map_of xs)(k \<mapsto> v)"
  by (induction xs) (auto simp: fun_eq_iff)

text \<open>
  C10.  \<^verbatim>\<open>apply_current_bc(vec, t)\<close> changes only entries of block 0 whose index is a key
  of the boundary-value map as \<^verbatim>\<open>compute_current_bc(t)\<close> leaves it; with \<open>fix_pressure\<close>
  that map holds the constraining dof, prescribed to zero.  Every other entry of block 0
  and the whole of block 1 are unchanged.
\<close>

theorem apply_current_bc_frame:
  "apply_current_bc E vec t s = (vec', s') \<Longrightarrow>
     block1 vec' = block1 vec \<and>
     (\<forall>k. k \<notin> fst ` set (boundary_values (par s')) \<longrightarrow> block0 vec' k = block0 vec k) \<and>
     (fix_pressure (par s) \<longrightarrow>
        map_of (boundary_values (par s')) (constraining_dof s) = Some 0)"
  by (auto simp: apply_current_bc_def compute_current_bc_def Let_def
        assign_entries_other map_of_map_assign)

lemmas ex_defs = ex_par_def ex_fe_f_def ex_fe_s_def ex_fluid_cell_def ex_solid_cell_def ex_E_def
  ex_sparsity_def ex_state_def zero_vector_def bsm_clear_def bsm_reinit_def

theorem apply_current_bc_frame_witness:
  "fix_pressure (par (ex_state\<lparr>par := ex_par\<lparr>fix_pressure := True\<rparr>\<rparr>)) \<and>
   1 \<notin> fst ` set (boundary_values (par (snd (apply_current_bc ex_E zero_vector 5
          (ex_state\<lparr>par := ex_par\<lparr>fix_pressure := True\<rparr>\<rparr>))))) \<and>
   block0 (fst (apply_current_bc ex_E zero_vector 5
          (ex_state\<lparr>par := ex_par\<lparr>fix_pressure := True\<rparr>\<rparr>))) 1 = block0 zero_vector 1 \<and>
   block0 (fst (apply_current_bc ex_E zero_vector 5
          (ex_state\<lparr>par := ex_par\<lparr>fix_pressure := True\<rparr>\<rparr>))) 0 = 5"
  using apply_current_bc_frame[of ex_E zero_vector 5 "ex_state\<lparr>par := ex_par\<lparr>fix_pressure := True\<rparr>\<rparr>"
     "fst (apply_current_bc ex_E zero_vector 5 (ex_state\<lparr>par := ex_par\<lparr>fix_pressure := True\<rparr>\<rparr>))"
     "snd (apply_current_bc ex_E zero_vector 5 (ex_state\<lparr>par := ex_par\<lparr>fix_pressure := True\<rparr>\<rparr>))"]
  by (simp add: apply_current_bc_def compute_current_bc_def ex_defs)

section \<open>The constraint pass\<close>

lemma constrain_dof_dims:
  "fm_n (snd (constrain_dof P scal cdof w dofs j lr)) = fm_n (snd lr) \<and>
   fm_m (snd (constrain_dof P scal cdof w dofs j lr)) = fm_m (snd lr)"
  by (cases lr) (simp add: constrain_dof_def Let_def fm_set_def fm_zero_row_def add_row_def
       split: option.splits)

lemma constrain_dof_other:
  "j \<noteq> i \<Longrightarrow>
     fst (constrain_dof P scal cdof w dofs j lr) i = fst lr i \<and>
     el (snd (constrain_dof P scal cdof w dofs j lr)) i = el (snd lr) i"
  by (cases lr) (simp add: constrain_dof_def Let_def fm_set_def fm_zero_row_def add_row_def
       split: option.splits)

lemma fold_constrain_dof_dims:
  "fm_n (snd (fold (constrain_dof P scal cdof w dofs) js lr)) = fm_n (snd lr) \<and>
   fm_m (snd (fold (constrain_dof P scal cdof w dofs) js lr)) = fm_m (snd lr)"
  by (induction js arbitrary: lr) (simp_all add: constrain_dof_dims)

lemma fold_constrain_dof_other:
  "i \<notin> set js \<Longrightarrow>
     fst (fold (constrain_dof P scal cdof w dofs) js lr) i = fst lr i \<and>
     el (snd (fold (constrain_dof P scal cdof w dofs) js lr)) i = el (snd lr) i"
  by (induction js arbitrary: lr) (simp_all add: constrain_dof_other)

lemma apply_constraints_split:
  "i < length dofs \<Longrightarrow>
   apply_constraints P scal cdof lres J w dofs =
     fold (constrain_dof P scal cdof w dofs) [Suc i..<length dofs]
       (constrain_dof P scal cdof w dofs i
          (fold (constrain_dof P scal cdof w dofs) [0..<i] (lres, J)))"
proof -
  assume "i < length dofs"
  then have "[0..<length dofs] = [0..<i] @ i # [Suc i..<length dofs]"
    using upt_add_eq_append[of 0 i "length dofs - i"] by (simp add: upt_conv_Cons)
  then show ?thesis by (simp add: apply_constraints_def)
qed

text \<open>Only pass \<open>i\<close> of the loop writes entry \<open>i\<close> of the local residual and row \<open>i\<close> of
  the local Jacobian.\<close>

lemma apply_constraints_at:
  assumes "i < length dofs"
  shows "fst (apply_constraints P scal cdof lres J w dofs) i =
           fst (constrain_dof P scal cdof w dofs i
                  (fold (constrain_dof P scal cdof w dofs) [0..<i] (lres, J))) i"
    and "el (snd (apply_constraints P scal cdof lres J w dofs)) i =
           el (snd (constrain_dof P scal cdof w dofs i
                  (fold (constrain_dof P scal cdof w dofs) [0..<i] (lres, J)))) i"
  using assms by (simp_all add: apply_constraints_split fold_constrain_dof_other)

lemma apply_constraints_dims:
  "fm_n (snd (apply_constraints P scal cdof lres J w dofs)) = fm_n J \<and>
   fm_m (snd (apply_constraints P scal cdof lres J w dofs)) = fm_m J"
  by (simp add: apply_constraints_def fold_constrain_dof_dims)

lemma minimal_cell_diameter_fold:
  "fold (\<lambda>c' m. min m (diameter c')) cs d \<le> d \<and>
   (\<forall>c \<in> set cs. fold (\<lambda>c' m. min m (diameter c')) cs d \<le> diameter c) \<and>
   (fold (\<lambda>c' m. min m (diameter c')) cs d = d \<or>
    fold (\<lambda>c' m. min m (diameter c')) cs d \<in> diameter ` set cs)"
proof (induction cs arbitrary: d)
  case Nil
  show ?case by simp
next
  case (Cons c cs)
  from Cons.IH[of "min d (diameter c)"] show ?case
    by (auto simp: min_def split: if_splits)
qed

lemma minimal_cell_diameter_least:
  "cells \<noteq> [] \<Longrightarrow>
     (\<forall>c \<in> set cells. minimal_cell_diameter cells \<le> diameter c) \<and>
     minimal_cell_diameter cells \<in> diameter ` set cells"
  using minimal_cell_diameter_fold[of "tl cells" "diameter (hd cells)"]
  by (cases cells) (auto simp: minimal_cell_diameter_def)

lemma residual_and_or_Jacobian_scaling:
  "scaling (snd (residual_and_or_Jacobian E res jacobian xit xi alpha t s)) =
     minimal_cell_diameter (dh_f E)"
  by (cases jacobian)
     (simp_all add: residual_and_or_Jacobian_def Let_def compute_current_bc_def assign_ref_def
        new_mapping_def delete_mapping_def split: option.splits)

text \<open>
  C4, as the code has it.  For a local dof \<open>i\<close> whose global index is a key of the
  boundary-value map, and which is not the pressure-pinning dof under \<open>all_DBC\<close> without
  \<open>fix_pressure\<close>, the constraint pass leaves \<open>scale * (current value - prescribed value)\<close>
  in entry \<open>i\<close> of the local residual and, when the local Jacobian is not empty, zero in
  row \<open>i\<close> except \<open>scale\<close> on the diagonal.  The scale that an evaluation stores and
  passes to the pass is the least diameter of the cells of the fluid mesh.
\<close>

theorem apply_constraints_prescribed:
  assumes "i < length dofs"
    and "map_of (boundary_values P) (dofs ! i) = Some v"
    and "\<not> (all_DBC P \<and> \<not> fix_pressure P \<and> dofs ! i = cdof)"
  shows "fst (apply_constraints P scal cdof lres J w dofs) i = scal * (w (dofs ! i) - v) \<and>
         (\<not> fm_empty J \<longrightarrow>
            (\<forall>j < fm_n J. el (snd (apply_constraints P scal cdof lres J w dofs)) i j =
                            (if j = i then scal else 0))) \<and>
         scaling (snd (residual_and_or_Jacobian E res jacobian xit xi alpha t s)) =
           minimal_cell_diameter (dh_f E) \<and>
         (dh_f E \<noteq> [] \<longrightarrow>
            (\<forall>c \<in> set (dh_f E). minimal_cell_diameter (dh_f E) \<le> diameter c) \<and>
            minimal_cell_diameter (dh_f E) \<in> diameter ` set (dh_f E))"
proof -
  let ?lr = "fold (constrain_dof P scal cdof w dofs) [0..<i] (lres, J)"
  have d: "fm_n (snd ?lr) = fm_n J" "fm_m (snd ?lr) = fm_m J"
    by (simp_all add: fold_constrain_dof_dims)
  then have e: "fm_empty (snd ?lr) = fm_empty J" by (simp add: fm_empty_def)
  obtain a b where ab: "?lr = (a, b)" by (cases ?lr)
  have "fst (apply_constraints P scal cdof lres J w dofs) i = scal * (w (dofs ! i) - v) \<and>
         (\<not> fm_empty J \<longrightarrow>
            (\<forall>j < fm_n J. el (snd (apply_constraints P scal cdof lres J w dofs)) i j =
                            (if j = i then scal else 0)))"
    using assms d e ab
    by (auto simp: apply_constraints_at constrain_dof_def Let_def fm_set_def fm_zero_row_def)
  then show ?thesis
    using minimal_cell_diameter_least[of "dh_f E"]
    by (simp add: residual_and_or_Jacobian_scaling)
qed

theorem apply_constraints_prescribed_witness:
  "(0 :: nat) < length [0 :: nat, 1, 2] \<and>
   map_of (boundary_values (ex_par\<lparr>boundary_values := [(0, 5)]\<rparr>)) ([0, 1, 2] ! 0) = Some 5 \<and>
   fst (apply_constraints (ex_par\<lparr>boundary_values := [(0, 5)]\<rparr>) 3 2 (\<lambda>_. 1)
          (fm_reinit 5 5) (\<lambda>_. 7) [0, 1, 2]) 0 = 3 * (7 - 5) \<and>
   el (snd (apply_constraints (ex_par\<lparr>boundary_values := [(0, 5)]\<rparr>) 3 2 (\<lambda>_. 1)
          (fm_reinit 5 5) (\<lambda>_. 7) [0, 1, 2])) 0 0 = 3 \<and>
   el (snd (apply_constraints (ex_par\<lparr>boundary_values := [(0, 5)]\<rparr>) 3 2 (\<lambda>_. 1)
          (fm_reinit 5 5) (\<lambda>_. 7) [0, 1, 2])) 0 4 = 0 \<and>
   scaling (snd (residual_and_or_Jacobian ex_E zero_vector Ref_dummy_JF zero_vector zero_vector
          0 0 ex_state)) = 1"
  using apply_constraints_prescribed[of 0 "[0, 1, 2]" "ex_par\<lparr>boundary_values := [(0, 5)]\<rparr>" 5 2
          3 "\<lambda>_. 1" "fm_reinit 5 5" "\<lambda>_. 7" ex_E zero_vector Ref_dummy_JF zero_vector
          zero_vector 0 0 ex_state]
  by (simp add: ex_defs fm_reinit_def fm_empty_def minimal_cell_diameter_def)

text \<open>The claim as stated fails where the prescribed dof is the pressure-pinning dof and
  all boundary conditions are essential without a fixed pressure: the later branch of
  the same pass zeroes the entry and the whole row.\<close>

theorem apply_constraints_counterexample:
  "map_of (boundary_values (ex_par\<lparr>all_DBC := True, boundary_values := [(2, 5)]\<rparr>))
     ([0, 1, 2] ! 2) = Some 5 \<and>
   fst (apply_constraints (ex_par\<lparr>all_DBC := True, boundary_values := [(2, 5)]\<rparr>) 3 2
          (\<lambda>_. 1) (fm_reinit 5 5) (\<lambda>_. 7) [0, 1, 2]) 2 = 0 \<and>
   fst (apply_constraints (ex_par\<lparr>all_DBC := True, boundary_values := [(2, 5)]\<rparr>) 3 2
          (\<lambda>_. 1) (fm_reinit 5 5) (\<lambda>_. 7) [0, 1, 2]) 2 \<noteq> 3 * (7 - 5) \<and>
   el (snd (apply_constraints (ex_par\<lparr>all_DBC := True, boundary_values := [(2, 5)]\<rparr>) 3 2
          (\<lambda>_. 1) (fm_reinit 5 5) (\<lambda>_. 7) [0, 1, 2])) 2 2 = 0"
  by (simp add: apply_constraints_def constrain_dof_def ex_par_def fm_reinit_def fm_empty_def
        fm_set_def fm_zero_row_def add_row_def upt_rec[of 0] upt_rec[of 1] upt_rec[of 2]
        upt_rec[of 3])

section \<open>Scatter of local contributions\<close>

text \<open>Entry \<open>k\<close> of a global vector after the scatter loop: every local entry whose dof
  index is \<open>k\<close> has been added.  The same for the matrices.\<close>

lemma fold_scatter:
  "fold (\<lambda>i r. r(d i := r (d i) + f i)) js r k =
     r k + (\<Sum>i\<leftarrow>js. if d i = k then f i else 0)"
  by (induction js arbitrary: r) (auto simp: algebra_simps)

lemma distribute_residual_entry:
  "distribute_residual r lr dofs off k =
     r k + (\<Sum>i<length dofs. if dofs ! i = k then lr (off + i) else 0)"
  unfolding distribute_residual_def
  by (simp add: fold_scatter[where d="\<lambda>i. dofs ! i"] interv_sum_list_conv_sum_set_nat lessThan_atLeast0)

lemma fold_mat_add_row:
  "fold (\<lambda>j A. mat_add A r (d j) (f j)) js A r' c =
     A r' c + (if r' = r then (\<Sum>j\<leftarrow>js. if d j = c then f j else 0) else 0)"
  by (induction js arbitrary: A) (auto simp: mat_add_def algebra_simps)

lemma fold_mat_add:
  "fold (\<lambda>i. fold (\<lambda>j A. mat_add A (d1 i) (d2 j) (f i j)) js) is A r c =
     A r c + (\<Sum>i\<leftarrow>is. if d1 i = r then (\<Sum>j\<leftarrow>js. if d2 j = c then f i j else 0) else 0)"
  by (induction "is" arbitrary: A) (auto simp: fold_mat_add_row algebra_simps)

lemma distribute_jacobian_entry:
  "distribute_jacobian A L dofs_1 dofs_2 off1 off2 r c =
     A r c + (\<Sum>i<length dofs_1. if dofs_1 ! i = r
                then (\<Sum>j<length dofs_2. if dofs_2 ! j = c then el L (off1 + i) (off2 + j) else 0)
                else 0)"
  unfolding distribute_jacobian_def
  by (simp add: fold_mat_add[where ?d1.0="\<lambda>i. dofs_1 ! i" and ?d2.0="\<lambda>j. dofs_2 ! j"]
        interv_sum_list_conv_sum_set_nat lessThan_atLeast0 cong: if_cong)

lemma distribute_constraint_on_pressure_jac_entry:
  "distribute_constraint_on_pressure_jac scal ar cdof A pc dofs off r c =
     A r c + (if r = cdof
              then (\<Sum>i<length dofs. if dofs ! i = c then pc (off + i) * scal / ar else 0)
              else 0)"
  unfolding distribute_constraint_on_pressure_jac_def
  by (simp add: fold_mat_add_row[where d="\<lambda>i. dofs ! i"]
        interv_sum_list_conv_sum_set_nat lessThan_atLeast0)


section \<open>The pressure gauge\<close>

lemma length_get_dof_indices [simp]: "length (get_dof_indices fe c) = dofs_per_cell fe"
  by (simp add: get_dof_indices_def)

lemma add_row_cancel:
  "c < fm_n A \<Longrightarrow> el (add_row A i (- 1) i) i c = 0"
  by (simp add: add_row_def)

lemma apply_constraints_pinned:
  assumes "all_DBC P" "\<not> fix_pressure P" "i < length dofs" "dofs ! i = cdof"
  shows "fst (apply_constraints P scal cdof lres J w dofs) i = 0 \<and>
         (\<not> fm_empty J \<longrightarrow>
            (\<forall>j < fm_n J. el (snd (apply_constraints P scal cdof lres J w dofs)) i j = 0))"
proof -
  let ?lr = "fold (constrain_dof P scal cdof w dofs) [0..<i] (lres, J)"
  have d: "fm_n (snd ?lr) = fm_n J" "fm_m (snd ?lr) = fm_m J"
    by (simp_all add: fold_constrain_dof_dims)
  then have e: "fm_empty (snd ?lr) = fm_empty J" by (simp add: fm_empty_def)
  obtain a b where ab: "?lr = (a, b)" by (cases ?lr)
  show ?thesis
    using assms d e ab
    by (auto simp: apply_constraints_at constrain_dof_def Let_def fm_set_def fm_zero_row_def
          add_row_def fm_empty_def split: option.splits)
qed

lemma residual_and_or_Jacobian_area:
  "area (snd (residual_and_or_Jacobian E res jacobian xit xi alpha t s)) = area s"
  by (cases jacobian)
     (simp_all add: residual_and_or_Jacobian_def Let_def compute_current_bc_def assign_ref_def
        new_mapping_def delete_mapping_def split: option.splits)

lemma fluid_cell_residual_pin:
  assumes "all_DBC P" "\<not> fix_pressure P"
  shows "block0 (a_residual (fluid_cell E P scal ar cdof jacobian upd alpha t xit xi fv a)) cdof =
           block0 (a_residual a) cdof + local_average_pressure E P fv (block0 xi) * scal / ar"
proof -
  let ?dofs = "get_dof_indices (fe_f E) fv"
  obtain lr lj where ac: "apply_constraints P scal cdof
              (fluid_local_res E P t fv (block0 xit) (block0 xi))
              (local_matrix E upd (fluid_local_jacobian E P alpha fv (block0 xi)))
              (block0 xi) ?dofs = (lr, lj)" by (cases "apply_constraints P scal cdof
              (fluid_local_res E P t fv (block0 xit) (block0 xi))
              (local_matrix E upd (fluid_local_jacobian E P alpha fv (block0 xi)))
              (block0 xi) ?dofs")
  have z: "\<And>i. i < length ?dofs \<Longrightarrow> ?dofs ! i = cdof \<Longrightarrow> lr i = 0"
    using apply_constraints_pinned[OF assms, of _ ?dofs cdof scal] ac by (metis fst_conv)
  have "(\<Sum>i<length ?dofs. if ?dofs ! i = cdof then lr (0 + i) else 0) = 0"
    by (rule sum.neutral) (simp add: z)
  then have "distribute_residual (block0 (a_residual a)) lr ?dofs 0 cdof = block0 (a_residual a) cdof"
    by (simp only: distribute_residual_entry)
  then show ?thesis
    using assms ac
    by (cases jacobian) (simp_all add: fluid_cell_def Let_def on_residual_def on_JF_def on_jacobian_def
          distribute_constraint_on_pressure_res_def)
qed

lemma fluid_cell_jacobian_pin:
  assumes "all_DBC P" "\<not> fix_pressure P"
  shows "blk (a_JF (fluid_cell E P scal ar cdof Ref_JF True alpha t xit xi fv a)) 0 0 cdof c =
           blk (a_JF a) 0 0 cdof c +
           (\<Sum>i<dofs_per_cell (fe_f E).
              if get_dof_indices (fe_f E) fv ! i = c
              then local_pressure_coefficient E P True fv i * scal / ar else 0)"
proof -
  let ?dofs = "get_dof_indices (fe_f E) fv"
  let ?J = "local_matrix E True (fluid_local_jacobian E P alpha fv (block0 xi))"
  obtain lr lj where ac: "apply_constraints P scal cdof
              (fluid_local_res E P t fv (block0 xit) (block0 xi)) ?J
              (block0 xi) ?dofs = (lr, lj)" by (cases "apply_constraints P scal cdof
              (fluid_local_res E P t fv (block0 xit) (block0 xi)) ?J
              (block0 xi) ?dofs")
  have z: "el lj i j = 0" if "i < length ?dofs" "?dofs ! i = cdof" "j < length ?dofs" for i j
  proof -
    from that have "\<not> fm_empty ?J" "j < fm_n ?J"
      by (simp_all add: local_matrix_def fm_empty_def n_local_dofs_def)
    with apply_constraints_pinned[OF assms that(1,2), of scal "fluid_local_res E P t fv (block0 xit) (block0 xi)" ?J "block0 xi"] ac
    show ?thesis by simp
  qed
  have "(\<Sum>i<length ?dofs. if ?dofs ! i = cdof
            then (\<Sum>j<length ?dofs. if ?dofs ! j = c then el lj (0 + i) (0 + j) else 0) else 0) = 0"
    by (auto intro!: sum.neutral simp: z)
  then have "distribute_jacobian A lj ?dofs ?dofs 0 0 cdof c = A cdof c" for A
    by (simp only: distribute_jacobian_entry)
  then show ?thesis
    using assms ac
    by (simp add: fluid_cell_def Let_def on_residual_def on_JF_def on_jacobian_def set_block_def
          distribute_constraint_on_pressure_jac_entry cong: if_cong)
qed


text \<open>
  C5.  With \<open>all_DBC\<close> and without \<open>fix_pressure\<close>: the constraint pass zeroes the local
  residual entry of a local dof that is the pressure-pinning dof, and subtracts its row
  of the local Jacobian from itself, which leaves the row zero.  One fluid cell then adds
  \<open>local_average_pressure * scale / area\<close> to the residual entry of the pinning dof, and
  to the entry of its Jacobian row in the column of every local dof
  \<open>local_pressure_coefficient * scale / area\<close> (the coefficient is the integral of the shape
  function for a pressure dof that enters the average and zero otherwise).  An evaluation
  does not change \<open>area\<close>, which the constructor computes.
\<close>

theorem pressure_pinning:
  assumes "all_DBC P" and "\<not> fix_pressure P"
  shows "(\<forall>i < length dofs. dofs ! i = cdof \<longrightarrow>
            fst (apply_constraints P scal cdof lres J w dofs) i = 0 \<and>
            (\<not> fm_empty J \<longrightarrow>
               (\<forall>j < fm_n J. el (add_row J i (- 1) i) i j = 0 \<and>
                   el (snd (apply_constraints P scal cdof lres J w dofs)) i j = 0))) \<and>
         block0 (a_residual (fluid_cell E P scal ar cdof jacobian upd alpha t xit xi fv a)) cdof =
           block0 (a_residual a) cdof + local_average_pressure E P fv (block0 xi) * scal / ar \<and>
         blk (a_JF (fluid_cell E P scal ar cdof Ref_JF True alpha t xit xi fv a)) 0 0 cdof c =
           blk (a_JF a) 0 0 cdof c +
           (\<Sum>i<dofs_per_cell (fe_f E).
              if get_dof_indices (fe_f E) fv ! i = c
              then local_pressure_coefficient E P True fv i * scal / ar else 0) \<and>
         area (snd (residual_and_or_Jacobian E res jacobian xit xi alpha t s)) = area s"
  using apply_constraints_pinned[OF assms] fluid_cell_residual_pin[OF assms]
    fluid_cell_jacobian_pin[OF assms]
  by (simp add: residual_and_or_Jacobian_area add_row_cancel)

lemmas ex_sums = lessThan_Suc eval_nat_numeral upt_rec[of 0] upt_rec[of 1] upt_rec[of 2] upt_rec[of 3]

theorem pressure_pinning_witness:
  "all_DBC (ex_par\<lparr>all_DBC := True\<rparr>) \<and> \<not> fix_pressure (ex_par\<lparr>all_DBC := True\<rparr>) \<and>
   [0 :: nat, 1, 2] ! 2 = 2 \<and>
   fst (apply_constraints (ex_par\<lparr>all_DBC := True\<rparr>) 2 2 (\<lambda>_. 1) (fm_reinit 5 5) (\<lambda>_. 8)
          [0, 1, 2]) 2 = 0 \<and>
   local_average_pressure ex_E (ex_par\<lparr>all_DBC := True\<rparr>) ex_fluid_cell (\<lambda>_. 8) = 8 \<and>
   block0 (a_residual (fluid_cell ex_E (ex_par\<lparr>all_DBC := True\<rparr>) 2 4 2 Ref_JF True 1 0
      zero_vector \<lparr>block0 = (\<lambda>_. 8), block1 = (\<lambda>_. 0)\<rparr> ex_fluid_cell
      \<lparr>a_residual = zero_vector, a_JF = bsm_reinit ex_sparsity, a_dummy_JF = bsm_clear\<rparr>)) 2 = 4 \<and>
   blk (a_JF (fluid_cell ex_E (ex_par\<lparr>all_DBC := True\<rparr>) 2 4 2 Ref_JF True 1 0
      zero_vector \<lparr>block0 = (\<lambda>_. 8), block1 = (\<lambda>_. 0)\<rparr> ex_fluid_cell
      \<lparr>a_residual = zero_vector, a_JF = bsm_reinit ex_sparsity, a_dummy_JF = bsm_clear\<rparr>)) 0 0 2 2
     = 1 / 2"
  using pressure_pinning[where P = "ex_par\<lparr>all_DBC := True\<rparr>" and dofs = "[0, 1, 2]"
      and cdof = 2 and scal = 2 and lres = "\<lambda>_. 1" and J = "fm_reinit 5 5" and w = "\<lambda>_. 8"
      and E = ex_E and ar = 4 and jacobian = Ref_JF and upd = True and alpha = 1 and t = 0
      and xit = zero_vector and xi = "\<lparr>block0 = (\<lambda>_. 8), block1 = (\<lambda>_. 0)\<rparr>"
      and fv = ex_fluid_cell and c = 2 and res = zero_vector and s = ex_state
      and a = "\<lparr>a_residual = zero_vector, a_JF = bsm_reinit ex_sparsity, a_dummy_JF = bsm_clear\<rparr>"]
  by (simp add: ex_defs local_average_pressure_def local_pressure_coefficient_def
        in_pressure_average_def get_dof_indices_def ex_sums)

section \<open>The constitutive module\<close>

lemma less2: "i < (2::nat) \<longleftrightarrow> i = 0 \<or> i = 1" by auto
lemma less3: "i < (3::nat) \<longleftrightarrow> i = 0 \<or> i = 1 \<or> i = 2" by auto

lemma sum2: "(\<Sum>k<2. f k) = f 0 + (f (1::nat) :: real)"
  by (simp add: eval_nat_numeral lessThan_Suc)
lemma sum3: "(\<Sum>k<3. f k) = f 0 + f (1::nat) + (f 2 :: real)"
  by (simp add: eval_nat_numeral lessThan_Suc)

lemma cofactors_left_2:
  "i < 2 \<Longrightarrow> j < 2 \<Longrightarrow>
   (\<Sum>k<2. cofactors 2 F i k * F k j) = (if i = j then determinant 2 F else 0)"
  by (auto simp: less2 sum2 cofactors_def determinant_def algebra_simps)

lemma cofactors_right_2:
  "i < 2 \<Longrightarrow> j < 2 \<Longrightarrow>
   (\<Sum>k<2. F i k * cofactors 2 F k j) = (if i = j then determinant 2 F else 0)"
  by (auto simp: less2 sum2 cofactors_def determinant_def algebra_simps)

lemma cofactors_left_3:
  "i < 3 \<Longrightarrow> j < 3 \<Longrightarrow>
   (\<Sum>k<3. cofactors 3 F i k * F k j) = (if i = j then determinant 3 F else 0)"
  by (auto simp: less3 sum3 cofactors_def determinant_def algebra_simps)

lemma cofactors_right_3:
  "i < 3 \<Longrightarrow> j < 3 \<Longrightarrow>
   (\<Sum>k<3. F i k * cofactors 3 F k j) = (if i = j then determinant 3 F else 0)"
  by (auto simp: less3 sum3 cofactors_def determinant_def algebra_simps)


lemma invert_is_inverse_transpose:
  assumes "n = 2 \<or> n = 3" and "determinant n F \<noteq> 0"
  shows "is_inverse_transpose n F (transpose_t (invert n F))"
proof -
  have l: "(\<Sum>k<n. cofactors n F i k * F k j) = (if i = j then determinant n F else 0)"
    and r: "(\<Sum>k<n. F i k * cofactors n F k j) = (if i = j then determinant n F else 0)"
    if "i < n" "j < n" for i j
    using assms(1) that
    by (auto simp: cofactors_left_2 cofactors_left_3 cofactors_right_2 cofactors_right_3)
  have "(\<Sum>k<n. F i k * (cofactors n F k j * (1 / determinant n F))) = (if i = j then 1 else 0)"
    if "i < n" "j < n" for i j
  proof -
    have "(\<Sum>k<n. F i k * (cofactors n F k j * (1 / determinant n F))) =
            (\<Sum>k<n. F i k * cofactors n F k j) * (1 / determinant n F)"
      by (simp add: sum_divide_distrib)
    then show ?thesis using r[OF that] assms(2) by simp
  qed
  moreover have "(\<Sum>k<n. cofactors n F i k * (1 / determinant n F) * F k j) = (if i = j then 1 else 0)"
    if "i < n" "j < n" for i j
  proof -
    have "(\<Sum>k<n. cofactors n F i k * (1 / determinant n F) * F k j) =
            (\<Sum>k<n. cofactors n F i k * F k j) * (1 / determinant n F)"
      by (simp add: sum_divide_distrib)
    then show ?thesis using l[OF that] assms(2) by simp
  qed
  ultimately show ?thesis
    by (simp add: is_inverse_transpose_def transpose_t_def invert_def)
qed

lemma etheta_unit_tangent:
  assumes "dim E = 2" and "p 0 \<noteq> 0 \<or> p 1 \<noteq> 0"
  shows "dot 2 (etheta E p) (etheta E p) = 1 \<and> dot 2 (etheta E p) p = 0"
proof -
  have pos: "0 < p 0 * p 0 + p 1 * p 1"
    using assms(2) by (metis add_pos_nonneg add_nonneg_pos zero_le_square not_real_square_gt_zero)
  then have n: "norm_t 2 p * norm_t 2 p = p 0 * p 0 + p 1 * p 1" "norm_t 2 p \<noteq> 0"
    using assms(2) by (simp_all add: norm_t_def sum2)
  have "dot 2 (etheta E p) (etheta E p) = (p 0 * p 0 + p 1 * p 1) / (norm_t 2 p * norm_t 2 p)"
    using assms(1) by (simp add: dot_def sum2 etheta_def add_divide_distrib)
  moreover have "dot 2 (etheta E p) p = 0"
    using assms(1) by (simp add: dot_def sum2 etheta_def)
  ultimately show ?thesis using n pos assms(2) by auto
qed

text \<open>
  C3.  At a quadrature point of a solid cell the deformation gradient is the identity
  plus the gradient of the displacement, and the stress returned is \<open>mu * (F - G)\<close> for
  \<open>INH_0\<close>, \<open>mu * F\<close> for \<open>INH_1\<close> and \<open>mu * F * (e \<otimes> e)\<close> for the fiber model.
  \<open>G\<close> is the inverse transpose of \<open>F\<close> wherever \<open>F\<close> has one (in the two and three
  dimensions of the program); \<open>e\<close> is a unit vector orthogonal to the position of the
  quadrature point relative to the centre of the ring, in two dimensions and away from
  the centre.
\<close>

theorem constitutive_module:
  assumes "i < dim E" and "j < dim E"
  shows "let F = deformation_gradient E fv xi qs;
             G = transpose_t (invert (dim E) F);
             p = (\<lambda>d. quadrature_point fv qs d - ring_center P d);
             e = etheta_at E P fv qs
         in F i j = get_function_gradients (fe_s E) fv xi qs i j + (if i = j then 1 else 0) \<and>
            get_Pe E P fv xi qs i j = spec_Pe (material_model P) (mu P) (dim E) F G e i j \<and>
            ((dim E = 2 \<or> dim E = 3) \<and> determinant (dim E) F \<noteq> 0 \<longrightarrow>
               is_inverse_transpose (dim E) F G) \<and>
            (dim E = 2 \<and> (p 0 \<noteq> 0 \<or> p 1 \<noteq> 0) \<longrightarrow> dot 2 e e = 1 \<and> dot 2 e p = 0)"
proof -
  have "get_Pe E P fv xi qs i j =
          spec_Pe (material_model P) (mu P) (dim E) (deformation_gradient E fv xi qs)
            (transpose_t (invert (dim E) (deformation_gradient E fv xi qs)))
            (etheta_at E P fv qs) i j"
    by (cases "material_model P")
       (simp_all add: get_Pe_def spec_Pe_def Let_def contract10_def outer_product_def mult.commute)
  then show ?thesis
    using invert_is_inverse_transpose[of "dim E" "deformation_gradient E fv xi qs"]
      etheta_unit_tangent[of E "\<lambda>d. quadrature_point fv qs d - ring_center P d"]
    by (auto simp: Let_def deformation_gradient_def etheta_at_def)
qed


theorem constitutive_module_witness:
  "(0 :: nat) < dim ex_E \<and> (1 :: nat) < dim ex_E \<and>
   deformation_gradient ex_E ex_solid_cell (\<lambda>k. if k = 0 then 1 else 0) 0 0 0 = 2 \<and>
   determinant (dim ex_E) (deformation_gradient ex_E ex_solid_cell (\<lambda>k. if k = 0 then 1 else 0) 0) = 2 \<and>
   get_Pe ex_E (ex_par\<lparr>material_model := INH_0\<rparr>) ex_solid_cell (\<lambda>k. if k = 0 then 1 else 0) 0 0 0 = 3 / 2 \<and>
   get_Pe ex_E (ex_par\<lparr>material_model := INH_1\<rparr>) ex_solid_cell (\<lambda>k. if k = 0 then 1 else 0) 0 0 0 = 2 \<and>
   get_Pe ex_E (ex_par\<lparr>material_model := CircumferentialFiberModel\<rparr>) ex_solid_cell
      (\<lambda>k. if k = 0 then 1 else 0) 0 0 1 = 1 \<and>
   is_inverse_transpose 2 (deformation_gradient ex_E ex_solid_cell (\<lambda>k. if k = 0 then 1 else 0) 0)
     (transpose_t (invert 2 (deformation_gradient ex_E ex_solid_cell (\<lambda>k. if k = 0 then 1 else 0) 0))) \<and>
   dot 2 (etheta_at ex_E ex_par ex_solid_cell 0) (etheta_at ex_E ex_par ex_solid_cell 0) = 1"
  using constitutive_module[where E = ex_E and i = 0 and j = 0 and fv = ex_solid_cell and qs = 0
          and xi = "\<lambda>k. if k = 0 then 1 else 0" and P = "ex_par\<lparr>material_model := INH_0\<rparr>"]
        constitutive_module[where E = ex_E and i = 0 and j = 0 and fv = ex_solid_cell and qs = 0
          and xi = "\<lambda>k. if k = 0 then 1 else 0" and P = "ex_par\<lparr>material_model := INH_1\<rparr>"]
        constitutive_module[where E = ex_E and i = 0 and j = 1 and fv = ex_solid_cell and qs = 0
          and xi = "\<lambda>k. if k = 0 then 1 else 0"
          and P = "ex_par\<lparr>material_model := CircumferentialFiberModel\<rparr>"]
  by (simp add: ex_defs Let_def spec_Pe_def deformation_gradient_def get_function_gradients_def
        get_dof_indices_def determinant_def transpose_t_def invert_def cofactors_def etheta_at_def
        etheta_def norm_t_def ex_sums)


section \<open>The Jacobian of the fluid cell is the derivative of its residual\<close>

lemma DERIV_if_const:
  "(c \<Longrightarrow> (f has_real_derivative f') F) \<Longrightarrow> ((\<lambda>x. if c then f x else 0) has_real_derivative (if c then f' else 0)) F"
  by (cases c) simp_all

lemma deriv_field:
  assumes W: "\<And>k. k < n \<Longrightarrow> ((\<lambda>x. W x k) has_real_derivative (if k = j then s else 0)) (at x)"
    and j: "j < (n :: nat)"
  shows "((\<lambda>x. \<Sum>k<n. if cmp k = c then W x k * phi k else 0) has_real_derivative
            (if cmp j = c then s * phi j else 0)) (at x)"
proof -
  have "((\<lambda>x. \<Sum>k<n. if cmp k = c then W x k * phi k else 0) has_real_derivative
            (\<Sum>k<n. if cmp k = c then (if k = j then s else 0) * phi k else 0)) (at x)"
    by (intro DERIV_sum DERIV_if_const DERIV_cmult_right W) simp
  moreover have "(\<Sum>k<n. if cmp k = c then (if k = j then s else 0) * phi k else 0) =
                 (\<Sum>k<n. if k = j then (if cmp j = c then s * phi j else 0) else 0)"
    by (intro sum.cong) auto
  moreover have "(\<Sum>k<n. if k = j then (if cmp j = c then s * phi j else 0) else 0) =
                 (if cmp j = c then s * phi j else 0)"
    using j by (simp add: sum.delta)
  ultimately show ?thesis by (simp only:)
qed

lemma dof_index_eq:
  "distinct (get_dof_indices fe fv) \<Longrightarrow> k < dofs_per_cell fe \<Longrightarrow> j < dofs_per_cell fe \<Longrightarrow>
     get_dof_indices fe fv ! k = get_dof_indices fe fv ! j \<longleftrightarrow> k = j"
  by (simp add: nth_eq_iff_index_eq)

lemma deriv_values:
  assumes "j < dofs_per_cell fe" and "distinct (get_dof_indices fe fv)"
  shows "((\<lambda>x. get_function_values fe fv (u(get_dof_indices fe fv ! j := x)) q c)
            has_real_derivative (if component fe j = c then shape_value fv j q else 0)) (at x)"
proof -
  have "((\<lambda>x. (u(get_dof_indices fe fv ! j := x)) (get_dof_indices fe fv ! k))
           has_real_derivative (if k = j then 1 else 0)) (at x)" if "k < dofs_per_cell fe" for k
    using that assms by (auto simp: dof_index_eq)
  from deriv_field[where W = "\<lambda>x k. (u(get_dof_indices fe fv ! j := x)) (get_dof_indices fe fv ! k)",
      OF this assms(1), of "component fe" c "\<lambda>k. shape_value fv k q"]
  show ?thesis by (simp add: get_function_values_def cong: if_cong)
qed

lemma deriv_gradients:
  assumes "j < dofs_per_cell fe" and "distinct (get_dof_indices fe fv)"
  shows "((\<lambda>x. get_function_gradients fe fv (u(get_dof_indices fe fv ! j := x)) q c d)
            has_real_derivative (if component fe j = c then shape_grad fv j q d else 0)) (at x)"
proof -
  have "((\<lambda>x. (u(get_dof_indices fe fv ! j := x)) (get_dof_indices fe fv ! k))
           has_real_derivative (if k = j then 1 else 0)) (at x)" if "k < dofs_per_cell fe" for k
    using that assms by (auto simp: dof_index_eq)
  from deriv_field[where W = "\<lambda>x k. (u(get_dof_indices fe fv ! j := x)) (get_dof_indices fe fv ! k)",
      OF this assms(1), of "component fe" c "\<lambda>k. shape_grad fv k q d"]
  show ?thesis by (simp add: get_function_gradients_def cong: if_cong)
qed

lemma deriv_time_values:
  assumes "j < dofs_per_cell fe" and "distinct (get_dof_indices fe fv)"
  shows "((\<lambda>x. get_function_values fe fv
                  (\<lambda>k. ((u(get_dof_indices fe fv ! j := x)) k - prev k) / h) q c)
            has_real_derivative (if component fe j = c then 1 / h * shape_value fv j q else 0)) (at x)"
proof -
  have "((\<lambda>x. ((u(get_dof_indices fe fv ! j := x)) (get_dof_indices fe fv ! k)
                  - prev (get_dof_indices fe fv ! k)) / h)
           has_real_derivative (if k = j then 1 / h else 0)) (at x)" if "k < dofs_per_cell fe" for k
    using that assms
    by (auto simp: dof_index_eq divide_inverse intro!: derivative_eq_intros)
  from deriv_field[where W = "\<lambda>x k. ((u(get_dof_indices fe fv ! j := x)) (get_dof_indices fe fv ! k)
                  - prev (get_dof_indices fe fv ! k)) / h",
      OF this assms(1), of "component fe" c "\<lambda>k. shape_value fv k q"]
  show ?thesis by (simp add: get_function_values_def cong: if_cong)
qed


lemma fluid_integrand_velocity:
  fixes up upt :: "nat \<Rightarrow> real \<Rightarrow> real" and g :: "nat \<Rightarrow> nat \<Rightarrow> real \<Rightarrow> real"
  assumes up: "\<And>c. ((up c) has_real_derivative (if cj = c then pj else 0)) (at x)"
    and upt: "\<And>c. ((upt c) has_real_derivative (if cj = c then al * pj else 0)) (at x)"
    and g: "\<And>c d. ((g c d) has_real_derivative (if cj = c then gj d else 0)) (at x)"
  shows "((\<lambda>x. r * (upt ci x - f) * p_i * W - up n x * gi ci * W
               + (\<Sum>d<n. e * (g ci d x + g d ci x) * gi d * W + r * g ci d x * up d x * p_i * W))
          has_real_derivative
            ((if ci = cj then r * al * p_i * pj * W else 0)
             - (if cj = n then gi ci * pj * W else 0)
             + (if cj = ci then (\<Sum>d<n. e * gi d * gj d * W + r * p_i * up d x * gj d * W) else 0)
             + (if cj < n then e * gi cj * gj ci * W + r * g ci cj x * p_i * pj * W else 0)))
          (at x)"
proof -
  have A: "((\<lambda>x. r * (upt ci x - f) * p_i * W) has_real_derivative
             (if ci = cj then r * al * p_i * pj * W else 0)) (at x)"
    by (auto intro!: derivative_eq_intros upt)
  have B: "((\<lambda>x. up n x * gi ci * W) has_real_derivative
             (if cj = n then gi ci * pj * W else 0)) (at x)"
    by (auto intro!: derivative_eq_intros up)
  have C0: "((\<lambda>x. \<Sum>d<n. e * (g ci d x + g d ci x) * gi d * W + r * g ci d x * up d x * p_i * W)
          has_real_derivative
            (\<Sum>d<n. (if cj = ci then e * gi d * gj d * W + r * p_i * up d x * gj d * W else 0)
                    + (if d = cj then e * gi d * gj ci * W + r * g ci d x * p_i * pj * W else 0)))
          (at x)"
    by (rule DERIV_sum) (auto intro!: derivative_eq_intros up g simp: algebra_simps)
  have "(\<Sum>d<n. (if cj = ci then e * gi d * gj d * W + r * p_i * up d x * gj d * W else 0)
                    + (if d = cj then e * gi d * gj ci * W + r * g ci d x * p_i * pj * W else 0))
        = (if cj = ci then (\<Sum>d<n. e * gi d * gj d * W + r * p_i * up d x * gj d * W) else 0)
          + (if cj < n then e * gi cj * gj ci * W + r * g ci cj x * p_i * pj * W else 0)"
    by (simp add: sum.distrib)
  with C0 have C: "((\<lambda>x. \<Sum>d<n. e * (g ci d x + g d ci x) * gi d * W + r * g ci d x * up d x * p_i * W)
          has_real_derivative
            ((if cj = ci then (\<Sum>d<n. e * gi d * gj d * W + r * p_i * up d x * gj d * W) else 0)
          + (if cj < n then e * gi cj * gj ci * W + r * g ci cj x * p_i * pj * W else 0)))
          (at x)" by simp
  from DERIV_add[OF DERIV_diff[OF A B] C] show ?thesis by (simp add: add.assoc)
qed

lemma fluid_integrand_pressure:
  fixes g :: "nat \<Rightarrow> nat \<Rightarrow> real \<Rightarrow> real"
  assumes g: "\<And>c d. ((g c d) has_real_derivative (if cj = c then gj d else 0)) (at x)"
  shows "((\<lambda>x. - (\<Sum>d<n. g d d x * p_i * W)) has_real_derivative
            - (if cj < n then p_i * gj cj * W else 0)) (at x)"
proof -
  have "((\<lambda>x. \<Sum>d<n. g d d x * p_i * W) has_real_derivative
           (\<Sum>d<n. if d = cj then p_i * gj d * W else 0)) (at x)"
    by (rule DERIV_sum) (auto intro!: derivative_eq_intros g)
  then have "((\<lambda>x. \<Sum>d<n. g d d x * p_i * W) has_real_derivative
           (if cj < n then p_i * gj cj * W else 0)) (at x)" by simp
  then show ?thesis by (rule DERIV_minus)
qed


lemma fluid_local_jacobian_derivative:
  assumes i: "i < dofs_per_cell (fe_f E)" and j: "j < dofs_per_cell (fe_f E)"
    and dist: "distinct (get_dof_indices (fe_f E) fv)"
  shows "((\<lambda>x. fluid_local_res E P t fv
                  (\<lambda>k. ((xi(get_dof_indices (fe_f E) fv ! j := x)) k - prev k) / h)
                  (xi(get_dof_indices (fe_f E) fv ! j := x)) i)
            has_real_derivative
              fluid_local_jacobian E P (1 / h) fv (xi(get_dof_indices (fe_f E) fv ! j := x)) i j)
            (at x)"
proof -
  let ?g = "get_dof_indices (fe_f E) fv ! j"
  let ?up = "\<lambda>q c x. get_function_values (fe_f E) fv (xi(?g := x)) q c"
  let ?upt = "\<lambda>q c x. get_function_values (fe_f E) fv (\<lambda>k. ((xi(?g := x)) k - prev k) / h) q c"
  let ?gr = "\<lambda>q c d x. get_function_gradients (fe_f E) fv (xi(?g := x)) q c d"
  have up: "((?up q c) has_real_derivative
              (if component (fe_f E) j = c then shape_value fv j q else 0)) (at x)" for q c
    by (rule deriv_values[OF j dist])
  have upt: "((?upt q c) has_real_derivative
              (if component (fe_f E) j = c then 1 / h * shape_value fv j q else 0)) (at x)" for q c
    by (rule deriv_time_values[OF j dist])
  have gr: "((?gr q c d) has_real_derivative
              (if component (fe_f E) j = c then shape_grad fv j q d else 0)) (at x)" for q c d
    by (rule deriv_gradients[OF j dist])
  show ?thesis
  proof (cases "component (fe_f E) i < dim E")
    case True
    have "((\<lambda>x. \<Sum>q<nqpf E.
                rho P * (?upt q (component (fe_f E) i) x
                         - force P t (quadrature_point fv q) (component (fe_f E) i))
                  * shape_value fv i q * JxW fv q
                - ?up q (dim E) x * shape_grad fv i q (component (fe_f E) i) * JxW fv q
                + (\<Sum>d<dim E.
                     eta P * (?gr q (component (fe_f E) i) d x + ?gr q d (component (fe_f E) i) x)
                       * shape_grad fv i q d * JxW fv q
                     + rho P * ?gr q (component (fe_f E) i) d x * ?up q d x
                       * shape_value fv i q * JxW fv q))
           has_real_derivative
             (\<Sum>q<nqpf E.
                (if component (fe_f E) i = component (fe_f E) j
                 then rho P * (1 / h) * shape_value fv i q * shape_value fv j q * JxW fv q
                 else 0)
                - (if component (fe_f E) j = dim E
                   then shape_grad fv i q (component (fe_f E) i) * shape_value fv j q * JxW fv q
                   else 0)
                + (if component (fe_f E) j = component (fe_f E) i
                   then (\<Sum>d<dim E.
                           eta P * shape_grad fv i q d * shape_grad fv j q d * JxW fv q
                           + rho P * shape_value fv i q * ?up q d x
                             * shape_grad fv j q d * JxW fv q)
                   else 0)
                + (if component (fe_f E) j < dim E
                   then eta P * shape_grad fv i q (component (fe_f E) j)
                          * shape_grad fv j q (component (fe_f E) i) * JxW fv q
                        + rho P * ?gr q (component (fe_f E) i) (component (fe_f E) j) x
                          * shape_value fv i q * shape_value fv j q * JxW fv q
                   else 0))) (at x)"
      by (rule DERIV_sum) (rule fluid_integrand_velocity[OF up upt gr])
    with True i j show ?thesis
      by (simp add: fluid_local_res_def fluid_local_jacobian_def Let_def)
  next
    case False
    have "((\<lambda>x. \<Sum>q<nqpf E.
                - (\<Sum>d<dim E. ?gr q d d x * shape_value fv i q * JxW fv q))
           has_real_derivative
             (\<Sum>q<nqpf E.
                - (if component (fe_f E) j < dim E
                   then shape_value fv i q * shape_grad fv j q (component (fe_f E) j) * JxW fv q
                   else 0))) (at x)"
      by (rule DERIV_sum) (rule fluid_integrand_pressure[OF gr])
    with False i j show ?thesis
      by (simp add: fluid_local_res_def fluid_local_jacobian_def Let_def)
  qed
qed


lemma apply_constraints_entry:
  assumes "i < length dofs"
  shows "fst (apply_constraints P scal cdof lres J w dofs) i =
           (if all_DBC P \<and> \<not> fix_pressure P \<and> dofs ! i = cdof then 0
            else case map_of (boundary_values P) (dofs ! i) of
                   None \<Rightarrow> lres i
                 | Some v \<Rightarrow> scal * (w (dofs ! i) - v))"
    and "\<not> fm_empty J \<Longrightarrow> j < fm_n J \<Longrightarrow>
         el (snd (apply_constraints P scal cdof lres J w dofs)) i j =
           (if all_DBC P \<and> \<not> fix_pressure P \<and> dofs ! i = cdof then 0
            else case map_of (boundary_values P) (dofs ! i) of
                   None \<Rightarrow> el J i j
                 | Some v \<Rightarrow> if j = i then scal else 0)"
proof -
  let ?lr = "fold (constrain_dof P scal cdof w dofs) [0..<i] (lres, J)"
  have d: "fm_n (snd ?lr) = fm_n J" "fm_m (snd ?lr) = fm_m J"
    by (simp_all add: fold_constrain_dof_dims)
  then have e: "fm_empty (snd ?lr) = fm_empty J" by (simp add: fm_empty_def)
  have k: "fst ?lr i = lres i" "el (snd ?lr) i = el J i"
    using fold_constrain_dof_other[of i "[0..<i]" P scal cdof w dofs "(lres, J)"] by simp_all
  obtain a b where ab: "?lr = (a, b)" by (cases ?lr)
  show "fst (apply_constraints P scal cdof lres J w dofs) i =
           (if all_DBC P \<and> \<not> fix_pressure P \<and> dofs ! i = cdof then 0
            else case map_of (boundary_values P) (dofs ! i) of
                   None \<Rightarrow> lres i
                 | Some v \<Rightarrow> scal * (w (dofs ! i) - v))"
    using assms d e k ab
    by (auto simp: apply_constraints_at constrain_dof_def Let_def split: option.splits)
  show "el (snd (apply_constraints P scal cdof lres J w dofs)) i j =
           (if all_DBC P \<and> \<not> fix_pressure P \<and> dofs ! i = cdof then 0
            else case map_of (boundary_values P) (dofs ! i) of
                   None \<Rightarrow> el J i j
                 | Some v \<Rightarrow> if j = i then scal else 0)"
    if "\<not> fm_empty J" "j < fm_n J"
    using assms that d e k ab
    by (auto simp: apply_constraints_at constrain_dof_def Let_def fm_set_def fm_zero_row_def
          add_row_def fm_empty_def split: option.splits)
qed


lemma fluid_cell_residual_entry:
  "block0 (a_residual (fluid_cell E P scal ar cdof jacobian upd alpha t xit xi fv a)) r =
     block0 (a_residual a) r
     + (\<Sum>i<dofs_per_cell (fe_f E).
          if get_dof_indices (fe_f E) fv ! i = r
          then constrained_res P scal cdof (fluid_local_res E P t fv (block0 xit) (block0 xi))
                 (block0 xi) (get_dof_indices (fe_f E) fv) i
          else 0)
     + (if all_DBC P \<and> \<not> fix_pressure P \<and> r = cdof
        then local_average_pressure E P fv (block0 xi) * scal / ar else 0)"
proof -
  let ?dofs = "get_dof_indices (fe_f E) fv"
  let ?lres = "fluid_local_res E P t fv (block0 xit) (block0 xi)"
  let ?J = "local_matrix E upd (fluid_local_jacobian E P alpha fv (block0 xi))"
  obtain lr lj where ac: "apply_constraints P scal cdof ?lres ?J (block0 xi) ?dofs = (lr, lj)"
    by (cases "apply_constraints P scal cdof ?lres ?J (block0 xi) ?dofs")
  have lr: "lr i = constrained_res P scal cdof ?lres (block0 xi) ?dofs i"
    if "i < dofs_per_cell (fe_f E)" for i
    using apply_constraints_entry(1)[of i ?dofs P scal cdof ?lres ?J "block0 xi"] ac that
    by (simp add: constrained_res_def)
  have "(\<Sum>i<dofs_per_cell (fe_f E). if ?dofs ! i = r' then lr (0 + i) else 0) =
        (\<Sum>i<dofs_per_cell (fe_f E). if ?dofs ! i = r'
           then constrained_res P scal cdof ?lres (block0 xi) ?dofs i else 0)" for r'
    by (rule sum.cong) (simp_all add: lr)
  then have "distribute_residual R lr ?dofs 0 r' = R r' +
        (\<Sum>i<dofs_per_cell (fe_f E). if ?dofs ! i = r'
           then constrained_res P scal cdof ?lres (block0 xi) ?dofs i else 0)" for R r'
    by (simp only: distribute_residual_entry length_get_dof_indices)
  then show ?thesis
    using ac
    by (cases jacobian)
       (simp_all add: fluid_cell_def Let_def on_residual_def on_JF_def on_jacobian_def
          distribute_constraint_on_pressure_res_def)
qed

lemma fluid_cell_JF_entry:
  "blk (a_JF (fluid_cell E P scal ar cdof Ref_JF True alpha t xit xi fv a)) 0 0 r c =
     blk (a_JF a) 0 0 r c
     + (\<Sum>i<dofs_per_cell (fe_f E).
          if get_dof_indices (fe_f E) fv ! i = r
          then (\<Sum>j<dofs_per_cell (fe_f E).
                  if get_dof_indices (fe_f E) fv ! j = c
                  then constrained_jac P scal cdof (fluid_local_jacobian E P alpha fv (block0 xi))
                         (get_dof_indices (fe_f E) fv) i j
                  else 0)
          else 0)
     + (if all_DBC P \<and> \<not> fix_pressure P \<and> r = cdof
        then (\<Sum>i<dofs_per_cell (fe_f E).
                if get_dof_indices (fe_f E) fv ! i = c
                then local_pressure_coefficient E P True fv i * scal / ar else 0)
        else 0)"
proof -
  let ?dofs = "get_dof_indices (fe_f E) fv"
  let ?lres = "fluid_local_res E P t fv (block0 xit) (block0 xi)"
  let ?J = "local_matrix E True (fluid_local_jacobian E P alpha fv (block0 xi))"
  obtain lr lj where ac: "apply_constraints P scal cdof ?lres ?J (block0 xi) ?dofs = (lr, lj)"
    by (cases "apply_constraints P scal cdof ?lres ?J (block0 xi) ?dofs")
  have lj: "el lj i j = constrained_jac P scal cdof (fluid_local_jacobian E P alpha fv (block0 xi)) ?dofs i j"
    if "i < dofs_per_cell (fe_f E)" "j < dofs_per_cell (fe_f E)" for i j
  proof -
    from that have "\<not> fm_empty ?J" "j < fm_n ?J"
      by (simp_all add: local_matrix_def fm_empty_def n_local_dofs_def)
    with apply_constraints_entry(2)[of i ?dofs ?J j P scal cdof ?lres "block0 xi"] ac that
    show ?thesis by (simp add: constrained_jac_def local_matrix_def split: option.splits)
  qed
  have "(\<Sum>i<dofs_per_cell (fe_f E). if ?dofs ! i = r'
          then (\<Sum>j<dofs_per_cell (fe_f E). if ?dofs ! j = c' then el lj (0 + i) (0 + j) else 0)
          else 0) =
        (\<Sum>i<dofs_per_cell (fe_f E). if ?dofs ! i = r'
          then (\<Sum>j<dofs_per_cell (fe_f E). if ?dofs ! j = c'
                  then constrained_jac P scal cdof (fluid_local_jacobian E P alpha fv (block0 xi)) ?dofs i j
                  else 0)
          else 0)" for r' c'
    by (intro sum.cong refl if_cong) (simp_all add: lj)
  then have "distribute_jacobian A lj ?dofs ?dofs 0 0 r' c' = A r' c' +
        (\<Sum>i<dofs_per_cell (fe_f E). if ?dofs ! i = r'
          then (\<Sum>j<dofs_per_cell (fe_f E). if ?dofs ! j = c'
                  then constrained_jac P scal cdof (fluid_local_jacobian E P alpha fv (block0 xi)) ?dofs i j
                  else 0)
          else 0)" for A r' c'
    by (simp only: distribute_jacobian_entry length_get_dof_indices)
  then show ?thesis
    using ac
    by (simp add: fluid_cell_def Let_def on_residual_def on_JF_def on_jacobian_def set_block_def
          distribute_constraint_on_pressure_jac_entry cong: if_cong)
qed


lemma constrained_res_derivative:
  assumes i: "i < dofs_per_cell (fe_f E)" and j: "j < dofs_per_cell (fe_f E)"
    and dist: "distinct (get_dof_indices (fe_f E) fv)"
  shows "((\<lambda>x. constrained_res P scal cdof
                  (fluid_local_res E P t fv
                     (\<lambda>k. ((xi(get_dof_indices (fe_f E) fv ! j := x)) k - prev k) / h)
                     (xi(get_dof_indices (fe_f E) fv ! j := x)))
                  (xi(get_dof_indices (fe_f E) fv ! j := x)) (get_dof_indices (fe_f E) fv) i)
            has_real_derivative
              constrained_jac P scal cdof
                (fluid_local_jacobian E P (1 / h) fv (xi(get_dof_indices (fe_f E) fv ! j := x)))
                (get_dof_indices (fe_f E) fv) i j)
            (at x)"
proof -
  let ?dofs = "get_dof_indices (fe_f E) fv"
  have b: "((\<lambda>x. scal * ((xi(?dofs ! j := x)) (?dofs ! i) - v)) has_real_derivative
             (if j = i then scal else 0)) (at x)" for v
    using i j dist by (auto simp: dof_index_eq intro!: derivative_eq_intros)
  show ?thesis
    using fluid_local_jacobian_derivative[OF i j dist, of P t xi prev h x] b
    by (auto simp: constrained_res_def constrained_jac_def split: option.splits)
qed

lemma local_average_pressure_derivative:
  assumes j: "j < dofs_per_cell (fe_f E)" and dist: "distinct (get_dof_indices (fe_f E) fv)"
  shows "((\<lambda>x. local_average_pressure E P fv (xi(get_dof_indices (fe_f E) fv ! j := x)))
            has_real_derivative local_pressure_coefficient E P True fv j) (at x)"
proof -
  let ?dofs = "get_dof_indices (fe_f E) fv"
  let ?C = "\<lambda>i. all_DBC P \<and> \<not> fix_pressure P \<and> in_pressure_average E i"
  have "((\<lambda>x. \<Sum>i<dofs_per_cell (fe_f E). \<Sum>q<nqpf E.
               if ?C i then (xi(?dofs ! j := x)) (?dofs ! i) * shape_value fv i q * JxW fv q else 0)
           has_real_derivative
             (\<Sum>i<dofs_per_cell (fe_f E).
                if i = j then (\<Sum>q<nqpf E. if ?C j then shape_value fv j q * JxW fv q else 0)
                else 0)) (at x)"
  proof (rule DERIV_sum)
    fix i assume "i \<in> {..<dofs_per_cell (fe_f E)}"
    then have i: "i < dofs_per_cell (fe_f E)" by simp
    show "((\<lambda>x. \<Sum>q<nqpf E.
               if ?C i then (xi(?dofs ! j := x)) (?dofs ! i) * shape_value fv i q * JxW fv q else 0)
            has_real_derivative
              (if i = j then (\<Sum>q<nqpf E. if ?C j then shape_value fv j q * JxW fv q else 0)
               else 0)) (at x)"
    proof (cases "i = j")
      case True
      have "((\<lambda>x. \<Sum>q<nqpf E. if ?C j then x * shape_value fv j q * JxW fv q else 0)
              has_real_derivative
             (\<Sum>q<nqpf E. if ?C j then shape_value fv j q * JxW fv q else 0)) (at x)"
        by (rule DERIV_sum) (auto intro!: derivative_eq_intros)
      with True show ?thesis by (simp cong: if_cong)
    next
      case False
      with i j dist have "?dofs ! i \<noteq> ?dofs ! j" by (simp add: dof_index_eq)
      with False show ?thesis by (simp cong: if_cong)
    qed
  qed
  then show ?thesis using j
    by (simp add: local_average_pressure_def local_pressure_coefficient_def)
qed


lemma sum_over_dof_column:
  assumes j: "j < dofs_per_cell fe" and dist: "distinct (get_dof_indices fe fv)"
  shows "(\<Sum>k<dofs_per_cell fe. if get_dof_indices fe fv ! k = get_dof_indices fe fv ! j
            then f k else 0) = (f j :: real)"
proof -
  have "(\<Sum>k<dofs_per_cell fe. if get_dof_indices fe fv ! k = get_dof_indices fe fv ! j
            then f k else 0) = (\<Sum>k<dofs_per_cell fe. if k = j then f k else 0)"
    using j dist by (intro sum.cong refl) (simp add: dof_index_eq)
  then show ?thesis using j by simp
qed

lemma fluid_cell_derivative:
  assumes j: "j < dofs_per_cell (fe_f E)" and dist: "distinct (get_dof_indices (fe_f E) fv)"
  shows "((\<lambda>x. block0 (a_residual (fluid_cell E P scal ar cdof Ref_JF True (1 / h) t
                 (bv_divide (bv_minus \<lparr>block0 = xi(get_dof_indices (fe_f E) fv ! j := x), block1 = xi1\<rparr> prev) h)
                 \<lparr>block0 = xi(get_dof_indices (fe_f E) fv ! j := x), block1 = xi1\<rparr> fv a)) r)
            has_real_derivative
              (blk (a_JF (fluid_cell E P scal ar cdof Ref_JF True (1 / h) t
                 (bv_divide (bv_minus \<lparr>block0 = xi(get_dof_indices (fe_f E) fv ! j := x), block1 = xi1\<rparr> prev) h)
                 \<lparr>block0 = xi(get_dof_indices (fe_f E) fv ! j := x), block1 = xi1\<rparr> fv a))
                 0 0 r (get_dof_indices (fe_f E) fv ! j)
               - blk (a_JF a) 0 0 r (get_dof_indices (fe_f E) fv ! j)))
            (at x)"
proof -
  let ?dofs = "get_dof_indices (fe_f E) fv"
  let ?U = "\<lambda>x. xi(?dofs ! j := x)"
  let ?Ut = "\<lambda>x k. ((?U x) k - block0 prev k) / h"
  let ?cj = "\<lambda>i. constrained_jac P scal cdof (fluid_local_jacobian E P (1 / h) fv (?U x)) ?dofs i j"
  let ?g = "if all_DBC P \<and> \<not> fix_pressure P \<and> r = cdof
            then local_pressure_coefficient E P True fv j * scal / ar else 0"
  have xit: "block0 (bv_divide (bv_minus \<lparr>block0 = ?U y, block1 = xi1\<rparr> prev) h) = ?Ut y" for y
    by (simp add: bv_divide_def bv_minus_def)
  have A: "((\<lambda>x. \<Sum>i<dofs_per_cell (fe_f E).
            if ?dofs ! i = r
            then constrained_res P scal cdof (fluid_local_res E P t fv (?Ut x) (?U x)) (?U x) ?dofs i
            else 0) has_real_derivative
          (\<Sum>i<dofs_per_cell (fe_f E). if ?dofs ! i = r then ?cj i else 0)) (at x)"
    by (rule DERIV_sum, rule DERIV_if_const, rule constrained_res_derivative[OF _ j dist]) simp
  have B: "((\<lambda>x. if all_DBC P \<and> \<not> fix_pressure P \<and> r = cdof
            then local_average_pressure E P fv (?U x) * scal / ar else 0)
          has_real_derivative ?g) (at x)"
    by (rule DERIV_if_const, rule DERIV_cdivide, rule DERIV_cmult_right,
        rule local_average_pressure_derivative[OF j dist])
  have d: "((\<lambda>x. block0 (a_residual a) r
          + (\<Sum>i<dofs_per_cell (fe_f E).
            if ?dofs ! i = r
            then constrained_res P scal cdof (fluid_local_res E P t fv (?Ut x) (?U x)) (?U x) ?dofs i
            else 0)
          + (if all_DBC P \<and> \<not> fix_pressure P \<and> r = cdof
            then local_average_pressure E P fv (?U x) * scal / ar else 0))
          has_real_derivative
          ((\<Sum>i<dofs_per_cell (fe_f E). if ?dofs ! i = r then ?cj i else 0) + ?g)) (at x)"
    using DERIV_add[OF DERIV_add[OF DERIV_const[of "block0 (a_residual a) r"] A] B]
    by (simp only: add.left_neutral)
  have e: "blk (a_JF (fluid_cell E P scal ar cdof Ref_JF True (1 / h) t
                 (bv_divide (bv_minus \<lparr>block0 = ?U x, block1 = xi1\<rparr> prev) h)
                 \<lparr>block0 = ?U x, block1 = xi1\<rparr> fv a)) 0 0 r (?dofs ! j)
               - blk (a_JF a) 0 0 r (?dofs ! j) =
           (\<Sum>i<dofs_per_cell (fe_f E). if ?dofs ! i = r then ?cj i else 0) + ?g"
    by (simp add: fluid_cell_JF_entry sum_over_dof_column[OF j dist] cong: if_cong)
  show ?thesis
    using d by (simp only: fluid_cell_residual_entry e xit BlockVector.simps)
qed


lemma BlockVector_block0_update:
  "xi\<lparr>block0 := f\<rparr> = \<lparr>block0 = f, block1 = block1 (xi :: BlockVector)\<rparr>"
  by (cases xi) simp

text \<open>
  C2.  On a fluid cell whose dof indices are distinct, for local dofs \<open>i\<close> and \<open>j\<close>: entry
  \<open>(i, j)\<close> of the local Jacobian is the derivative of entry \<open>i\<close> of the local residual
  (inertia, pressure, viscous, convective and incompressibility terms) with respect to
  the value of dof \<open>j\<close>, when the time derivative is \<open>(xi - previous) / dt\<close> and
  \<open>alpha = 1 / dt\<close>, as the Newton iteration passes them.  And what the cell adds to entry
  \<open>(r, dof j)\<close> of the fluid-fluid block of the Jacobian is the derivative, with respect to
  the value of dof \<open>j\<close>, of what the cell adds to entry \<open>r\<close> of the residual, constraint
  rows and pressure gauge included.
\<close>

theorem fluid_jacobian_exact:
  assumes "j < dofs_per_cell (fe_f E)" and "distinct (get_dof_indices (fe_f E) fv)"
  shows "(\<forall>i<dofs_per_cell (fe_f E).
            ((\<lambda>x. fluid_local_res E P t fv
                     (block0 (bv_divide (bv_minus
                        (xi\<lparr>block0 := (block0 xi)(get_dof_indices (fe_f E) fv ! j := x)\<rparr>) prev)
                        (dt P)))
                     ((block0 xi)(get_dof_indices (fe_f E) fv ! j := x)) i)
               has_real_derivative fluid_local_jacobian E P (1 / dt P) fv (block0 xi) i j)
               (at (block0 xi (get_dof_indices (fe_f E) fv ! j)))) \<and>
         ((\<lambda>x. block0 (a_residual (fluid_cell E P scal ar cdof Ref_JF True (1 / dt P) t
                   (bv_divide (bv_minus
                      (xi\<lparr>block0 := (block0 xi)(get_dof_indices (fe_f E) fv ! j := x)\<rparr>) prev)
                      (dt P))
                   (xi\<lparr>block0 := (block0 xi)(get_dof_indices (fe_f E) fv ! j := x)\<rparr>) fv a)) r)
            has_real_derivative
              (blk (a_JF (fluid_cell E P scal ar cdof Ref_JF True (1 / dt P) t
                            (bv_divide (bv_minus xi prev) (dt P)) xi fv a))
                 0 0 r (get_dof_indices (fe_f E) fv ! j)
               - blk (a_JF a) 0 0 r (get_dof_indices (fe_f E) fv ! j)))
            (at (block0 xi (get_dof_indices (fe_f E) fv ! j)))"
proof -
  let ?g = "get_dof_indices (fe_f E) fv ! j"
  have t: "block0 (bv_divide (bv_minus (xi\<lparr>block0 := (block0 xi)(?g := x)\<rparr>) prev) (dt P)) =
           (\<lambda>k. (((block0 xi)(?g := x)) k - block0 prev k) / dt P)" for x
    by (simp add: bv_divide_def bv_minus_def)
  have x: "\<lparr>block0 = block0 xi, block1 = block1 xi\<rparr> = xi" by simp
  have "((\<lambda>x. fluid_local_res E P t fv
                     (\<lambda>k. (((block0 xi)(?g := x)) k - block0 prev k) / dt P)
                     ((block0 xi)(?g := x)) i)
               has_real_derivative fluid_local_jacobian E P (1 / dt P) fv (block0 xi) i j)
               (at (block0 xi ?g))" if "i < dofs_per_cell (fe_f E)" for i
    using fluid_local_jacobian_derivative[OF that assms, of P t "block0 xi" "block0 prev" "dt P"
            "block0 xi ?g"]
    by (simp only: fun_upd_triv)
  moreover have "((\<lambda>x. block0 (a_residual (fluid_cell E P scal ar cdof Ref_JF True (1 / dt P) t
                   (bv_divide (bv_minus (xi\<lparr>block0 := (block0 xi)(?g := x)\<rparr>) prev) (dt P))
                   (xi\<lparr>block0 := (block0 xi)(?g := x)\<rparr>) fv a)) r)
            has_real_derivative
              (blk (a_JF (fluid_cell E P scal ar cdof Ref_JF True (1 / dt P) t
                            (bv_divide (bv_minus xi prev) (dt P)) xi fv a)) 0 0 r ?g
               - blk (a_JF a) 0 0 r ?g))
            (at (block0 xi ?g))"
    using fluid_cell_derivative[OF assms, of P scal ar cdof "dt P" t "block0 xi" "block1 xi" prev a r
            "block0 xi ?g"]
    by (simp only: fun_upd_triv BlockVector_block0_update x)
  ultimately show ?thesis by (simp only: t) blast
qed


theorem fluid_jacobian_exact_witness:
  "(0 :: nat) < dofs_per_cell (fe_f ex_E) \<and>
   distinct (get_dof_indices (fe_f ex_E) ex_fluid_cell) \<and>
   fluid_local_jacobian ex_E ex_par (1 / dt ex_par) ex_fluid_cell (\<lambda>_. 1) 0 0 = 7 \<and>
   ((\<lambda>x. fluid_local_res ex_E ex_par 0 ex_fluid_cell
            (block0 (bv_divide (bv_minus
               (\<lparr>block0 = (\<lambda>_. 1), block1 = (\<lambda>_. 0)\<rparr>\<lparr>block0 := (\<lambda>_. 1)(0 := x)\<rparr>) zero_vector)
               (dt ex_par)))
            ((\<lambda>_. 1)(0 := x)) 0)
      has_real_derivative 7) (at 1)"
proof -
  have h: "(0 :: nat) < dofs_per_cell (fe_f ex_E)"
    "distinct (get_dof_indices (fe_f ex_E) ex_fluid_cell)"
    by (simp_all add: ex_defs get_dof_indices_def ex_sums)
  have v: "fluid_local_jacobian ex_E ex_par (1 / dt ex_par) ex_fluid_cell (\<lambda>_. 1) 0 0 = 7"
    by (simp add: ex_defs fluid_local_jacobian_def get_function_values_def
          get_function_gradients_def get_dof_indices_def ex_sums)
  have g: "get_dof_indices (fe_f ex_E) ex_fluid_cell ! 0 = 0"
    by (simp add: ex_defs get_dof_indices_def ex_sums)
  from fluid_jacobian_exact[OF h, of ex_par 0 "\<lparr>block0 = (\<lambda>_. 1), block1 = (\<lambda>_. 0)\<rparr>" zero_vector]
  have "((\<lambda>x. fluid_local_res ex_E ex_par 0 ex_fluid_cell
            (block0 (bv_divide (bv_minus
               (\<lparr>block0 = (\<lambda>_. 1), block1 = (\<lambda>_. 0)\<rparr>\<lparr>block0 := (\<lambda>_. 1)(0 := x)\<rparr>) zero_vector)
               (dt ex_par)))
            ((\<lambda>_. 1)(0 := x)) 0)
      has_real_derivative fluid_local_jacobian ex_E ex_par (1 / dt ex_par) ex_fluid_cell (\<lambda>_. 1) 0 0)
      (at 1)"
    using h(1) by (simp add: g)
  with h v show ?thesis by simp
qed


section \<open>The deformed-configuration mapping\<close>

lemma residual_and_or_Jacobian_factored:
  "residual_and_or_Jacobian E res jacobian xit xi alpha t s =
     (let s5 = prepare E jacobian xi t s;
          a = loops E (par s5) (scaling s5) (area s5) (constraining_dof s5) jacobian
                (\<not> bsm_empty (deref jacobian s)) alpha t xit xi (the_mapping s5)
                \<lparr>a_residual = zero_vector, a_JF = JF s5, a_dummy_JF = dummy_JF s5\<rparr>
      in (a_residual a,
          s5\<lparr>A_gamma := assemble_A_gamma E (par s5) (block1 xi),
              M_gamma3_inv_A_gamma :=
                M_gamma3_inv_solve E (assemble_A_gamma E (par s5) (block1 xi)),
              JF := a_JF a, dummy_JF := a_dummy_JF a\<rparr>))"
  by (simp add: residual_and_or_Jacobian_def prepare_def loops_def Let_def the_mapping_def)






section \<open>Evaluating twice\<close>

lemma set_map_assign: "fst ` set (map_assign k v xs) = insert k (fst ` set xs)"
  by (simp add: dom_map_of_conv_image_fst[symmetric] map_of_map_assign)

lemma sorted_keys_map_assign: "sorted_keys xs \<Longrightarrow> sorted_keys (map_assign k v xs)"
proof (induction xs)
  case Nil
  then show ?case by (simp add: sorted_keys_def)
next
  case (Cons x xs)
  obtain k' v' where x: "x = (k', v')" by (cases x)
  from Cons.prems have s: "sorted_keys xs" and l: "\<forall>y \<in> fst ` set xs. k' < y"
    by (auto simp: sorted_keys_def x)
  show ?case
  proof (cases "k < k'")
    case True
    with Cons.prems l show ?thesis by (auto simp: sorted_keys_def x)
  next
    case False
    note nless = this
    show ?thesis
    proof (cases "k = k'")
      case True
      with Cons.prems show ?thesis by (auto simp: sorted_keys_def x)
    next
      case False
      with nless have "k' < k" by simp
      moreover from Cons.IH[OF s] have "sorted_wrt (<) (map fst (map_assign k v xs))"
        by (simp add: sorted_keys_def)
      moreover have "fst ` set (map_assign k v xs) = insert k (fst ` set xs)"
        by (rule set_map_assign)
      ultimately show ?thesis using nless False l
        by (auto simp: sorted_keys_def x)
    qed
  qed
qed

lemma sorted_keys_assign_all: "sorted_keys xs \<Longrightarrow> sorted_keys (assign_all as xs)"
  unfolding assign_all_def
  by (induction as arbitrary: xs) (auto simp: sorted_keys_map_assign)

lemma map_of_assign_all: "map_of (assign_all as xs) = map_of xs ++ map_of (rev as)"
  unfolding assign_all_def
proof (induction as arbitrary: xs)
  case Nil
  show ?case by simp
next
  case (Cons a as)
  obtain k v where a: "a = (k, v)" by (cases a)
  have "map_of (map_assign k v xs) ++ map_of (rev as) = map_of xs ++ ([k \<mapsto> v] ++ map_of (rev as))"
    by (auto simp: map_of_map_assign fun_eq_iff map_add_def split: option.splits)
  then show ?case by (simp add: Cons.IH a)
qed

lemma sorted_keys_unique:
  assumes "sorted_keys xs" and "sorted_keys ys" and "map_of xs = map_of ys"
  shows "xs = ys"
proof -
  from assms(1,2) have d: "distinct (map fst xs)" "distinct (map fst ys)"
    and s: "sorted (map fst xs)" "sorted (map fst ys)"
    by (simp_all add: sorted_keys_def strict_sorted_iff)
  from d assms(3) have e: "set xs = set ys" by (simp add: map_of_inject_set)
  from d(1) have "inj_on fst (set xs)" by (simp add: distinct_map)
  with e have "inj_on fst (set xs \<union> set ys)" by simp
  then show ?thesis using s(1) d(1) s(2) d(2) e by (rule map_sorted_distinct_set_unique)
qed

lemma assign_all_idem:
  assumes "sorted_keys xs"
  shows "assign_all as (assign_all as xs) = assign_all as xs"
proof (rule sorted_keys_unique)
  show "sorted_keys (assign_all as (assign_all as xs))"
    using assms by (intro sorted_keys_assign_all)
  show "sorted_keys (assign_all as xs)" using assms by (rule sorted_keys_assign_all)
  show "map_of (assign_all as (assign_all as xs)) = map_of (assign_all as xs)"
    by (auto simp: map_of_assign_all fun_eq_iff map_add_def split: option.splits)
qed

lemma compute_current_bc_assign_all:
  "compute_current_bc E t s =
     s\<lparr>par := (par s)\<lparr>boundary_values :=
          assign_all (interpolate_boundary_values E t
                      @ (if fix_pressure (par s) then [(constraining_dof s, 0)] else []))
            (boundary_values (par s))\<rparr>\<rparr>"
  by (simp add: compute_current_bc_def assign_all_def Let_def)

lemma compute_current_bc_idem:
  assumes "sorted_keys (boundary_values (par s))"
    and "par s' = par (compute_current_bc E t s)" and "constraining_dof s' = constraining_dof s"
  shows "par (compute_current_bc E t s') = par (compute_current_bc E t s)"
  using assms assign_all_idem[OF assms(1)]
  by (simp add: compute_current_bc_assign_all)


lemma fold_unchanged: "(\<And>x a. g (f x a) = g a) \<Longrightarrow> g (fold f xs a) = g a"
  by (induction xs arbitrary: a) simp_all

lemmas step_defs = fluid_cell_def coupling_cell_def solid_cell_def on_residual_def on_JF_def
  on_jacobian_def set_block_def Let_def

lemma fluid_cell_sizes:
  "sizes (fluid_cell E P scal ar cdof jacobian upd alpha t xit xi fv a) = sizes a"
  by (cases jacobian) (simp_all add: step_defs sizes_def split: prod.splits)

lemma coupling_cell_sizes:
  "sizes (coupling_cell E P scal cdof upd xi fv local_M lc a) = sizes a"
  by (simp add: step_defs sizes_def split: prod.splits)

lemma solid_cell_sizes:
  "sizes (solid_cell E P scal cdof upd alpha xit xi m MA fv a) = sizes a"
proof -
  have "sizes (fold (coupling_cell E P scal cdof upd xi fv
                       (localize MA (get_dof_indices (fe_s E) fv)))
                 (compute_point_locations E m fv) a) = sizes a"
    by (rule fold_unchanged) (rule coupling_cell_sizes)
  then show ?thesis
    by (cases upd)
       (simp_all add: solid_cell_def on_residual_def on_JF_def set_block_def Let_def sizes_def)
qed

lemma loops_sizes:
  "sizes (loops E P scal ar cdof jacobian upd alpha t xit xi m a) = sizes a"
  by (simp add: loops_def fold_unchanged[where g = sizes, OF solid_cell_sizes]
        fold_unchanged[where g = sizes, OF fluid_cell_sizes])

lemma fluid_cell_no_update:
  "matrices (fluid_cell E P scal ar cdof jacobian False alpha t xit xi fv a) = matrices a"
  by (simp add: step_defs matrices_def split: prod.splits)

lemma coupling_cell_no_update:
  "matrices (coupling_cell E P scal cdof False xi fv local_M lc a) = matrices a"
  by (simp add: step_defs matrices_def split: prod.splits)

lemma solid_cell_no_update:
  "matrices (solid_cell E P scal cdof False alpha xit xi m MA fv a) = matrices a"
proof -
  have "matrices (fold (coupling_cell E P scal cdof False xi fv
                       (localize MA (get_dof_indices (fe_s E) fv)))
                 (compute_point_locations E m fv) a) = matrices a"
    by (rule fold_unchanged) (rule coupling_cell_no_update)
  then show ?thesis
    by (simp add: solid_cell_def on_residual_def Let_def matrices_def)
qed

lemma loops_no_update:
  "matrices (loops E P scal ar cdof jacobian False alpha t xit xi m a) = matrices a"
  by (simp add: loops_def fold_unchanged[where g = matrices, OF solid_cell_no_update]
        fold_unchanged[where g = matrices, OF fluid_cell_no_update])

lemma fluid_cell_dummy:
  "a_dummy_JF (fluid_cell E P scal ar cdof Ref_JF upd alpha t xit xi fv a) = a_dummy_JF a"
  by (simp add: step_defs split: prod.splits)

lemma coupling_cell_dummy:
  "a_dummy_JF (coupling_cell E P scal cdof upd xi fv local_M lc a) = a_dummy_JF a"
  by (simp add: step_defs split: prod.splits)

lemma solid_cell_dummy:
  "a_dummy_JF (solid_cell E P scal cdof upd alpha xit xi m MA fv a) = a_dummy_JF a"
proof -
  have "a_dummy_JF (fold (coupling_cell E P scal cdof upd xi fv
                       (localize MA (get_dof_indices (fe_s E) fv)))
                 (compute_point_locations E m fv) a) = a_dummy_JF a"
    by (rule fold_unchanged) (rule coupling_cell_dummy)
  then show ?thesis
    by (cases upd) (simp_all add: solid_cell_def on_residual_def on_JF_def Let_def)
qed

lemma loops_dummy:
  "a_dummy_JF (loops E P scal ar cdof Ref_JF upd alpha t xit xi m a) = a_dummy_JF a"
  by (simp add: loops_def fold_unchanged[where g = a_dummy_JF, OF solid_cell_dummy]
        fold_unchanged[where g = a_dummy_JF, OF fluid_cell_dummy])


lemma prepare_fields:
  "par (prepare E jacobian xi t s) = par (compute_current_bc E t s)"
  "scaling (prepare E jacobian xi t s) = minimal_cell_diameter (dh_f E)"
  "area (prepare E jacobian xi t s) = area s"
  "constraining_dof (prepare E jacobian xi t s) = constraining_dof s"
  "previous_xi (prepare E jacobian xi t s) = previous_xi s"
  "the_mapping (prepare E jacobian xi t s) = new_object xi s"
  "sparsity (prepare E jacobian xi t s) =
     (if \<not> bsm_empty (deref jacobian s)
      then assemble_sparsity E (new_object xi s) (sparsity s) else sparsity s)"
  "JF (prepare E jacobian xi t s) =
     (if \<not> bsm_empty (deref jacobian s) \<and> jacobian = Ref_JF
      then bsm_reinit (assemble_sparsity E (new_object xi s) (sparsity s)) else JF s)"
  "dummy_JF (prepare E jacobian xi t s) =
     (if \<not> bsm_empty (deref jacobian s) \<and> jacobian = Ref_dummy_JF
      then bsm_reinit (assemble_sparsity E (new_object xi s) (sparsity s)) else dummy_JF s)"
  by (cases jacobian;
      simp add: prepare_def Let_def compute_current_bc_def assign_ref_def new_mapping_def
        delete_mapping_def the_mapping_def new_object_def deref_def split: option.splits)+

lemma assemble_sparsity_idem:
  "assemble_sparsity E m (assemble_sparsity E m sp) = assemble_sparsity E m sp"
  by (simp add: assemble_sparsity_def Let_def cong: if_cong)

lemma assemble_sparsity_sizes:
  "sp_size0 (assemble_sparsity E m sp) = sp_size0 sp \<and>
   sp_size1 (assemble_sparsity E m sp) = sp_size1 sp"
  by (simp add: assemble_sparsity_def Let_def)


text \<open>
  C9.  Two evaluations in succession with the same \<open>xit\<close>, \<open>xi\<close>, \<open>alpha\<close> and \<open>t\<close>, the second
  on the object the first leaves, return the same residual and leave the same Jacobian,
  sparsity pattern, \<open>A_gamma\<close> and \<open>M_gamma3_inv_A_gamma\<close>, whatever the residual vector
  passed in holds.  The object is as the class keeps it: the map of boundary values is
  well formed, \<open>dummy_JF\<close> is empty, and a Jacobian that is not empty has the size of a
  sparsity pattern that is not empty.
\<close>

theorem evaluation_idempotent:
  assumes bv: "sorted_keys (boundary_values (par s))"
    and dummy: "bsm_empty (dummy_JF s)"
    and sp: "\<not> bsm_empty (JF s) \<longrightarrow> sp_size0 (sparsity s) \<noteq> 0 \<or> sp_size1 (sparsity s) \<noteq> 0"
  shows "let (r1, s1) = residual_and_or_Jacobian E res jacobian xit xi alpha t s;
             (r2, s2) = residual_and_or_Jacobian E res' jacobian xit xi alpha t s1
         in r2 = r1 \<and> JF s2 = JF s1 \<and> dummy_JF s2 = dummy_JF s1 \<and> sparsity s2 = sparsity s1 \<and>
            A_gamma s2 = A_gamma s1 \<and> M_gamma3_inv_A_gamma s2 = M_gamma3_inv_A_gamma s1 \<and>
            par s2 = par s1 \<and> scaling s2 = scaling s1"
proof -
  define upd where "upd = (\<not> bsm_empty (deref jacobian s))"
  define s5 where "s5 = prepare E jacobian xi t s"
  define a0 where "a0 = \<lparr>a_residual = zero_vector, a_JF = JF s5, a_dummy_JF = dummy_JF s5\<rparr>"
  define a where "a = loops E (par s5) (scaling s5) (area s5) (constraining_dof s5) jacobian
                upd alpha t xit xi (the_mapping s5) a0"
  define s1 where "s1 = s5\<lparr>A_gamma := assemble_A_gamma E (par s5) (block1 xi),
              M_gamma3_inv_A_gamma :=
                M_gamma3_inv_solve E (assemble_A_gamma E (par s5) (block1 xi)),
              JF := a_JF a, dummy_JF := a_dummy_JF a\<rparr>"
  define s5' where "s5' = prepare E jacobian xi t s1"
  have first: "residual_and_or_Jacobian E res jacobian xit xi alpha t s = (a_residual a, s1)"
    by (simp add: residual_and_or_Jacobian_factored Let_def s1_def a_def a0_def s5_def upd_def)
  have s1_fields: "par s1 = par s5" "constraining_dof s1 = constraining_dof s"
    "previous_xi s1 = previous_xi s" "area s1 = area s" "sparsity s1 = sparsity s5"
    "JF s1 = a_JF a" "dummy_JF s1 = a_dummy_JF a" "scaling s1 = scaling s5"
    "A_gamma s1 = assemble_A_gamma E (par s5) (block1 xi)"
    "M_gamma3_inv_A_gamma s1 = M_gamma3_inv_solve E (assemble_A_gamma E (par s5) (block1 xi))"
    by (simp_all add: s1_def s5_def prepare_fields)
  have par5: "par s5 = par (compute_current_bc E t s)" by (simp add: s5_def prepare_fields)
  have static: "degree (par s5) = degree (par s)" "semi_implicit (par s5) = semi_implicit (par s)"
    by (simp_all add: par5 compute_current_bc_def Let_def)
  have obj: "new_object xi s1 = new_object xi s"
    by (simp add: new_object_def s1_fields static)
  have sz: "sizes a = sizes a0" by (simp add: a_def loops_sizes)
  have mats: "deref jacobian s1 = deref jacobian s5 \<and> JF s1 = JF s5 \<and> dummy_JF s1 = dummy_JF s5"
    if "\<not> upd"
    using that loops_no_update[of E "par s5" "scaling s5" "area s5" "constraining_dof s5" jacobian
             alpha t xit xi "the_mapping s5" a0]
    by (cases jacobian) (simp_all add: a_def a0_def matrices_def s1_fields deref_def)
  have upd': "(\<not> bsm_empty (deref jacobian s1)) = upd"
  proof (cases upd)
    case True
    with dummy have j: "jacobian = Ref_JF" by (cases jacobian) (simp_all add: upd_def deref_def)
    from True j sp have "sp_size0 (sparsity s) \<noteq> 0 \<or> sp_size1 (sparsity s) \<noteq> 0"
      by (simp add: upd_def deref_def)
    then have "\<not> bsm_empty (a_JF a)"
      using sz True j
      by (simp add: sizes_def a0_def s5_def prepare_fields upd_def bsm_empty_def bsm_reinit_def
            assemble_sparsity_sizes)
    with True j show ?thesis by (simp add: deref_def s1_fields)
  next
    case False
    from mats[OF False] have "deref jacobian s1 = deref jacobian s5" by simp
    also have "\<dots> = deref jacobian s"
      using False by (cases jacobian) (simp_all add: s5_def prepare_fields deref_def upd_def)
    finally show ?thesis using False by (simp add: upd_def)
  qed
  have par5': "par s5' = par s5"
    unfolding s5'_def prepare_fields par5
    by (rule compute_current_bc_idem[OF bv]) (simp_all add: s1_fields par5)
  have mats5: "JF s5' = JF s5 \<and> dummy_JF s5' = dummy_JF s5 \<and> sparsity s5' = sparsity s5"
  proof (cases upd)
    case True
    with dummy have j: "jacobian = Ref_JF" by (cases jacobian) (simp_all add: upd_def deref_def)
    have "a_dummy_JF a = dummy_JF s5" by (simp add: a_def j loops_dummy a0_def)
    then show ?thesis
      using True j upd' obj
      by (simp add: s5'_def prepare_fields s1_fields assemble_sparsity_idem)
         (simp add: s5_def prepare_fields upd_def assemble_sparsity_idem)
  next
    case False
    with mats[OF False] upd' show ?thesis
      by (simp add: s5'_def prepare_fields s1_fields)
  qed
  have loops_args: "scaling s5' = scaling s5" "area s5' = area s5"
    "constraining_dof s5' = constraining_dof s5" "the_mapping s5' = the_mapping s5"
    by (simp_all add: s5'_def s5_def prepare_fields s1_fields obj)
  have second: "residual_and_or_Jacobian E res' jacobian xit xi alpha t s1 =
      (a_residual a,
       s5'\<lparr>A_gamma := assemble_A_gamma E (par s5) (block1 xi),
              M_gamma3_inv_A_gamma :=
                M_gamma3_inv_solve E (assemble_A_gamma E (par s5) (block1 xi)),
              JF := a_JF a, dummy_JF := a_dummy_JF a\<rparr>)"
    using mats5
    by (simp add: residual_and_or_Jacobian_factored Let_def s5'_def[symmetric] upd' par5' loops_args
          a_def a0_def)
  show ?thesis
    using mats5 by (simp add: first second s1_fields par5' loops_args)
qed

theorem evaluation_idempotent_witness:
  "sorted_keys (boundary_values (par ex_state)) \<and> bsm_empty (dummy_JF ex_state) \<and>
   \<not> bsm_empty (JF ex_state) \<and> sp_size0 (sparsity ex_state) \<noteq> 0 \<and>
   (let (r1, s1) = residual_and_or_Jacobian ex_E zero_vector Ref_JF zero_vector
                     \<lparr>block0 = (\<lambda>_. 1), block1 = (\<lambda>_. 2)\<rparr> 1 1 ex_state;
        (r2, s2) = residual_and_or_Jacobian ex_E \<lparr>block0 = (\<lambda>_. 5), block1 = (\<lambda>_. 6)\<rparr> Ref_JF
                     zero_vector \<lparr>block0 = (\<lambda>_. 1), block1 = (\<lambda>_. 2)\<rparr> 1 1 s1
    in r2 = r1 \<and> JF s2 = JF s1 \<and> sparsity s2 = sparsity s1 \<and> A_gamma s2 = A_gamma s1)"
proof -
  have h: "sorted_keys (boundary_values (par ex_state))" "bsm_empty (dummy_JF ex_state)"
    "\<not> bsm_empty (JF ex_state) \<longrightarrow>
       sp_size0 (sparsity ex_state) \<noteq> 0 \<or> sp_size1 (sparsity ex_state) \<noteq> 0"
    "\<not> bsm_empty (JF ex_state)" "sp_size0 (sparsity ex_state) \<noteq> 0"
    by (simp_all add: ex_defs sorted_keys_def bsm_empty_def)
  from evaluation_idempotent[OF h(1,2,3), of ex_E zero_vector Ref_JF zero_vector
         "\<lparr>block0 = (\<lambda>_. 1), block1 = (\<lambda>_. 2)\<rparr>" 1 1 "\<lparr>block0 = (\<lambda>_. 5), block1 = (\<lambda>_. 6)\<rparr>"]
  show ?thesis using h by (simp add: Let_def split: prod.splits)
qed



section \<open>The residual of the state at rest\<close>

lemma apply_constraints_beyond:
  "length dofs \<le> k \<Longrightarrow> fst (apply_constraints P scal cdof lres J w dofs) k = lres k"
  using fold_constrain_dof_other[of k "[0..<length dofs]" P scal cdof w dofs "(lres, J)"]
  by (simp add: apply_constraints_def)

lemma fluid_cell_block1:
  "block1 (a_residual (fluid_cell E P scal ar cdof jacobian upd alpha t xit xi fv a)) =
     block1 (a_residual a)"
  by (cases jacobian) (simp_all add: step_defs split: prod.splits)

lemma coupling_cell_residual0:
  "block0 (a_residual (coupling_cell E P scal cdof upd xi fv local_M lc a)) r =
     block0 (a_residual a) r
     + (\<Sum>i<dofs_per_cell (fe_f E).
          if get_dof_indices (fe_f E) (local_fe_f_v lc) ! i = r
          then constrained_res P scal cdof (coupling_V_local_res E P fv lc (block1 xi) local_M)
                 (block0 xi) (get_dof_indices (fe_f E) (local_fe_f_v lc)) i
          else 0)"
proof -
  let ?dofs = "get_dof_indices (fe_f E) (local_fe_f_v lc)"
  let ?lres = "coupling_V_local_res E P fv lc (block1 xi) local_M"
  let ?J = "local_matrix E upd (coupling_V_local_jacobian E P fv lc (block1 xi))"
  obtain lr lj where ac: "apply_constraints P scal cdof ?lres ?J (block0 xi) ?dofs = (lr, lj)"
    by (cases "apply_constraints P scal cdof ?lres ?J (block0 xi) ?dofs")
  have lr: "lr i = constrained_res P scal cdof ?lres (block0 xi) ?dofs i"
    if "i < dofs_per_cell (fe_f E)" for i
    using apply_constraints_entry(1)[of i ?dofs P scal cdof ?lres ?J "block0 xi"] ac that
    by (simp add: constrained_res_def)
  have "(\<Sum>i<dofs_per_cell (fe_f E). if ?dofs ! i = r' then lr (0 + i) else 0) =
        (\<Sum>i<dofs_per_cell (fe_f E). if ?dofs ! i = r'
           then constrained_res P scal cdof ?lres (block0 xi) ?dofs i else 0)" for r'
    by (rule sum.cong) (simp_all add: lr)
  then have "distribute_residual R lr ?dofs 0 r' = R r' +
        (\<Sum>i<dofs_per_cell (fe_f E). if ?dofs ! i = r'
           then constrained_res P scal cdof ?lres (block0 xi) ?dofs i else 0)" for R r'
    by (simp only: distribute_residual_entry length_get_dof_indices)
  then show ?thesis
    using ac by (simp add: step_defs split: prod.splits)
qed

lemma coupling_cell_residual1:
  "block1 (a_residual (coupling_cell E P scal cdof upd xi fv local_M lc a)) r =
     block1 (a_residual a) r
     + (\<Sum>i<dofs_per_cell (fe_s E).
          if get_dof_indices (fe_s E) fv ! i = r
          then coupling_Y_local_res E P fv lc (block0 xi) (dofs_per_cell (fe_f E) + i)
          else 0)"
proof -
  let ?dofs = "get_dof_indices (fe_f E) (local_fe_f_v lc)"
  let ?lres = "coupling_Y_local_res E P fv lc (block0 xi)"
  let ?J = "local_matrix E upd (coupling_Y_local_jacobian E P fv lc (block0 xi))"
  obtain lr lj where ac: "apply_constraints P scal cdof ?lres ?J (block0 xi) ?dofs = (lr, lj)"
    by (cases "apply_constraints P scal cdof ?lres ?J (block0 xi) ?dofs")
  have lr: "lr (dofs_per_cell (fe_f E) + i) = ?lres (dofs_per_cell (fe_f E) + i)" for i
    using apply_constraints_beyond[of ?dofs "dofs_per_cell (fe_f E) + i" P scal cdof ?lres ?J
            "block0 xi"] ac
    by simp
  have "distribute_residual R lr (get_dof_indices (fe_s E) fv) (dofs_per_cell (fe_f E)) r' = R r' +
        (\<Sum>i<dofs_per_cell (fe_s E). if get_dof_indices (fe_s E) fv ! i = r'
           then ?lres (dofs_per_cell (fe_f E) + i) else 0)" for R r'
    by (simp only: distribute_residual_entry length_get_dof_indices lr)
  then show ?thesis
    using ac by (simp add: step_defs split: prod.splits)
qed

lemma solid_cell_residual:
  "block0 (a_residual (solid_cell E P scal cdof upd alpha xit xi m MA fv a)) =
     block0 (a_residual (fold (coupling_cell E P scal cdof upd xi fv
                                 (localize MA (get_dof_indices (fe_s E) fv)))
                           (compute_point_locations E m fv) a))"
  "block1 (a_residual (solid_cell E P scal cdof upd alpha xit xi m MA fv a)) r =
     block1 (a_residual (fold (coupling_cell E P scal cdof upd xi fv
                                 (localize MA (get_dof_indices (fe_s E) fv)))
                           (compute_point_locations E m fv) a)) r
     + (\<Sum>i<dofs_per_cell (fe_s E).
          if get_dof_indices (fe_s E) fv ! i = r
          then inertia_local_res E P fv (block1 xit) (dofs_per_cell (fe_f E) + i)
          else 0)"
  by (simp_all add: solid_cell_def on_residual_def on_JF_def Let_def distribute_residual_entry)

lemma get_function_values_zero [simp]: "get_function_values fe fv (\<lambda>_. 0) q c = 0"
  by (simp add: get_function_values_def cong: if_cong)

lemma get_function_gradients_zero [simp]: "get_function_gradients fe fv (\<lambda>_. 0) q c d = 0"
  by (simp add: get_function_gradients_def cong: if_cong)

lemma fluid_local_res_zero:
  "\<forall>p c. force P t p c = 0 \<Longrightarrow> fluid_local_res E P t fv (\<lambda>_. 0) (\<lambda>_. 0) i = 0"
  by (simp add: fluid_local_res_def Let_def cong: if_cong)

lemma local_average_pressure_zero: "local_average_pressure E P fv (\<lambda>_. 0) = 0"
  by (simp add: local_average_pressure_def cong: if_cong)

lemma coupling_Y_local_res_zero: "coupling_Y_local_res E P fv lc (\<lambda>_. 0) wi = 0"
  by (simp add: coupling_Y_local_res_def Let_def cong: if_cong)

lemma inertia_local_res_zero: "inertia_local_res E P fv (\<lambda>_. 0) wi = 0"
  by (simp add: inertia_local_res_def Let_def cong: if_cong)

lemma deformation_gradient_zero:
  "deformation_gradient E fv (\<lambda>_. 0) qs i j = (if i = j then 1 else 0)"
  by (simp add: deformation_gradient_def)

lemma invert_identity:
  assumes "n = 2 \<or> n = 3" and "j < n"
  shows "invert n (\<lambda>i j. if i = j then 1 else 0) j i = (if i = j then 1 else 0)"
  using assms by (auto simp: invert_def cofactors_def determinant_def)

lemma get_Pe_INH_0_zero:
  assumes "material_model P = INH_0" and "dim E = 2 \<or> dim E = 3" and "j < dim E"
  shows "get_Pe E P fv (\<lambda>_. 0) qs i j = 0"
proof -
  have "deformation_gradient E fv (\<lambda>_. 0) qs = (\<lambda>i j. if i = j then 1 else 0)"
    by (simp add: fun_eq_iff deformation_gradient_zero)
  then show ?thesis
    using assms invert_identity[OF assms(2,3), of i]
    by (simp add: get_Pe_def Let_def transpose_t_def)
qed

lemma PeFT_at_INH_0_zero:
  assumes "material_model P = INH_0" and "dim E = 2 \<or> dim E = 3"
  shows "PeFT_at E P fv (\<lambda>_. 0) qs i j = 0"
  using assms by (simp add: PeFT_at_def contract11_def get_Pe_INH_0_zero)

lemma distribute_residual_zero:
  "(\<And>k. lr k = 0) \<Longrightarrow> distribute_residual R lr dofs off = R"
  by (simp add: fun_eq_iff distribute_residual_entry cong: if_cong)

lemma fold_add_zero:
  "(\<And>x k. x \<in> set xs \<Longrightarrow> g x k = 0) \<Longrightarrow>
   fold (\<lambda>x A. distribute_residual A (g x) (d x) 0) xs (\<lambda>_. 0) = (\<lambda>_. 0 :: real)"
  by (induction xs) (simp_all add: distribute_residual_zero)

lemma assemble_A_gamma_INH_0_zero:
  assumes "material_model P = INH_0" and "dim E = 2 \<or> dim E = 3"
  shows "assemble_A_gamma E P (\<lambda>_. 0) = (\<lambda>_. 0)"
  unfolding assemble_A_gamma_def
  by (rule fold_add_zero)
     (simp add: get_Agamma_values_def dot_def get_Pe_INH_0_zero[OF assms] cong: if_cong)

lemma coupling_V_local_res_INH_0_zero:
  assumes "material_model P = INH_0" and "dim E = 2 \<or> dim E = 3"
  shows "coupling_V_local_res E P fv lc (\<lambda>_. 0) (localize (\<lambda>_. 0) dofs) i = 0"
  by (simp add: coupling_V_local_res_def Let_def dot_def PeFT_at_INH_0_zero[OF assms]
        localize_def cong: if_cong)

lemma M_gamma3_inv_solve_zero: "M_gamma3_inv_solve E (\<lambda>_. 0) = (\<lambda>_. 0)"
  by (simp add: M_gamma3_inv_solve_def fun_eq_iff)

lemma fold_invariant:
  "(\<And>x a. x \<in> set xs \<Longrightarrow> Q a \<Longrightarrow> Q (f x a)) \<Longrightarrow> Q a \<Longrightarrow> Q (fold f xs a)"
  by (induction xs arbitrary: a) simp_all

lemma constrained_res_outside:
  "dofs ! i \<notin> fst ` set (boundary_values P) \<Longrightarrow>
     constrained_res P scal cdof lres w dofs i =
       (if all_DBC P \<and> \<not> fix_pressure P \<and> dofs ! i = cdof then 0 else lres i)"
  by (auto simp: constrained_res_def map_of_eq_None_iff[symmetric] simp del: map_of_eq_None_iff
        split: option.splits)

lemma coupling_V_local_res_support:
  "coupling_V_local_res E P fv lc xs lm i \<noteq> 0 \<Longrightarrow>
     i < dofs_per_cell (fe_f E) \<and> component (fe_f E) i < dim E"
  by (simp add: coupling_V_local_res_def Let_def split: if_splits)

lemma fluid_cell_quiet:
  assumes "\<forall>p c. force P t p c = 0" and "quiet (fst ` set (boundary_values P)) live C a"
  shows "quiet (fst ` set (boundary_values P)) live C
           (fluid_cell E P scal ar cdof jacobian upd alpha t zero_vector zero_vector fv a)"
proof -
  have "block0 (a_residual (fluid_cell E P scal ar cdof jacobian upd alpha t zero_vector
            zero_vector fv a)) k = block0 (a_residual a) k"
    if "k \<notin> fst ` set (boundary_values P)" for k
  proof -
    have "(\<Sum>i<dofs_per_cell (fe_f E).
          if get_dof_indices (fe_f E) fv ! i = k
          then constrained_res P scal cdof (fluid_local_res E P t fv (\<lambda>_. 0) (\<lambda>_. 0))
                 (\<lambda>_. 0) (get_dof_indices (fe_f E) fv) i
          else 0) = 0"
      using that
      by (intro sum.neutral ballI)
         (simp add: constrained_res_outside fluid_local_res_zero[OF assms(1)])
    then show ?thesis
      by (simp add: fluid_cell_residual_entry zero_vector_def local_average_pressure_zero
            cong: if_cong)
  qed
  with assms(2) show ?thesis
    by (auto simp: quiet_def fluid_cell_block1)
qed

lemma coupling_cell_quiet:
  assumes q: "quiet (fst ` set (boundary_values P)) live C a"
    and dead: "\<not> live \<Longrightarrow> \<forall>i. coupling_V_local_res E P fv lc (\<lambda>_. 0) local_M i = 0"
    and C: "\<And>i. i < dofs_per_cell (fe_f E) \<Longrightarrow> component (fe_f E) i < dim E \<Longrightarrow>
               get_dof_indices (fe_f E) (local_fe_f_v lc) ! i \<in> C"
  shows "quiet (fst ` set (boundary_values P)) live C
           (coupling_cell E P scal cdof upd zero_vector fv local_M lc a)"
proof -
  let ?a' = "coupling_cell E P scal cdof upd zero_vector fv local_M lc a"
  let ?dofs = "get_dof_indices (fe_f E) (local_fe_f_v lc)"
  let ?lres = "coupling_V_local_res E P fv lc (\<lambda>_. 0) local_M"
  have b1: "block1 (a_residual ?a') k = 0" for k
    using q by (simp add: coupling_cell_residual1 zero_vector_def coupling_Y_local_res_zero
                  quiet_def cong: if_cong)
  have b0: "k \<in> fst ` set (boundary_values P) \<or> (live \<and> k \<in> C)"
    if nz: "block0 (a_residual ?a') k \<noteq> 0" for k
  proof (rule ccontr)
    assume n: "\<not> (k \<in> fst ` set (boundary_values P) \<or> (live \<and> k \<in> C))"
    with q have old: "block0 (a_residual a) k = 0" by (auto simp: quiet_def)
    have "(if ?dofs ! i = k
           then constrained_res P scal cdof ?lres (\<lambda>_. 0) ?dofs i else 0) = 0"
      if i: "i < dofs_per_cell (fe_f E)" for i
    proof (cases "?dofs ! i = k \<and> ?lres i \<noteq> 0")
      case True
      then have "component (fe_f E) i < dim E" using coupling_V_local_res_support by blast
      with C[OF i] True have "k \<in> C" by simp
      moreover from True dead have live by blast
      ultimately show ?thesis using n by simp
    next
      case False
      with n show ?thesis by (auto simp: constrained_res_outside)
    qed
    then have "(\<Sum>i<dofs_per_cell (fe_f E). if ?dofs ! i = k
           then constrained_res P scal cdof ?lres (\<lambda>_. 0) ?dofs i else 0) = 0"
      by (intro sum.neutral ballI) simp
    with old nz show False
      by (simp add: coupling_cell_residual0 zero_vector_def cong: if_cong)
  qed
  from b0 b1 show ?thesis unfolding quiet_def by blast
qed


lemma solid_cell_quiet:
  assumes q: "quiet (fst ` set (boundary_values P)) live (coupled_velocity_dofs E m) a"
    and cell: "fv \<in> set (dh_s E)"
    and dead: "\<not> live \<Longrightarrow>
                 \<forall>lc i. coupling_V_local_res E P fv lc (\<lambda>_. 0)
                          (localize MA (get_dof_indices (fe_s E) fv)) i = 0"
  shows "quiet (fst ` set (boundary_values P)) live (coupled_velocity_dofs E m)
           (solid_cell E P scal cdof upd alpha zero_vector zero_vector m MA fv a)"
proof -
  let ?K = "fst ` set (boundary_values P)"
  let ?C = "coupled_velocity_dofs E m"
  let ?a' = "fold (coupling_cell E P scal cdof upd zero_vector fv
                     (localize MA (get_dof_indices (fe_s E) fv)))
               (compute_point_locations E m fv) a"
  have "quiet ?K live ?C ?a'"
  proof (rule fold_invariant[where Q = "quiet ?K live ?C"])
    show "quiet ?K live ?C a" by (rule q)
  next
    fix lc b
    assume lc: "lc \<in> set (compute_point_locations E m fv)" and b: "quiet ?K live ?C b"
    show "quiet ?K live ?C (coupling_cell E P scal cdof upd zero_vector fv
                     (localize MA (get_dof_indices (fe_s E) fv)) lc b)"
    proof (rule coupling_cell_quiet[OF b])
      show "\<forall>i. coupling_V_local_res E P fv lc (\<lambda>_. 0)
                   (localize MA (get_dof_indices (fe_s E) fv)) i = 0" if "\<not> live"
        using dead[OF that] by blast
    next
      fix i assume "i < dofs_per_cell (fe_f E)" "component (fe_f E) i < dim E"
      with cell lc show "get_dof_indices (fe_f E) (local_fe_f_v lc) ! i \<in> ?C"
        unfolding coupled_velocity_dofs_def by blast
    qed
  qed
  then show ?thesis
    by (simp add: quiet_def solid_cell_residual zero_vector_def inertia_local_res_zero
          cong: if_cong)
qed

lemma loops_quiet:
  assumes f: "\<forall>p c. force P t p c = 0" and d: "dim E = 2 \<or> dim E = 3"
  shows "quiet (fst ` set (boundary_values P)) (material_model P \<noteq> INH_0)
           (coupled_velocity_dofs E m)
           (loops E P scal ar cdof jacobian upd alpha t zero_vector zero_vector m
              \<lparr>a_residual = zero_vector, a_JF = A, a_dummy_JF = B\<rparr>)"
proof -
  let ?K = "fst ` set (boundary_values P)"
  let ?C = "coupled_velocity_dofs E m"
  let ?live = "material_model P \<noteq> INH_0"
  have "quiet ?K ?live ?C \<lparr>a_residual = zero_vector, a_JF = A, a_dummy_JF = B\<rparr>"
    by (simp add: quiet_def zero_vector_def)
  then have "quiet ?K ?live ?C
      (fold (fluid_cell E P scal ar cdof jacobian upd alpha t zero_vector zero_vector) (dh_f E)
         \<lparr>a_residual = zero_vector, a_JF = A, a_dummy_JF = B\<rparr>)"
    by (rule fold_invariant[where Q = "quiet ?K ?live ?C", rotated]) (rule fluid_cell_quiet[OF f])
  then show ?thesis
    unfolding loops_def
  proof (rule fold_invariant[where Q = "quiet ?K ?live ?C", rotated])
    fix fv b
    assume fv: "fv \<in> set (dh_s E)" and b: "quiet ?K ?live ?C b"
    show "quiet ?K ?live ?C
            (solid_cell E P scal cdof upd alpha zero_vector zero_vector m
               (M_gamma3_inv_solve E (assemble_A_gamma E P (block1 zero_vector))) fv b)"
    proof (rule solid_cell_quiet[OF b fv])
      assume "\<not> ?live"
      then have i: "material_model P = INH_0" by simp
      show "\<forall>lc i. coupling_V_local_res E P fv lc (\<lambda>_. 0)
               (localize (M_gamma3_inv_solve E (assemble_A_gamma E P (block1 zero_vector)))
                  (get_dof_indices (fe_s E) fv)) i = 0"
        by (simp add: zero_vector_def assemble_A_gamma_INH_0_zero[OF i d]
              M_gamma3_inv_solve_zero coupling_V_local_res_INH_0_zero[OF i d])
    qed
  qed
qed

text \<open>With all boundary conditions essential and the pressure not fixed, the loops leave zero
  in the row of the pressure-pinning dof when the pressure is zero: the constraint pass
  overwrites the entry of that dof in every local residual, and the average pressure
  vanishes.\<close>

lemma fluid_cell_pin:
  assumes "all_DBC P" and "\<not> fix_pressure P" and "block0 (a_residual a) cdof = 0"
  shows "block0 (a_residual (fluid_cell E P scal ar cdof jacobian upd alpha t xit zero_vector
                               fv a)) cdof = 0"
  using assms
  by (simp add: fluid_cell_residual_entry constrained_res_def zero_vector_def
        local_average_pressure_zero cong: if_cong)

lemma coupling_cell_pin:
  assumes "all_DBC P" and "\<not> fix_pressure P" and "block0 (a_residual a) cdof = 0"
  shows "block0 (a_residual (coupling_cell E P scal cdof upd xi fv local_M lc a)) cdof = 0"
  using assms
  by (simp add: coupling_cell_residual0 constrained_res_def cong: if_cong)

lemma solid_cell_pin:
  assumes p: "all_DBC P" "\<not> fix_pressure P" and a: "block0 (a_residual a) cdof = 0"
  shows "block0 (a_residual (solid_cell E P scal cdof upd alpha xit xi m MA fv a)) cdof = 0"
proof -
  have "block0 (a_residual (fold (coupling_cell E P scal cdof upd xi fv
                                    (localize MA (get_dof_indices (fe_s E) fv)))
                              (compute_point_locations E m fv) a)) cdof = 0"
    by (rule fold_invariant[where Q = "\<lambda>a. block0 (a_residual a) cdof = 0", rotated, OF a])
       (rule coupling_cell_pin[OF p])
  then show ?thesis by (simp add: solid_cell_residual)
qed

lemma loops_pin:
  assumes p: "all_DBC P" "\<not> fix_pressure P"
  shows "block0 (a_residual (loops E P scal ar cdof jacobian upd alpha t xit zero_vector m
              \<lparr>a_residual = zero_vector, a_JF = A, a_dummy_JF = B\<rparr>)) cdof = 0"
proof -
  let ?Q = "\<lambda>a. block0 (a_residual a) cdof = 0"
  have "?Q \<lparr>a_residual = zero_vector, a_JF = A, a_dummy_JF = B\<rparr>"
    by (simp add: zero_vector_def)
  then have "?Q (fold (fluid_cell E P scal ar cdof jacobian upd alpha t xit zero_vector) (dh_f E)
         \<lparr>a_residual = zero_vector, a_JF = A, a_dummy_JF = B\<rparr>)"
    by (rule fold_invariant[where Q = ?Q, rotated]) (rule fluid_cell_pin[OF p])
  then show ?thesis
    unfolding loops_def
    by (rule fold_invariant[where Q = ?Q, rotated]) (rule solid_cell_pin[OF p])
qed

text \<open>C1.  With \<open>\<xi> = 0\<close>, \<open>\<xi>' = 0\<close> and no body force, in two or three dimensions, the
  second block of the residual is zero, and an entry of the first block can be nonzero only
  at a row of the prescribed-boundary-value map or, when the material law is not
  \<^verbatim>\<open>INH_0\<close>, at a velocity dof of a fluid cell that contains a quadrature point of the
  solid: the laws \<^verbatim>\<open>INH_1\<close> and \<^verbatim>\<open>CircumferentialFiberModel\<close> give a stress that does not
  vanish at \<open>F = I\<close>.  When all boundary conditions are essential and the pressure is not
  fixed, the row of the pressure-pinning dof is zero in this state, also where that dof is
  a key of the map.\<close>

theorem zero_state_residual:
  assumes "\<forall>p c. force (par s) t p c = 0" and "dim E = 2 \<or> dim E = 3"
  shows "let (r, s') = residual_and_or_Jacobian E res jacobian zero_vector zero_vector alpha t s
         in (\<forall>k. block1 r k = 0) \<and>
            (\<forall>k. block0 r k \<noteq> 0 \<longrightarrow>
                 k \<in> fst ` set (boundary_values (par s')) \<or>
                 (material_model (par s) \<noteq> INH_0 \<and>
                  k \<in> coupled_velocity_dofs E (the_mapping s'))) \<and>
            (all_DBC (par s) \<and> \<not> fix_pressure (par s) \<longrightarrow>
               block0 r (constraining_dof s) = 0)"
proof -
  let ?s5 = "prepare E jacobian zero_vector t s"
  have p: "force (par ?s5) = force (par s)" "material_model (par ?s5) = material_model (par s)"
    "all_DBC (par ?s5) = all_DBC (par s)" "fix_pressure (par ?s5) = fix_pressure (par s)"
    by (simp_all add: prepare_fields compute_current_bc_def Let_def)
  from assms(1) p have f: "\<forall>p c. force (par ?s5) t p c = 0" by simp
  have pin: "block0 (a_residual (loops E (par ?s5) (scaling ?s5) (area ?s5) (constraining_dof ?s5)
                jacobian (\<not> bsm_empty (deref jacobian s)) alpha t zero_vector zero_vector
                (the_mapping ?s5) \<lparr>a_residual = zero_vector, a_JF = JF ?s5, a_dummy_JF = dummy_JF ?s5\<rparr>))
              (constraining_dof s) = 0"
    if "all_DBC (par s)" "\<not> fix_pressure (par s)"
    using loops_pin[of "par ?s5" E "scaling ?s5" "area ?s5" "constraining_dof ?s5"] that p
    by (simp add: prepare_fields)
  from loops_quiet[OF f assms(2), where scal = "scaling ?s5" and ar = "area ?s5"
      and cdof = "constraining_dof ?s5" and jacobian = jacobian
      and upd = "\<not> bsm_empty (deref jacobian s)" and alpha = alpha and m = "the_mapping ?s5"
      and A = "JF ?s5" and B = "dummy_JF ?s5"] pin
  show ?thesis
    by (simp add: residual_and_or_Jacobian_factored Let_def quiet_def p the_mapping_def)
qed

lemma ex_bv:
  "boundary_values (par (snd (residual_and_or_Jacobian ex_E zero_vector Ref_dummy_JF zero_vector
      zero_vector 0 0 ex_state))) = [(0, 0)]"
  by (simp add: residual_and_or_Jacobian_factored Let_def prepare_fields compute_current_bc_def
        ex_state_def ex_par_def ex_E_def)

theorem zero_state_residual_counterexample:
  "force (par ex_state) = (\<lambda>_ _ _. 0) \<and>
   material_model (par ex_state) = INH_1 \<and>
   \<not> (all_DBC (par ex_state) \<and> \<not> fix_pressure (par ex_state)) \<and>
   1 \<notin> fst ` set (boundary_values (par (snd (residual_and_or_Jacobian ex_E zero_vector
           Ref_dummy_JF zero_vector zero_vector 0 0 ex_state)))) \<and>
   block0 (fst (residual_and_or_Jacobian ex_E zero_vector Ref_dummy_JF zero_vector zero_vector
           0 0 ex_state)) 1 = 1"
proof -
  have P: "par (prepare ex_E Ref_dummy_JF zero_vector 0 ex_state) = ex_par\<lparr>boundary_values := [(0, 0)]\<rparr>"
    by (simp add: prepare_fields compute_current_bc_def Let_def ex_state_def ex_par_def ex_E_def)
  have f: "\<forall>p c. force (ex_par\<lparr>boundary_values := [(0, 0)]\<rparr>) 0 p c = 0"
    by (simp add: ex_par_def)
  have dofs: "get_dof_indices (fe_f ex_E) ex_fluid_cell = [0, 1, 2]"
    by (simp add: get_dof_indices_def ex_E_def ex_fe_f_def ex_fluid_cell_def ex_sums)
  have V: "coupling_V_local_res ex_E (ex_par\<lparr>boundary_values := [(0, 0)]\<rparr>) ex_solid_cell
             \<lparr>local_fe_f_v = ex_fluid_cell, fluid_map = [0]\<rparr> (\<lambda>_. 0) lm (Suc 0) = 1" for lm
    by (simp add: coupling_V_local_res_def PeFT_at_def get_Pe_def deformation_gradient_zero
          contract11_def dot_def Let_def ex_par_def ex_E_def ex_fe_f_def ex_fe_s_def
          ex_fluid_cell_def ex_solid_cell_def ex_sums)
  have E: "dh_s ex_E = [ex_solid_cell]" "dh_f ex_E = [ex_fluid_cell]"
    "compute_point_locations ex_E m c = [\<lparr>local_fe_f_v = ex_fluid_cell, fluid_map = [0]\<rparr>]"
    "dofs_per_cell (fe_f ex_E) = 3" for m c
    by (simp_all add: ex_E_def ex_fe_f_def)
  let ?P = "ex_par\<lparr>boundary_values := [(0, 0)]\<rparr>"
  have c: "constrained_res ?P scal cdof lres w [0, Suc 0, 2] (Suc 0) = lres (Suc 0)"
    "\<not> all_DBC ex_par" for scal cdof lres w
    by (simp_all add: constrained_res_def ex_par_def)
  have fl: "block0 (a_residual (fluid_cell ex_E ?P scal ar cdof Ref_dummy_JF upd 0 0 zero_vector
              zero_vector ex_fluid_cell
              \<lparr>a_residual = zero_vector, a_JF = A, a_dummy_JF = B\<rparr>)) (Suc 0) = 0"
    for scal ar cdof upd A B
    by (simp add: fluid_cell_residual_entry E dofs c zero_vector_def fluid_local_res_zero[OF f]
          local_average_pressure_zero sum3)
  have co: "block0 (a_residual (coupling_cell ex_E ?P scal cdof upd zero_vector ex_solid_cell lm
              \<lparr>local_fe_f_v = ex_fluid_cell, fluid_map = [0]\<rparr> a)) (Suc 0) =
            block0 (a_residual a) (Suc 0) + 1" for scal cdof upd lm a
    by (simp add: coupling_cell_residual0 E dofs c zero_vector_def V sum3)
  have "block0 (fst (residual_and_or_Jacobian ex_E zero_vector Ref_dummy_JF zero_vector zero_vector
           0 0 ex_state)) 1 = 1"
    by (simp add: residual_and_or_Jacobian_factored Let_def P loops_def E solid_cell_residual
          co fl)
  then show ?thesis
    by (simp add: ex_bv) (simp add: ex_state_def ex_par_def)
qed


theorem zero_state_residual_witness:
  "(\<forall>p c. force (par (ex_state\<lparr>par := ex_par\<lparr>material_model := INH_0, all_DBC := True\<rparr>,
                                  constraining_dof := 0\<rparr>)) 1 p c = 0) \<and>
   dim ex_E = 2 \<and>
   all_DBC (par (ex_state\<lparr>par := ex_par\<lparr>material_model := INH_0, all_DBC := True\<rparr>,
                           constraining_dof := 0\<rparr>)) \<and>
   \<not> fix_pressure (par (ex_state\<lparr>par := ex_par\<lparr>material_model := INH_0, all_DBC := True\<rparr>,
                                  constraining_dof := 0\<rparr>)) \<and>
   boundary_values (par (snd (residual_and_or_Jacobian ex_E zero_vector Ref_JF zero_vector
      zero_vector 1 1 (ex_state\<lparr>par := ex_par\<lparr>material_model := INH_0, all_DBC := True\<rparr>,
                                 constraining_dof := 0\<rparr>)))) = [(0, 1)] \<and>
   block0 (fst (residual_and_or_Jacobian ex_E zero_vector Ref_JF zero_vector zero_vector 1 1
      (ex_state\<lparr>par := ex_par\<lparr>material_model := INH_0, all_DBC := True\<rparr>,
                 constraining_dof := 0\<rparr>))) 0 = 0 \<and>
   block0 (fst (residual_and_or_Jacobian ex_E zero_vector Ref_JF zero_vector zero_vector 1 1
      (ex_state\<lparr>par := ex_par\<lparr>material_model := INH_0, all_DBC := True\<rparr>,
                 constraining_dof := 0\<rparr>))) 1 = 0 \<and>
   block1 (fst (residual_and_or_Jacobian ex_E zero_vector Ref_JF zero_vector zero_vector 1 1
      (ex_state\<lparr>par := ex_par\<lparr>material_model := INH_0, all_DBC := True\<rparr>,
                 constraining_dof := 0\<rparr>))) 0 = 0"
proof -
  let ?s = "ex_state\<lparr>par := ex_par\<lparr>material_model := INH_0, all_DBC := True\<rparr>,
                      constraining_dof := 0\<rparr>"
  have h: "\<forall>p c. force (par ?s) 1 p c = 0" "dim ex_E = 2 \<or> dim ex_E = 3" "dim ex_E = 2"
    "material_model (par ?s) = INH_0" "all_DBC (par ?s)" "\<not> fix_pressure (par ?s)"
    "constraining_dof ?s = 0"
    by (simp_all add: ex_state_def ex_par_def ex_E_def)
  have b: "boundary_values (par (snd (residual_and_or_Jacobian ex_E zero_vector Ref_JF zero_vector
      zero_vector 1 1 ?s))) = [(0, 1)]"
    by (simp add: residual_and_or_Jacobian_factored Let_def prepare_fields compute_current_bc_def
          ex_state_def ex_par_def ex_E_def)
  from zero_state_residual[OF h(1,2), of zero_vector Ref_JF 1] b h
  show ?thesis by (auto simp: Let_def split: prod.splits)
qed


section \<open>The counters of the nonlinear solver\<close>

lemma newton_iteration_Break:
  "newton_iteration E t v s = Break v' s' \<Longrightarrow>
     l2_norm E (current_res (snd (evaluate E t v s))) < 1 / 10 ^ 10 \<and> (v', s') = evaluate E t v s"
  by (auto simp: newton_iteration_def Let_def split: prod.splits if_splits)

lemma newton_iteration_Next_state:
  "newton_iteration E t v s = Next v' s' \<Longrightarrow>
     s' = snd (update_solution E (l2_norm E (current_res (snd (evaluate E t v s))))
                 (fst (evaluate E t v s)) (snd (evaluate E t v s)))"
  by (auto simp: newton_iteration_def Let_def split: prod.splits if_splits)

lemma newton_iteration_Next_counters:
  assumes "newton_iteration E t v s = Next v' s'"
  shows "nonlin_iter v' = nonlin_iter (count_iteration v)"
    and "outer_nonlin_iter v' = outer_nonlin_iter (count_iteration v)"
    and "outer_nonlin_iter v' \<le> 3"
    and "nonlin_iter v + 1 = 15 \<Longrightarrow> update_Jacobian v'"
proof -
  obtain v1 s1 where e: "evaluate E t v s = (v1, s1)" by (cases "evaluate E t v s")
  obtain v2 s2 where u: "update_solution E (l2_norm E (current_res s1)) v1 s1 = (v2, s2)"
    by (cases "update_solution E (l2_norm E (current_res s1)) v1 s1")
  from assms e u have v': "v' = count_iteration v2" and le: "outer_nonlin_iter (count_iteration v2) \<le> 3"
    by (auto simp: newton_iteration_def Let_def split: if_splits)
  have c: "nonlin_iter v2 = nonlin_iter v" "outer_nonlin_iter v2 = outer_nonlin_iter v"
    using evaluate_counters[of E t v s] update_solution_counters[of E "l2_norm E (current_res s1)" v1 s1] e u
    by simp_all
  from count_iteration_cong[OF c] v' le
  show "nonlin_iter v' = nonlin_iter (count_iteration v)"
    and "outer_nonlin_iter v' = outer_nonlin_iter (count_iteration v)"
    and "outer_nonlin_iter v' \<le> 3" by simp_all
  show "update_Jacobian v'" if "nonlin_iter v + 1 = 15"
    using that c v' by (simp add: count_iteration_def Let_def)
qed

lemma newton_iteration_Throw:
  assumes "newton_iteration E t v s = Throw e"
  shows "e = ExcMessage ''No convergence in nonlinear solver.''"
    and "\<not> outer_nonlin_iter (count_iteration v) \<le> 3"
proof -
  obtain v1 s1 where e: "evaluate E t v s = (v1, s1)" by (cases "evaluate E t v s")
  obtain v2 s2 where u: "update_solution E (l2_norm E (current_res s1)) v1 s1 = (v2, s2)"
    by (cases "update_solution E (l2_norm E (current_res s1)) v1 s1")
  from assms e u have m: "e = ExcMessage ''No convergence in nonlinear solver.''"
    and le: "\<not> outer_nonlin_iter (count_iteration v2) \<le> 3"
    by (auto simp: newton_iteration_def Let_def split: if_splits)
  have c: "nonlin_iter v2 = nonlin_iter v" "outer_nonlin_iter v2 = outer_nonlin_iter v"
    using evaluate_counters[of E t v s] update_solution_counters[of E "l2_norm E (current_res s1)" v1 s1] e u
    by simp_all
  from m show "e = ExcMessage ''No convergence in nonlinear solver.''" .
  from count_iteration_cong[OF c] le show "\<not> outer_nonlin_iter (count_iteration v) \<le> 3" by simp
qed

lemma word_below_14:
  "unat (x :: 32 word) < 14 \<Longrightarrow> x + 1 \<noteq> 15 \<and> unat (x + 1) = unat x + 1"
proof -
  assume a: "unat x < 14"
  then have "unat x + unat (1 :: 32 word) < 2 ^ LENGTH(32)" by simp
  then have u: "unat (x + 1) = unat x + unat (1 :: 32 word)" by (simp only: unat_add_lem)
  then have u': "unat (x + 1) = unat x + 1" by simp
  have "x + 1 \<noteq> 15"
  proof
    assume "x + 1 = 15"
    then have "unat (x + 1) = 15" by simp
    with u' a show False by simp
  qed
  with u' show ?thesis by simp
qed

lemma word_at_14: "unat (x :: 32 word) = 14 \<Longrightarrow> x + 1 = 15"
proof -
  assume "unat x = 14"
  then have "unat x = unat (14 :: 32 word)" by simp
  then have "x = 14" by (simp only: word_unat_eq_iff)
  then show ?thesis by simp
qed

lemma newton_iterations_inner:
  "unat (nonlin_iter v) + k \<le> 14 \<Longrightarrow> outer_nonlin_iter v \<le> 3 \<Longrightarrow>
   (case newton_iterations k E t v s of
      Break v' s' \<Rightarrow> True
    | Next v' s' \<Rightarrow> unat (nonlin_iter v') = unat (nonlin_iter v) + k \<and>
                    outer_nonlin_iter v' = outer_nonlin_iter v
    | Throw e \<Rightarrow> False)"
proof (induction k arbitrary: v s)
  case 0
  show ?case by simp
next
  case (Suc k)
  from Suc.prems have lt: "unat (nonlin_iter v) < 14" by simp
  note w = word_below_14[OF lt]
  have ci: "count_iteration v = v\<lparr>nonlin_iter := nonlin_iter v + 1\<rparr>"
    using w by (simp add: count_iteration_def Let_def)
  show ?case
  proof (cases "newton_iteration E t v s")
    case (Break v' s')
    then show ?thesis by simp
  next
    case (Throw e)
    from newton_iteration_Throw(2)[OF Throw] ci Suc.prems(2) show ?thesis by simp
  next
    case (Next v' s')
    note n = newton_iteration_Next_counters(1,2)[OF Next]
    from n ci w have c: "unat (nonlin_iter v') = unat (nonlin_iter v) + 1"
      "outer_nonlin_iter v' = outer_nonlin_iter v" by simp_all
    with Suc.prems have "unat (nonlin_iter v') + k \<le> 14" "outer_nonlin_iter v' \<le> 3" by simp_all
    from Suc.IH[OF this, of s'] c Next show ?thesis
      by (simp split: outcome.splits)
  qed
qed

lemma newton_iterations_add:
  "newton_iterations (a + b) E t v s =
     (case newton_iterations a E t v s of
        Next v' s' \<Rightarrow> newton_iterations b E t v' s'
      | Break v' s' \<Rightarrow> Break v' s'
      | Throw e \<Rightarrow> Throw e)"
  by (induction a arbitrary: v s) (simp_all split: outcome.splits)

lemma newton_loop_iterations:
  "newton_loop E t v s =
     (case newton_iterations k E t v s of
        Break v' s' \<Rightarrow> Inr (v', s')
      | Throw e \<Rightarrow> Inl e
      | Next v' s' \<Rightarrow> newton_loop E t v' s')"
proof (induction k arbitrary: v s)
  case 0
  show ?case by simp
next
  case (Suc k)
  show ?case
  proof (cases "newton_iteration E t v s")
    case (Break v' s')
    then show ?thesis by (subst newton_loop.simps) simp
  next
    case (Throw e)
    then show ?thesis by (subst newton_loop.simps) simp
  next
    case (Next v' s')
    with Suc.IH[of v' s'] show ?thesis by (subst newton_loop.simps) simp
  qed
qed

lemma newton_iterations_round:
  assumes "nonlin_iter v = 0" and "outer_nonlin_iter v \<le> 3"
  shows "case newton_iterations 15 E t v s of
            Break v' s' \<Rightarrow> True
          | Next v' s' \<Rightarrow> update_Jacobian v' \<and> nonlin_iter v' = 0 \<and>
                outer_nonlin_iter v' = outer_nonlin_iter v + 1 \<and> outer_nonlin_iter v < 3 \<and>
                outer_nonlin_iter v' \<le> 3
          | Throw e \<Rightarrow> outer_nonlin_iter v = 3 \<and> e = ExcMessage ''No convergence in nonlinear solver.''"
proof -
  have s: "newton_iterations 15 E t v s =
     (case newton_iterations 14 E t v s of
        Next v' s' \<Rightarrow> newton_iterations 1 E t v' s'
      | Break v' s' \<Rightarrow> Break v' s'
      | Throw e \<Rightarrow> Throw e)"
    using newton_iterations_add[of 14 1 E t v s] by simp
  have i: "case newton_iterations 14 E t v s of
      Break v' s' \<Rightarrow> True
    | Next v' s' \<Rightarrow> unat (nonlin_iter v') = unat (nonlin_iter v) + 14 \<and>
                    outer_nonlin_iter v' = outer_nonlin_iter v
    | Throw e \<Rightarrow> False"
    using assms by (intro newton_iterations_inner) simp_all
  show ?thesis
  proof (cases "newton_iterations 14 E t v s")
    case (Break v' s')
    with s show ?thesis by simp
  next
    case (Throw e)
    with i show ?thesis by simp
  next
    case (Next v1 s1)
    with i assms have c: "unat (nonlin_iter v1) = 14" "outer_nonlin_iter v1 = outer_nonlin_iter v"
      by simp_all
    note w = word_at_14[OF c(1)]
    have ci: "count_iteration v1 = v1\<lparr>update_Jacobian := True, nonlin_iter := 0,
                outer_nonlin_iter := outer_nonlin_iter v1 + 1\<rparr>"
      using w by (simp add: count_iteration_def Let_def)
    note u = word_succ_le3[OF assms(2)]
    have o: "outer_nonlin_iter v + 1 \<le> 3 \<longleftrightarrow> outer_nonlin_iter v < 3"
      using u by (auto simp: word_le_nat_alt word_less_nat_alt)
    have o': "outer_nonlin_iter v = 3" if "\<not> outer_nonlin_iter v + 1 \<le> 3"
    proof -
      from that u have "unat (outer_nonlin_iter v) = unat (3 :: 32 word)"
        by (auto simp: word_le_nat_alt)
      then show ?thesis by (simp only: word_unat_eq_iff)
    qed
    have s1: "newton_iterations 15 E t v s =
       (case newton_iteration E t v1 s1 of
        Next v' s' \<Rightarrow> Next v' s'
      | Break v' s' \<Rightarrow> Break v' s'
      | Throw e \<Rightarrow> Throw e)"
      using s Next by (simp split: outcome.splits)
    show ?thesis
    proof (cases "newton_iteration E t v1 s1")
      case (Break v' s')
      with s1 show ?thesis by simp
    next
      case (Throw e)
      from newton_iteration_Throw[OF Throw] ci c o o' s1 Throw show ?thesis by simp
    next
      case n: (Next v' s')
      from newton_iteration_Next_counters[OF n] ci c o w s1 n show ?thesis by simp
    qed
  qed
qed


lemma newton_iterations_rounds:
  "nonlin_iter v = 0 \<Longrightarrow> outer_nonlin_iter v \<le> 3 \<Longrightarrow> unat (outer_nonlin_iter v) + r = 4 \<Longrightarrow>
   (case newton_iterations (15 * r) E t v s of
      Break v' s' \<Rightarrow> True
    | Next v' s' \<Rightarrow> False
    | Throw e \<Rightarrow> e = ExcMessage ''No convergence in nonlinear solver.'')"
proof (induction r arbitrary: v s)
  case 0
  from word_succ_le3[OF 0(2)] 0(3) show ?case by simp
next
  case (Suc r)
  have a: "newton_iterations (15 * Suc r) E t v s =
     (case newton_iterations 15 E t v s of
        Next v' s' \<Rightarrow> newton_iterations (15 * r) E t v' s'
      | Break v' s' \<Rightarrow> Break v' s'
      | Throw e \<Rightarrow> Throw e)"
    using newton_iterations_add[of 15 "15 * r" E t v s] by simp
  note rd = newton_iterations_round[OF Suc.prems(1,2), of E t s]
  show ?case
  proof (cases "newton_iterations 15 E t v s")
    case (Break v' s')
    with a show ?thesis by simp
  next
    case (Throw e)
    with a rd show ?thesis by simp
  next
    case (Next v' s')
    with rd have c: "nonlin_iter v' = 0" "outer_nonlin_iter v' = outer_nonlin_iter v + 1"
      "outer_nonlin_iter v' \<le> 3" by auto
    from word_succ_le3[OF Suc.prems(2)] c(2) Suc.prems(3)
    have "unat (outer_nonlin_iter v') + r = 4" by simp
    from Suc.IH[OF c(1) c(3) this, of s'] a Next show ?thesis by simp
  qed
qed

lemma time_step_body_impose:
  "time_step_body E t upd s =
     (case newton_loop E t \<lparr>nonlin_iter = 0, outer_nonlin_iter = 0, update_Jacobian = upd\<rparr>
             (impose_bc E t s) of
        Inl e \<Rightarrow> Inl e
      | Inr (v, s) \<Rightarrow>
          Inr (if update_jacobian_at_step_beginning (par s) then True
               else update_jacobian_continuously (par s),
               s\<lparr>previous_xi := current_xi s\<rparr>))"
  by (simp add: time_step_body_def impose_bc_def Let_def split: prod.splits sum.splits)

text \<open>C6.  Fifteen passes in a row that fail the convergence test, starting with the inner
  counter at zero and the outer counter at most 3, set \<open>update_Jacobian\<close>, leave the inner
  counter at zero and add one to the outer counter; if the outer counter was 3 it now exceeds
  3 and the loop ends with the exception \<^verbatim>\<open>No convergence in nonlinear solver.\<close>  A time
  step makes at most 60 passes: the sixtieth failure is that exception, which
  \<^verbatim>\<open>run\<close> does not catch, so that the loop over time ends with it.\<close>

theorem no_convergence:
  assumes "nonlin_iter v = 0" and "outer_nonlin_iter v \<le> 3"
  shows "(case newton_iterations 15 E t v s of
            Break v' s' \<Rightarrow> newton_loop E t v s = Inr (v', s')
          | Next v' s' \<Rightarrow>
              update_Jacobian v' \<and> nonlin_iter v' = 0 \<and>
              outer_nonlin_iter v' = outer_nonlin_iter v + 1 \<and> outer_nonlin_iter v < 3
          | Throw e \<Rightarrow>
              outer_nonlin_iter v = 3 \<and> e = ExcMessage ''No convergence in nonlinear solver.'' \<and>
              newton_loop E t v s = Inl e) \<and>
         (case newton_iterations 60 E t
                 \<lparr>nonlin_iter = 0, outer_nonlin_iter = 0, update_Jacobian = upd\<rparr>
                 (impose_bc E t s0) of
            Break v' s' \<Rightarrow> True
          | Next v' s' \<Rightarrow> False
          | Throw e \<Rightarrow>
              e = ExcMessage ''No convergence in nonlinear solver.'' \<and>
              time_step_body E t upd s0 = Inl e \<and>
              (t \<le> T_final (par s0) \<longrightarrow> time_loop E t n upd s0 = Some (Inl e)))"
proof
  from newton_iterations_round[OF assms, of E t s] newton_loop_iterations[of E t v s 15]
  show "case newton_iterations 15 E t v s of
            Break v' s' \<Rightarrow> newton_loop E t v s = Inr (v', s')
          | Next v' s' \<Rightarrow>
              update_Jacobian v' \<and> nonlin_iter v' = 0 \<and>
              outer_nonlin_iter v' = outer_nonlin_iter v + 1 \<and> outer_nonlin_iter v < 3
          | Throw e \<Rightarrow>
              outer_nonlin_iter v = 3 \<and> e = ExcMessage ''No convergence in nonlinear solver.'' \<and>
              newton_loop E t v s = Inl e"
    by (simp split: outcome.splits)
next
  let ?v = "\<lparr>nonlin_iter = 0, outer_nonlin_iter = 0, update_Jacobian = upd\<rparr>"
  have r: "case newton_iterations 60 E t ?v (impose_bc E t s0) of
      Break v' s' \<Rightarrow> True
    | Next v' s' \<Rightarrow> False
    | Throw e \<Rightarrow> e = ExcMessage ''No convergence in nonlinear solver.''"
    using newton_iterations_rounds[of ?v 4 E t "impose_bc E t s0"] by simp
  have l: "newton_loop E t ?v (impose_bc E t s0) = Inl e"
    if "newton_iterations 60 E t ?v (impose_bc E t s0) = Throw e" for e
    using newton_loop_iterations[of E t ?v "impose_bc E t s0" 60] that by simp
  have b: "time_step_body E t upd s0 = Inl e"
    if "newton_iterations 60 E t ?v (impose_bc E t s0) = Throw e" for e
    using l[OF that] by (simp add: time_step_body_impose)
  have tl: "time_loop E t n upd s0 = Some (Inl e)"
    if "newton_iterations 60 E t ?v (impose_bc E t s0) = Throw e" "t \<le> T_final (par s0)" for e
    using b[OF that(1)] that(2) by (subst time_loop.simps) simp
  from r b tl
  show "case newton_iterations 60 E t ?v (impose_bc E t s0) of
            Break v' s' \<Rightarrow> True
          | Next v' s' \<Rightarrow> False
          | Throw e \<Rightarrow>
              e = ExcMessage ''No convergence in nonlinear solver.'' \<and>
              time_step_body E t upd s0 = Inl e \<and>
              (t \<le> T_final (par s0) \<longrightarrow> time_loop E t n upd s0 = Some (Inl e))"
    by (simp split: outcome.splits)
qed

text \<open>On the small configuration with the solver that returns no update the residual stays
  the same, so the test fails in every pass.\<close>

lemma l2_norm_ge: "k < n_dofs_up E \<Longrightarrow> \<bar>block0 x k\<bar> \<le> l2_norm E x"
proof -
  assume k: "k < n_dofs_up E"
  have "block0 x k * block0 x k \<le> (\<Sum>k<n_dofs_up E. block0 x k * block0 x k)"
    using k by (intro member_le_sum) simp_all
  moreover have "0 \<le> (\<Sum>k<n_dofs_W E. block1 x k * block1 x k)"
    by (intro sum_nonneg) simp
  ultimately have "sqrt (block0 x k * block0 x k) \<le> l2_norm E x"
    unfolding l2_norm_def by (intro real_sqrt_le_mono) simp
  then show ?thesis by simp
qed

lemma prepare_state:
  "current_xi (prepare E jacobian xi t s) = current_xi s"
  "JF_inv (prepare E jacobian xi t s) = JF_inv s"
  by (cases jacobian;
      simp add: prepare_def Let_def compute_current_bc_def assign_ref_def new_mapping_def
        delete_mapping_def split: option.splits)+

lemma residual_and_or_Jacobian_frame:
  "par (snd (residual_and_or_Jacobian E res jacobian xit xi alpha t s)) = par (compute_current_bc E t s)"
  "current_xi (snd (residual_and_or_Jacobian E res jacobian xit xi alpha t s)) = current_xi s"
  "previous_xi (snd (residual_and_or_Jacobian E res jacobian xit xi alpha t s)) = previous_xi s"
  "JF_inv (snd (residual_and_or_Jacobian E res jacobian xit xi alpha t s)) = JF_inv s"
  by (simp_all add: residual_and_or_Jacobian_factored Let_def prepare_fields prepare_state)

lemma ex_residual_row:
  assumes "par s = ex_par \<or> par s = ex_par\<lparr>boundary_values := [(0, 0)]\<rparr>"
  shows "block0 (fst (residual_and_or_Jacobian (ex_E\<lparr>umfpack_solve := u\<rparr>) res jacobian
                        zero_vector zero_vector alpha 0 s)) (Suc 0) = 1"
proof -
  let ?E = "ex_E\<lparr>umfpack_solve := u\<rparr>"
  let ?P = "ex_par\<lparr>boundary_values := [(0, 0)]\<rparr>"
  have P: "par (prepare ?E jacobian zero_vector 0 s) = ?P"
    using assms
    by (auto simp: prepare_fields compute_current_bc_def Let_def ex_par_def ex_E_def)
  have f: "\<forall>p c. force ?P 0 p c = 0"
    by (simp add: ex_par_def)
  have dofs: "get_dof_indices (fe_f ex_E) ex_fluid_cell = [0, 1, 2]"
    by (simp add: get_dof_indices_def ex_E_def ex_fe_f_def ex_fluid_cell_def ex_sums)
  have V: "coupling_V_local_res ?E ?P ex_solid_cell
             \<lparr>local_fe_f_v = ex_fluid_cell, fluid_map = [0]\<rparr> (\<lambda>_. 0) lm (Suc 0) = 1" for lm
    by (simp add: coupling_V_local_res_def PeFT_at_def get_Pe_def deformation_gradient_zero
          contract11_def dot_def Let_def ex_par_def ex_E_def ex_fe_f_def ex_fe_s_def
          ex_fluid_cell_def ex_solid_cell_def ex_sums)
  have E: "dh_s ex_E = [ex_solid_cell]" "dh_f ex_E = [ex_fluid_cell]"
    "compute_point_locations ex_E m c = [\<lparr>local_fe_f_v = ex_fluid_cell, fluid_map = [0]\<rparr>]"
    "dofs_per_cell (fe_f ex_E) = 3" for m c
    by (simp_all add: ex_E_def ex_fe_f_def)
  have c: "constrained_res ?P scal cdof lres w [0, Suc 0, 2] (Suc 0) = lres (Suc 0)"
    "\<not> all_DBC ex_par" for scal cdof lres w
    by (simp_all add: constrained_res_def ex_par_def)
  have fl: "block0 (a_residual (fluid_cell ?E ?P scal ar cdof jacobian upd alpha 0 zero_vector
              zero_vector ex_fluid_cell
              \<lparr>a_residual = zero_vector, a_JF = A, a_dummy_JF = B\<rparr>)) (Suc 0) = 0"
    for scal ar cdof upd A B
    by (simp add: fluid_cell_residual_entry E dofs c zero_vector_def fluid_local_res_zero[OF f]
          local_average_pressure_zero sum3)
  have co: "block0 (a_residual (coupling_cell ?E ?P scal cdof upd zero_vector ex_solid_cell lm
              \<lparr>local_fe_f_v = ex_fluid_cell, fluid_map = [0]\<rparr> a)) (Suc 0) =
            block0 (a_residual a) (Suc 0) + 1" for scal cdof upd lm a
    by (simp add: coupling_cell_residual0 E dofs c zero_vector_def V sum3)
  show ?thesis
    by (simp add: residual_and_or_Jacobian_factored Let_def P loops_def E solid_cell_residual
          co fl)
qed

lemma ex_par_after:
  "par s = ex_par \<or> par s = ex_par\<lparr>boundary_values := [(0, 0)]\<rparr> \<Longrightarrow>
   par (compute_current_bc (ex_E\<lparr>umfpack_solve := u\<rparr>) 0 s) = ex_par\<lparr>boundary_values := [(0, 0)]\<rparr>"
  by (auto simp: compute_current_bc_def Let_def ex_par_def ex_E_def)

lemma ex_evaluate:
  assumes "par s = ex_par \<or> par s = ex_par\<lparr>boundary_values := [(0, 0)]\<rparr>"
    and "current_xi s = zero_vector" and "previous_xi s = zero_vector"
  shows "block0 (current_res (snd (evaluate (ex_E\<lparr>umfpack_solve := u\<rparr>) 0 v s))) (Suc 0) = 1"
    and "par (snd (evaluate (ex_E\<lparr>umfpack_solve := u\<rparr>) 0 v s)) = ex_par\<lparr>boundary_values := [(0, 0)]\<rparr>"
    and "current_xi (snd (evaluate (ex_E\<lparr>umfpack_solve := u\<rparr>) 0 v s)) = zero_vector"
    and "previous_xi (snd (evaluate (ex_E\<lparr>umfpack_solve := u\<rparr>) 0 v s)) = zero_vector"
    and "\<not> update_Jacobian v \<Longrightarrow> JF_inv (snd (evaluate (ex_E\<lparr>umfpack_solve := u\<rparr>) 0 v s)) = JF_inv s"
proof -
  let ?E = "ex_E\<lparr>umfpack_solve := u\<rparr>"
  let ?s = "s\<lparr>current_xit := zero_vector\<rparr>"
  have z: "bv_divide (bv_minus zero_vector zero_vector) d = zero_vector" for d
    by (simp add: bv_divide_def bv_minus_def zero_vector_def)
  have p: "par ?s = ex_par \<or> par ?s = ex_par\<lparr>boundary_values := [(0, 0)]\<rparr>"
    using assms(1) by simp
  have e: "evaluate ?E 0 v s =
     (if update_Jacobian v then
        (let R = residual_and_or_Jacobian ?E (current_res s) Ref_JF zero_vector zero_vector
                   (1 / dt (par s)) 0 ?s
         in (v\<lparr>update_Jacobian := update_jacobian_continuously (par (snd R))\<rparr>,
             (snd R)\<lparr>current_res := fst R, JF_inv := JF (snd R)\<rparr>))
      else
        (let R = residual_and_or_Jacobian ?E (current_res s) Ref_dummy_JF zero_vector zero_vector
                   0 0 ?s
         in (v, (snd R)\<lparr>current_res := fst R\<rparr>)))"
    using assms(2,3) by (simp add: evaluate_def Let_def z split: prod.splits)
  note r = ex_residual_row[OF p, of u]
  note a = ex_par_after[OF p, of u]
  show "block0 (current_res (snd (evaluate ?E 0 v s))) (Suc 0) = 1"
    by (simp add: e Let_def r)
  show "par (snd (evaluate ?E 0 v s)) = ex_par\<lparr>boundary_values := [(0, 0)]\<rparr>"
    by (simp add: e Let_def residual_and_or_Jacobian_frame a)
  show "current_xi (snd (evaluate ?E 0 v s)) = zero_vector"
    using assms(2) by (simp add: e Let_def residual_and_or_Jacobian_frame)
  show "previous_xi (snd (evaluate ?E 0 v s)) = zero_vector"
    using assms(3) by (simp add: e Let_def residual_and_or_Jacobian_frame)
  show "JF_inv (snd (evaluate ?E 0 v s)) = JF_inv s" if "\<not> update_Jacobian v"
    using that by (simp add: e Let_def residual_and_or_Jacobian_frame)
qed

lemma ex_evaluate_norm:
  assumes "par s = ex_par \<or> par s = ex_par\<lparr>boundary_values := [(0, 0)]\<rparr>"
    and "current_xi s = zero_vector" and "previous_xi s = zero_vector"
  shows "1 \<le> l2_norm (ex_E\<lparr>umfpack_solve := u\<rparr>)
                 (current_res (snd (evaluate (ex_E\<lparr>umfpack_solve := u\<rparr>) 0 v s)))"
proof -
  have "(1 :: nat) < n_dofs_up (ex_E\<lparr>umfpack_solve := u\<rparr>)" by (simp add: ex_E_def)
  from l2_norm_ge[OF this, of "current_res (snd (evaluate (ex_E\<lparr>umfpack_solve := u\<rparr>) 0 v s))"]
    ex_evaluate(1)[OF assms, of u v]
  show ?thesis by simp
qed

lemma newton_iterations_stalled:
  assumes step: "\<And>v s. I s \<Longrightarrow>
      \<not> l2_norm E (current_res (snd (evaluate E t v s))) < 1 / 10 ^ 10 \<and>
      (\<forall>r v'. I (snd (update_solution E r v' (snd (evaluate E t v s)))))"
    and "I s"
  shows "newton_iterations k E t v s \<noteq> Break v' s'"
  using assms(2)
proof (induction k arbitrary: v s)
  case 0
  show ?case by simp
next
  case (Suc k)
  show ?case
  proof (cases "newton_iteration E t v s")
    case (Break v1 s1)
    from newton_iteration_Break[OF Break] step[OF Suc.prems, of v] show ?thesis by simp
  next
    case (Throw e)
    then show ?thesis by simp
  next
    case (Next v1 s1)
    from newton_iteration_Next_state[OF Next] step[OF Suc.prems, of v] have "I s1" by simp
    from Suc.IH[OF this, of v1] Next show ?thesis by simp
  qed
qed

lemma ex_stalled_never:
  assumes "par s = ex_par \<or> par s = ex_par\<lparr>boundary_values := [(0, 0)]\<rparr>"
    and "current_xi s = zero_vector" and "previous_xi s = zero_vector"
  shows "newton_iterations k ex_stalled 0 v s \<noteq> Break v' s'"
proof -
  let ?I = "\<lambda>s. (par s = ex_par \<or> par s = ex_par\<lparr>boundary_values := [(0, 0)]\<rparr>) \<and>
                 current_xi s = zero_vector \<and> previous_xi s = zero_vector"
  have z: "bv_plus zero_vector zero_vector = zero_vector"
    by (simp add: bv_plus_def zero_vector_def)
  have "\<not> l2_norm ex_stalled (current_res (snd (evaluate ex_stalled 0 v s))) < 1 / 10 ^ 10 \<and>
        (\<forall>r v'. ?I (snd (update_solution ex_stalled r v' (snd (evaluate ex_stalled 0 v s)))))"
    if "?I s" for v s
  proof -
    from that have a: "par s = ex_par \<or> par s = ex_par\<lparr>boundary_values := [(0, 0)]\<rparr>"
      "current_xi s = zero_vector" "previous_xi s = zero_vector" by simp_all
    from ex_evaluate_norm[OF a, of "\<lambda>_ _. zero_vector" v]
    have n: "\<not> l2_norm ex_stalled (current_res (snd (evaluate ex_stalled 0 v s))) < 1 / 10 ^ 10"
      by (simp add: ex_stalled_def)
    have u: "umfpack_solve ex_stalled A b = zero_vector" for A b
      by (simp add: ex_stalled_def)
    from ex_evaluate(2,3,4)[OF a, of "\<lambda>_ _. zero_vector" v]
    have "?I (snd (update_solution ex_stalled r v' (snd (evaluate ex_stalled 0 v s))))" for r v'
      by (simp add: update_solution_def Let_def u z ex_stalled_def)
    with n show ?thesis by simp
  qed
  from newton_iterations_stalled[where I = ?I, OF this] assms show ?thesis by simp
qed

lemma ex_impose_bc:
  "par (impose_bc ex_stalled 0 ex_state) = ex_par\<lparr>boundary_values := [(0, 0)]\<rparr>"
  "current_xi (impose_bc ex_stalled 0 ex_state) = zero_vector"
  "previous_xi (impose_bc ex_stalled 0 ex_state) = zero_vector"
  by (simp_all add: impose_bc_def apply_current_bc_def compute_current_bc_def Let_def
        ex_stalled_def ex_E_def ex_state_def ex_par_def zero_vector_def fun_eq_iff)

theorem no_convergence_witness:
  "nonlin_iter \<lparr>nonlin_iter = 0, outer_nonlin_iter = 3, update_Jacobian = False\<rparr> = 0 \<and>
   outer_nonlin_iter \<lparr>nonlin_iter = 0, outer_nonlin_iter = 3, update_Jacobian = False\<rparr> \<le> 3 \<and>
   newton_iterations 15 ex_stalled 0
     \<lparr>nonlin_iter = 0, outer_nonlin_iter = 3, update_Jacobian = False\<rparr> ex_state =
     Throw (ExcMessage ''No convergence in nonlinear solver.'') \<and>
   newton_loop ex_stalled 0
     \<lparr>nonlin_iter = 0, outer_nonlin_iter = 3, update_Jacobian = False\<rparr> ex_state =
     Inl (ExcMessage ''No convergence in nonlinear solver.'') \<and>
   newton_iterations 60 ex_stalled 0
     \<lparr>nonlin_iter = 0, outer_nonlin_iter = 0, update_Jacobian = True\<rparr>
     (impose_bc ex_stalled 0 ex_state) =
     Throw (ExcMessage ''No convergence in nonlinear solver.'') \<and>
   0 \<le> T_final (par ex_state) \<and>
   time_loop ex_stalled 0 1 True ex_state =
     Some (Inl (ExcMessage ''No convergence in nonlinear solver.''))"
proof -
  let ?v = "\<lparr>nonlin_iter = 0, outer_nonlin_iter = 3, update_Jacobian = False\<rparr>"
  let ?w = "\<lparr>nonlin_iter = 0, outer_nonlin_iter = 0, update_Jacobian = True\<rparr>"
  have h: "nonlin_iter ?v = 0" "outer_nonlin_iter ?v \<le> 3" by simp_all
  have s: "par ex_state = ex_par \<or> par ex_state = ex_par\<lparr>boundary_values := [(0, 0)]\<rparr>"
    "current_xi ex_state = zero_vector" "previous_xi ex_state = zero_vector"
    by (simp_all add: ex_state_def)
  have T: "0 \<le> T_final (par ex_state)" by (simp add: ex_state_def ex_par_def)
  note a = ex_stalled_never[OF s, of 15 ?v]
  note b = ex_stalled_never[OF disjI2[OF ex_impose_bc(1)] ex_impose_bc(2,3), of 60 ?w]
  from no_convergence[OF h, of ex_stalled 0 ex_state True ex_state 1] a b h T
  show ?thesis
    by (cases "newton_iterations 15 ex_stalled 0 ?v ex_state";
        cases "newton_iterations 60 ex_stalled 0 ?w (impose_bc ex_stalled 0 ex_state)")
       auto
qed


section \<open>One pass of the nonlinear solver\<close>









end
